(* ===== verification/Prelude.thy ===== *)
theory Prelude
  imports Main "HOL-Library.Word" "HOL-Library.Monad_Syntax"
begin

text \<open>
  Shared ground of the development: the machine types of the C code, memory
  accesses that can go out of bounds, NUL-terminated strings, calls through
  nullable function pointers, and the lemmas every component uses about them.

  A C array is the list of its bytes. Reading or writing past its end is
  undefined behaviour in C and the value \<open>None\<close> here, so that "this code
  never touches memory it does not own" is the statement that a model function
  returns \<open>Some\<close>.
\<close>

unbundle bit_operations_syntax

type_synonym u8 = "8 word"
type_synonym u32 = "32 word"
type_synonym u64 = "64 word"

text \<open>\<open>int\<close> and \<open>int32_t\<close>: 32 bits, read as signed with \<open>sint\<close>.\<close>

type_synonym i32 = "32 word"

type_synonym bytes = "u8 list"

named_theorems mem_simps \<open>facts about bounded memory accesses\<close>

lemma unat_ucast_u8_u32 [simp]: "unat (ucast (x :: u8) :: u32) = unat x"
  by transfer simp

section \<open>Bounded memory\<close>

definition buf_write :: "'a list \<Rightarrow> nat \<Rightarrow> 'a \<Rightarrow> 'a list option" where
  "buf_write m i x = (if i < length m then Some (m[i := x]) else None)"

definition buf_read :: "'a list \<Rightarrow> nat \<Rightarrow> 'a option" where
  "buf_read m i = (if i < length m then Some (m ! i) else None)"

lemma buf_write_ok [mem_simps]: "i < length m \<Longrightarrow> buf_write m i x = Some (m[i := x])"
  by (simp add: buf_write_def)

lemma buf_read_ok [mem_simps]: "i < length m \<Longrightarrow> buf_read m i = Some (m ! i)"
  by (simp add: buf_read_def)

lemma buf_write_Some_conv:
  "buf_write m i x = Some m' \<longleftrightarrow> i < length m \<and> m' = m[i := x]"
  by (auto simp: buf_write_def)

lemma length_buf_write: "buf_write m i x = Some m' \<Longrightarrow> length m' = length m"
  by (simp add: buf_write_Some_conv)

lemma take_update_beyond [simp]: "n \<le> i \<Longrightarrow> take n (m[i := x]) = take n m"
  by (simp add: take_update_swap list_update_beyond)

lemma take_Suc_update [simp]: "i < length m \<Longrightarrow> take (Suc i) (m[i := x]) = take i m @ [x]"
  by (simp add: take_Suc_conv_app_nth)

text \<open>\<open>memcpy(dst, src, n)\<close>, for disjoint blocks.\<close>

definition memcpy :: "'a list \<Rightarrow> 'a list \<Rightarrow> nat \<Rightarrow> 'a list option" where
  "memcpy dst src n = (if n \<le> length dst \<and> n \<le> length src then Some (take n src @ drop n dst) else None)"

section \<open>NUL-terminated strings\<close>

text \<open>
  The string a C program sees at the start of a memory block: the bytes before
  the first NUL. A block with no NUL would be read past its end.
\<close>

definition c_str :: "bytes \<Rightarrow> bytes option" where
  "c_str m = (if 0 \<in> set m then Some (takeWhile (\<lambda>b. b \<noteq> 0) m) else None)"

lemma c_str_terminated:
  assumes "n < length m" and "m ! n = 0" and "0 \<notin> set (take n m)"
  shows "c_str m = Some (take n m)"
proof -
  have m: "m = take n m @ 0 # drop (Suc n) m"
    using assms(1,2) id_take_nth_drop [of n m] by simp
  have "takeWhile (\<lambda>b. b \<noteq> 0) (take n m @ 0 # drop (Suc n) m) = take n m"
    using assms(3) by (subst takeWhile_append2) auto
  moreover have "0 \<in> set m" using assms(1,2) nth_mem by fastforce
  ultimately show ?thesis using m by (simp add: c_str_def)
qed

lemma c_str_append [simp]: "0 \<notin> set xs \<Longrightarrow> c_str (xs @ 0 # ys) = Some xs"
  by (subst c_str_terminated [of "length xs"]) simp_all

lemma c_str_update:
  "n < length m \<Longrightarrow> 0 \<notin> set (take n m) \<Longrightarrow> c_str (m[n := 0]) = Some (take n m)"
  using c_str_terminated [of n "m[n := 0]"] by simp

text \<open>
  \<open>snprintf(dst, cap, ...)\<close> with the formatted text given: at most \<open>cap - 1\<close>
  bytes of it are stored, and a NUL.
\<close>

definition snprintf_to :: "bytes \<Rightarrow> nat \<Rightarrow> bytes \<Rightarrow> bytes option" where
  "snprintf_to dst cap str =
     (if cap = 0 then Some dst
      else if cap \<le> length dst then
        (let t = take (cap - 1) str in Some (t @ 0 # drop (length t + 1) dst))
      else None)"

lemma length_snprintf_to: "snprintf_to dst cap str = Some m \<Longrightarrow> length m = length dst"
  by (auto simp: snprintf_to_def Let_def split: if_splits)

text \<open>String literals of the source, as bytes.\<close>

definition bytes_of :: "string \<Rightarrow> bytes" where
  "bytes_of s = map of_char s"

section \<open>Calls through nullable function pointers\<close>

text \<open>
  \<open>if (p->cb.f) p->cb.f(ud, x)\<close>: a NULL pointer is not called. The callee may
  itself run into undefined behaviour, hence the option in its result.
\<close>

definition opt_call :: "('u \<Rightarrow> 'a \<Rightarrow> 'u option) option \<Rightarrow> 'a \<Rightarrow> 'u \<Rightarrow> 'u option" where
  "opt_call f x u = (case f of None \<Rightarrow> Some u | Some g \<Rightarrow> g u x)"

lemma opt_call_simps [simp]:
  "opt_call None x u = Some u"
  "opt_call (Some g) x u = g u x"
  by (simp_all add: opt_call_def)

section \<open>Running a step over a list\<close>

fun foldM :: "('b \<Rightarrow> 's \<Rightarrow> 's option) \<Rightarrow> 'b list \<Rightarrow> 's \<Rightarrow> 's option" where
  "foldM f [] s = Some s"
| "foldM f (x # xs) s = do { s' \<leftarrow> f x s; foldM f xs s' }"

lemma foldM_append: "foldM f (xs @ ys) s = do { s' \<leftarrow> foldM f xs s; foldM f ys s' }"
  by (induction xs arbitrary: s) (auto split: Option.bind_splits)

lemma bind_foldM_Nil [simp]: "m \<bind> foldM f [] = m"
  by (cases m) simp_all

section \<open>Total correctness of option-valued code\<close>

text \<open>
  \<open>returns m Q\<close>: the computation \<open>m\<close> runs into no undefined behaviour and its
  result satisfies \<open>Q\<close>. The rules in \<open>wp\<close> push it through the option monad, so
  that a proof about a model function is a proof about its branches.
\<close>

named_theorems wp \<open>weakest-precondition rules of the option monad\<close>

definition returns :: "'a option \<Rightarrow> ('a \<Rightarrow> bool) \<Rightarrow> bool" where
  "returns m Q = (case m of None \<Rightarrow> False | Some x \<Rightarrow> Q x)"

lemma returns_simps [simp, wp]:
  "returns (Some x) Q = Q x"
  "returns None Q = False"
  by (simp_all add: returns_def)

lemma returns_bind [simp, wp]: "returns (m \<bind> f) Q = returns m (\<lambda>x. returns (f x) Q)"
  by (cases m) simp_all

lemma returns_if [wp]: "returns (if b then m else n) Q = ((b \<longrightarrow> returns m Q) \<and> (\<not> b \<longrightarrow> returns n Q))"
  by simp

lemma returns_iff: "returns m Q \<longleftrightarrow> (\<exists>x. m = Some x \<and> Q x)"
  by (cases m) simp_all

lemma returns_mono: "returns m Q \<Longrightarrow> (\<And>x. Q x \<Longrightarrow> R x) \<Longrightarrow> returns m R"
  by (cases m) simp_all

lemma returns_Some: "returns m Q \<Longrightarrow> m = Some x \<Longrightarrow> Q x"
  by simp

lemma returns_strengthen: "returns m Q \<Longrightarrow> (\<And>x. m = Some x \<Longrightarrow> Q x \<Longrightarrow> R x) \<Longrightarrow> returns m R"
  by (cases m) simp_all

lemma returns_conj: "returns m P \<Longrightarrow> returns m Q \<Longrightarrow> returns m (\<lambda>x. P x \<and> Q x)"
  by (cases m) simp_all

lemma returns_buf_write [simp, wp]:
  "returns (buf_write m i x) Q \<longleftrightarrow> i < length m \<and> Q (m[i := x])"
  by (simp add: buf_write_def)

lemma returns_buf_read [simp, wp]: "returns (buf_read m i) Q \<longleftrightarrow> i < length m \<and> Q (m ! i)"
  by (simp add: buf_read_def)

lemma returns_foldM:
  assumes step: "\<And>x s. x \<in> set xs \<Longrightarrow> I s \<Longrightarrow> returns (f x s) I" and "I s"
  shows "returns (foldM f xs s) I"
  using assms
proof (induction xs arbitrary: s)
  case Nil
  then show ?case by simp
next
  case (Cons x xs)
  have "returns (f x s) I" using Cons.prems by simp
  then show ?case using Cons.IH Cons.prems(1) by (auto elim: returns_mono)
qed

end
