(* ===== verification/Sse_Parser.thy ===== *)
theory Sse_Parser
  imports Prelude
begin

text \<open>
  The byte-driven parser of \<open>src/sse_parser.c\<close>, function by function.

  A parser call works on a pair: the parser struct and the object behind the
  callbacks' \<open>userdata\<close> pointer, whose type is left open. The callback table
  (\<open>p->cb\<close>, written once by \<open>sse_parser_init\<close>) is the argument \<open>cb\<close> of every
  function. \<open>None\<close> is undefined behaviour: an access outside a buffer, or a
  callback that ran into one.

  Lengths are \<open>nat\<close>: \<open>size_t\<close> cannot wrap here because every counter stays
  within its buffer, which is part of the invariant proved in
  \<open>Sse_Parser_Safety\<close>; the one subtraction, \<open>data_len - 1\<close>, is guarded
  explicitly. The retry accumulator is a 32-bit word.
\<close>

section \<open>Types\<close>

datatype parser_state = PS_BOM | PS_LINE_START | PS_FIELD_NAME | PS_AFTER_COLON | PS_VALUE | PS_SKIP_LINE
datatype parser_field = F_NONE | F_DATA | F_EVENT | F_ID | F_RETRY

datatype sse_parse_error =
  SSE_PARSE_ERR_DATA_TOO_LARGE | SSE_PARSE_ERR_ID_INVALID | SSE_PARSE_ERR_EVENT_TYPE_TOO_LARGE |
  SSE_PARSE_ERR_INVALID_RETRY | SSE_PARSE_ERR_UNKNOWN_FIELD | SSE_PARSE_ERR_EVENT_TYPE_INVALID

text \<open>
  A dispatched event. A pointer is the memory it points to, at the time of the
  callback; NULL is \<open>None\<close>.
\<close>

record sse_parser_event =
  ev_event :: "bytes option"
  ev_id :: "bytes option"
  ev_data :: bytes
  ev_data_len :: nat

record 'u sse_parser_callbacks =
  pcb_on_event :: "('u \<Rightarrow> sse_parser_event \<Rightarrow> 'u option) option"
  pcb_on_id :: "('u \<Rightarrow> bytes \<times> nat \<Rightarrow> 'u option) option"
  pcb_on_retry :: "('u \<Rightarrow> u32 \<Rightarrow> 'u option) option"
  pcb_on_error :: "('u \<Rightarrow> sse_parse_error \<Rightarrow> 'u option) option"

text \<open>
  The caller's buffers: pointers, NULL being \<open>None\<close>, with the lengths the caller
  claims.
\<close>

record sse_parser_buffers =
  buf_data :: "bytes option"
  buf_data_len :: nat
  buf_id :: "bytes option"
  buf_id_len :: nat
  buf_event :: "bytes option"
  buf_event_len :: nat

record sse_parser =
  data_buf :: bytes
  data_buf_len :: nat
  id_buf :: bytes
  id_buf_len :: nat
  event_buf :: bytes
  event_buf_len :: nat
  p_state :: parser_state
  p_field :: parser_field
  swallow_lf :: bool
  bom_n :: nat
  p_name :: bytes
  name_len :: nat
  data_len :: nat
  data_lines :: nat
  block_discarded :: bool
  event_len :: nat
  has_event :: bool
  id_len :: nat
  has_id :: bool
  id_invalid :: bool
  retry_acc :: u32
  retry_seen_digit :: bool
  retry_invalid :: bool

type_synonym 'u pstep = "sse_parser \<times> 'u \<Rightarrow> (sse_parser \<times> 'u) option"

definition UINT32_MAX :: u32 where "UINT32_MAX = 0xFFFFFFFF"

definition LF :: u8 where "LF = 10"
definition CR :: u8 where "CR = 13"
definition COLON :: u8 where "COLON = 58"
definition SPACE :: u8 where "SPACE = 32"

section \<open>Dispatch, field values and their commit\<close>

definition emit_perr :: "'u sse_parser_callbacks \<Rightarrow> sse_parse_error \<Rightarrow> 'u pstep" where
  "emit_perr cb err = (\<lambda>(p, u). do { u \<leftarrow> opt_call (pcb_on_error cb) err u; Some (p, u) })"

text \<open>
  \<open>dispatch_block\<close> in its three parts: the id commits first, even for a
  discarded block; then the event is delivered; then the block state is cleared.
\<close>

definition dispatch_id :: "'u sse_parser_callbacks \<Rightarrow> 'u pstep" where
  "dispatch_id cb = (\<lambda>(p, u).
     if has_id p then do {
       m \<leftarrow> buf_write (id_buf p) (id_len p) 0;
       u \<leftarrow> opt_call (pcb_on_id cb) (m, id_len p) u;
       Some (p\<lparr>id_buf := m\<rparr>, u)
     } else Some (p, u))"

definition terminate_event :: "sse_parser \<Rightarrow> sse_parser option" where
  "terminate_event p =
     (if has_event p then do {
        m \<leftarrow> buf_write (event_buf p) (event_len p) 0;
        Some (p\<lparr>event_buf := m\<rparr>)
      } else Some p)"

definition dispatch_event :: "'u sse_parser_callbacks \<Rightarrow> 'u pstep" where
  "dispatch_event cb = (\<lambda>(p, u).
     if block_discarded p then Some (p, u)
     else if 0 < data_lines p then
       (case pcb_on_event cb of
          None \<Rightarrow> Some (p, u)
        | Some f \<Rightarrow>
            \<comment> \<open>\<open>size_t n = p->data_len - 1\<close> wraps for a zero length, and the write is then out of bounds\<close>
            if data_len p = 0 then None
            else do {
              let n = data_len p - 1;
              m \<leftarrow> buf_write (data_buf p) n 0;
              p \<leftarrow> terminate_event (p\<lparr>data_buf := m\<rparr>);
              u \<leftarrow> f u \<lparr>ev_event = (if has_event p then Some (event_buf p) else None),
                       ev_id = (if has_id p then Some (id_buf p) else None),
                       ev_data = m, ev_data_len = n\<rparr>;
              Some (p, u)
            })
     else Some (p, u))"

definition clear_block :: "sse_parser \<Rightarrow> sse_parser" where
  "clear_block p = p\<lparr>data_len := 0, data_lines := 0, block_discarded := False,
     event_len := 0, has_event := False, id_len := 0, has_id := False, id_invalid := False\<rparr>"

definition dispatch_block :: "'u sse_parser_callbacks \<Rightarrow> 'u pstep" where
  "dispatch_block cb s = do {
     s \<leftarrow> dispatch_id cb s;
     (p, u) \<leftarrow> dispatch_event cb s;
     Some (clear_block p, u)
   }"

definition start_value :: "sse_parser \<Rightarrow> sse_parser" where
  "start_value p = (case p_field p of
      F_EVENT \<Rightarrow> p\<lparr>event_len := 0\<rparr>
    | F_ID \<Rightarrow> p\<lparr>id_len := 0, id_invalid := False\<rparr>
    | F_RETRY \<Rightarrow> p\<lparr>retry_acc := 0, retry_seen_digit := False, retry_invalid := False\<rparr>
    | _ \<Rightarrow> p)"

definition discard_block :: "'u sse_parser_callbacks \<Rightarrow> sse_parse_error \<Rightarrow> 'u pstep" where
  "discard_block cb err = (\<lambda>(p, u).
     if \<not> block_discarded p then emit_perr cb err (p\<lparr>block_discarded := True\<rparr>, u)
     else Some (p, u))"

definition retry_digit :: "u32 \<Rightarrow> u8 \<Rightarrow> u32" where
  "retry_digit acc b =
     (let d = ucast (b - 48) in
      if acc > (UINT32_MAX - d) div 10 then UINT32_MAX else acc * 10 + d)"

definition value_byte :: "'u sse_parser_callbacks \<Rightarrow> u8 \<Rightarrow> 'u pstep" where
  "value_byte cb b = (\<lambda>(p, u). case p_field p of
      F_DATA \<Rightarrow>
        if block_discarded p then Some (p, u)
        else if data_len p = data_buf_len p then discard_block cb SSE_PARSE_ERR_DATA_TOO_LARGE (p, u)
        else do {
          m \<leftarrow> buf_write (data_buf p) (data_len p) b;
          Some (p\<lparr>data_buf := m, data_len := data_len p + 1\<rparr>, u)
        }
    | F_EVENT \<Rightarrow>
        if block_discarded p then Some (p, u)
        else if b = 0 then discard_block cb SSE_PARSE_ERR_EVENT_TYPE_INVALID (p, u)
        else if event_len p + 1 \<ge> event_buf_len p
          then discard_block cb SSE_PARSE_ERR_EVENT_TYPE_TOO_LARGE (p, u)
        else do {
          m \<leftarrow> buf_write (event_buf p) (event_len p) b;
          Some (p\<lparr>event_buf := m, event_len := event_len p + 1\<rparr>, u)
        }
    | F_ID \<Rightarrow>
        if id_invalid p then Some (p, u)
        else if b = 0 \<or> id_len p + 1 \<ge> id_buf_len p
          then emit_perr cb SSE_PARSE_ERR_ID_INVALID (p\<lparr>id_invalid := True\<rparr>, u)
        else do {
          m \<leftarrow> buf_write (id_buf p) (id_len p) b;
          Some (p\<lparr>id_buf := m, id_len := id_len p + 1\<rparr>, u)
        }
    | F_RETRY \<Rightarrow>
        if retry_invalid p then Some (p, u)
        else if b < 48 \<or> b > 57 then Some (p\<lparr>retry_invalid := True\<rparr>, u)
        else Some (p\<lparr>retry_seen_digit := True, retry_acc := retry_digit (retry_acc p) b\<rparr>, u)
    | F_NONE \<Rightarrow> Some (p, u))"

definition commit_value :: "'u sse_parser_callbacks \<Rightarrow> 'u pstep" where
  "commit_value cb = (\<lambda>(p, u). do {
     (p, u) \<leftarrow> (case p_field p of
        F_DATA \<Rightarrow>
          if \<not> block_discarded p then
            (if data_len p = data_buf_len p
             then discard_block cb SSE_PARSE_ERR_DATA_TOO_LARGE (p, u)
             else do {
               m \<leftarrow> buf_write (data_buf p) (data_len p) LF;
               Some (p\<lparr>data_buf := m, data_len := data_len p + 1,
                        data_lines := data_lines p + 1\<rparr>, u)
             })
          else Some (p, u)
      | F_EVENT \<Rightarrow> Some (p\<lparr>has_event := (event_len p > 0)\<rparr>, u)
      | F_ID \<Rightarrow>
          if id_invalid p then Some (p\<lparr>id_len := 0, has_id := False\<rparr>, u)
          else Some (p\<lparr>has_id := True\<rparr>, u)
      | F_RETRY \<Rightarrow>
          if retry_invalid p \<or> \<not> retry_seen_digit p
          then emit_perr cb SSE_PARSE_ERR_INVALID_RETRY (p, u)
          else do { u \<leftarrow> opt_call (pcb_on_retry cb) (retry_acc p) u; Some (p, u) }
      | F_NONE \<Rightarrow> Some (p, u));
     Some (p\<lparr>p_field := F_NONE\<rparr>, u)
   })"

section \<open>Field names and lines\<close>

definition field_of_name :: "bytes \<Rightarrow> parser_field" where
  "field_of_name nm =
     (if nm = bytes_of ''data'' then F_DATA
      else if nm = bytes_of ''event'' then F_EVENT
      else if nm = bytes_of ''id'' then F_ID
      else if nm = bytes_of ''retry'' then F_RETRY
      else F_NONE)"

definition resolve_field_name :: "'u sse_parser_callbacks \<Rightarrow> 'u pstep" where
  "resolve_field_name cb = (\<lambda>(p, u).
     let p = p\<lparr>p_field := field_of_name (take (name_len p) (p_name p))\<rparr> in
     if p_field p = F_NONE then do {
       (p, u) \<leftarrow> emit_perr cb SSE_PARSE_ERR_UNKNOWN_FIELD (p, u);
       Some (p\<lparr>p_state := PS_SKIP_LINE\<rparr>, u)
     }
     else Some ((start_value p)\<lparr>p_state := PS_AFTER_COLON\<rparr>, u))"

definition line_end :: "'u sse_parser_callbacks \<Rightarrow> 'u pstep" where
  "line_end cb = (\<lambda>(p, u). do {
     (p, u) \<leftarrow> (case p_state p of
        PS_LINE_START \<Rightarrow> dispatch_block cb (p, u)
      | PS_FIELD_NAME \<Rightarrow> do {
          (p, u) \<leftarrow> resolve_field_name cb (p, u);
          if p_state p = PS_AFTER_COLON then commit_value cb (p, u) else Some (p, u)
        }
      | PS_AFTER_COLON \<Rightarrow> commit_value cb (p, u)
      | PS_VALUE \<Rightarrow> commit_value cb (p, u)
      | _ \<Rightarrow> Some (p, u));
     Some (p\<lparr>p_state := PS_LINE_START\<rparr>, u)
   })"

section \<open>One byte\<close>

definition SSE_BOM :: bytes where "SSE_BOM = [0xEF, 0xBB, 0xBF]"

text \<open>
  The \<open>case PS_FIELD_NAME\<close> arm of the switch at the end of \<open>process_byte\<close>, into
  which \<open>PS_LINE_START\<close> falls through.
\<close>

definition name_byte :: "'u sse_parser_callbacks \<Rightarrow> u8 \<Rightarrow> 'u pstep" where
  "name_byte cb b = (\<lambda>(p, u).
     if b = COLON then resolve_field_name cb (p, u)
     else do {
       p \<leftarrow> (if name_len p < 8 then do {
               m \<leftarrow> buf_write (p_name p) (name_len p) b;
               Some (p\<lparr>p_name := m, name_len := name_len p + 1\<rparr>)
             } else Some p);
       if name_len p > 5 then do {
         (p, u) \<leftarrow> emit_perr cb SSE_PARSE_ERR_UNKNOWN_FIELD (p, u);
         Some (p\<lparr>p_state := PS_SKIP_LINE\<rparr>, u)
       } else Some (p, u)
     })"

text \<open>Everything in \<open>process_byte\<close> after the byte-order-mark section.\<close>

definition line_byte :: "'u sse_parser_callbacks \<Rightarrow> u8 \<Rightarrow> 'u pstep" where
  "line_byte cb b = (\<lambda>(p, u).
     if b = CR then do {
       (p, u) \<leftarrow> line_end cb (p, u);
       Some (p\<lparr>swallow_lf := True\<rparr>, u)
     }
     else if b = LF then line_end cb (p, u)
     else (case p_state p of
        PS_LINE_START \<Rightarrow>
          if b = COLON then Some (p\<lparr>p_state := PS_SKIP_LINE\<rparr>, u)
          else name_byte cb b (p\<lparr>p_state := PS_FIELD_NAME, name_len := 0\<rparr>, u)
      | PS_FIELD_NAME \<Rightarrow> name_byte cb b (p, u)
      | PS_AFTER_COLON \<Rightarrow>
          (let p = p\<lparr>p_state := PS_VALUE\<rparr> in
           if b = SPACE then Some (p, u) else value_byte cb b (p, u))
      | PS_VALUE \<Rightarrow> value_byte cb b (p, u)
      | _ \<Rightarrow> Some (p, u)))"

text \<open>
  \<open>process_byte\<close>. The source replays a rejected byte-order-mark prefix by calling
  itself; by then the state is \<open>PS_LINE_START\<close> and \<open>swallow_lf\<close> is clear, so the
  inner calls run \<open>line_byte\<close> only. \<open>Sse_Parser_Refine\<close> proves the
  source's own recursive equation.
\<close>

definition process_byte :: "'u sse_parser_callbacks \<Rightarrow> u8 \<Rightarrow> 'u pstep" where
  "process_byte cb b = (\<lambda>(p, u).
     if swallow_lf p \<and> b = LF then Some (p\<lparr>swallow_lf := False\<rparr>, u)
     else
       let p = p\<lparr>swallow_lf := False\<rparr> in
       if p_state p = PS_BOM then
         (if bom_n p < 3 \<and> buf_read SSE_BOM (bom_n p) = Some b then
            (let p = p\<lparr>bom_n := bom_n p + 1\<rparr> in
             Some (if bom_n p = 3 then p\<lparr>p_state := PS_LINE_START, bom_n := 0\<rparr> else p, u))
          else if bom_n p > 3 then None \<comment> \<open>\<open>SSE_BOM[i]\<close> would be read past its end\<close>
          else do {
            s \<leftarrow> foldM (line_byte cb) (take (bom_n p) SSE_BOM)
                   (p\<lparr>bom_n := 0, p_state := PS_LINE_START\<rparr>, u);
            line_byte cb b s
          })
       else line_byte cb b (p, u))"

section \<open>Public interface\<close>

definition sse_parser_init :: "sse_parser_buffers \<Rightarrow> sse_parser" where
  "sse_parser_init b =
     \<lparr>data_buf = (case buf_data b of None \<Rightarrow> [] | Some m \<Rightarrow> m), data_buf_len = buf_data_len b,
      id_buf = (case buf_id b of None \<Rightarrow> [] | Some m \<Rightarrow> m), id_buf_len = buf_id_len b,
      event_buf = (case buf_event b of None \<Rightarrow> [] | Some m \<Rightarrow> m), event_buf_len = buf_event_len b,
      p_state = PS_BOM, p_field = F_NONE, swallow_lf = False, bom_n = 0,
      p_name = replicate 8 0, name_len = 0, data_len = 0, data_lines = 0,
      block_discarded = False, event_len = 0, has_event = False, id_len = 0, has_id = False,
      id_invalid = False, retry_acc = 0, retry_seen_digit = False, retry_invalid = False\<rparr>"

text \<open>The loop over a chunk of \<open>len\<close> bytes, reading \<open>bytes[0]\<close> to \<open>bytes[len - 1]\<close>.\<close>

definition sse_parser_feed :: "'u sse_parser_callbacks \<Rightarrow> bytes \<Rightarrow> nat \<Rightarrow> 'u pstep" where
  "sse_parser_feed cb chunk len s =
     (if len \<le> length chunk then foldM (process_byte cb) (take len chunk) s else None)"

definition parser_buffers :: "sse_parser \<Rightarrow> sse_parser_buffers" where
  "parser_buffers p =
     \<lparr>buf_data = Some (data_buf p), buf_data_len = data_buf_len p,
      buf_id = Some (id_buf p), buf_id_len = id_buf_len p,
      buf_event = Some (event_buf p), buf_event_len = event_buf_len p\<rparr>"

definition sse_parser_reset :: "sse_parser \<Rightarrow> sse_parser" where
  "sse_parser_reset p = sse_parser_init (parser_buffers p)"

end
