(* ===== verification/Sse_Client.thy ===== *)
theory Sse_Client
  imports Sse_Parser
begin

text \<open>
  The client of \<open>src/sse_client.c\<close>: configuration, connection state machine,
  reconnect delays and the bridge from parser callbacks to user callbacks.

  Everything the client does not define is a parameter: the transport's three
  functions, the clock and the user's callbacks, over a world of any type \<open>'w\<close>.
  A user callback may call back into the client; it is a \<open>script\<close> of such calls.
  A NULL function pointer is \<open>None\<close>, and calling one, like any access outside an
  array, makes the whole operation \<open>None\<close>.

  The system state pairs the client struct with the world, and with a history
  variable \<open>trace\<close> that records the calls the client makes to the transport and
  to the user. The code has no such variable and nothing in the model reads it;
  it exists to state properties about the order of calls.
\<close>

section \<open>Types\<close>

datatype sse_client_state_t =
  SSE_STATE_IDLE | SSE_STATE_CONNECTING | SSE_STATE_OPEN | SSE_STATE_WAITING_RETRY | SSE_STATE_CLOSED

datatype sse_error_reason =
  SSE_ERR_TRANSPORT | SSE_ERR_HTTP_STATUS | SSE_ERR_BAD_CONTENT_TYPE | SSE_ERR_SERVER_STOP |
  SSE_ERR_IDLE_TIMEOUT | SSE_ERR_MESSAGE_TOO_LARGE | SSE_ERR_EVENT_TYPE_INVALID

record sse_message =
  msg_event :: bytes
  msg_data :: bytes
  msg_data_len :: nat
  msg_last_event_id :: bytes

record sse_error =
  err_reason :: sse_error_reason
  err_http_status :: i32
  err_will_retry :: bool
  err_retry_in_ms :: u32

text \<open>The transport interface of \<open>sse_transport.h\<close>.\<close>

record sse_request =
  req_url :: bytes
  req_headers :: "bytes option list"  \<comment> \<open>the array handed over, up to and past its NULL\<close>

record sse_response_info =
  status_code :: i32
  content_type :: bytes
  retry_after_s :: i32

definition SSE_READ_TIMEOUT :: i32 where "SSE_READ_TIMEOUT = 0"
definition SSE_READ_EOF :: i32 where "SSE_READ_EOF = -1"
definition SSE_READ_ERROR :: i32 where "SSE_READ_ERROR = -2"

text \<open>
  \<open>open\<close> returns a code and fills the response; \<open>read\<close> gets the memory of the
  receive buffer and its length and returns a code and the memory afterwards.
  \<open>read\<close> blocks, so it also tells whether another task has called
  \<open>sse_client_request_stop\<close> meanwhile.
\<close>

record 'w sse_transport =
  tr_open :: "('w \<Rightarrow> sse_request \<Rightarrow> sse_response_info \<Rightarrow> (i32 \<times> sse_response_info \<times> 'w) option) option"
  tr_read :: "('w \<Rightarrow> bytes \<Rightarrow> nat \<Rightarrow> u32 \<Rightarrow> (i32 \<times> bytes \<times> bool \<times> 'w) option) option"
  tr_close :: "('w \<Rightarrow> 'w option) option"

text \<open>
  A running user callback: it returns, or it calls one of the functions a callback
  may call and goes on with what it can observe of the client.
\<close>

datatype api_call = CallClose | CallRequestStop | CallQuery

record client_view =
  view_state :: sse_client_state_t
  view_last_event_id :: bytes

datatype (dead 'w, dead 'r) script =
  Return 'r 'w | Invoke api_call 'w "client_view \<Rightarrow> 'w \<Rightarrow> ('w, 'r) script"

record 'w sse_client_callbacks =
  on_open :: "('w \<Rightarrow> u32 \<Rightarrow> ('w, unit) script) option"
  on_message :: "('w \<Rightarrow> sse_message \<Rightarrow> ('w, unit) script) option"
  on_error :: "('w \<Rightarrow> sse_error \<Rightarrow> ('w, unit) script) option"
  on_closed :: "('w \<Rightarrow> unit \<Rightarrow> ('w, unit) script) option"

record 'w sse_client_config =
  url :: "bytes option"
  extra_headers :: "bytes list option"  \<comment> \<open>the strings before the terminating NULL\<close>
  default_retry_ms :: u32
  max_retry_ms :: u32
  jitter_pct :: u8
  idle_timeout_ms :: u32
  read_timeout_ms :: u32
  skip_content_type_check :: bool
  buffers :: sse_parser_buffers
  rx_buf :: "bytes option"
  rx_buf_len :: nat
  transport :: "'w sse_transport option"
  now_ms :: "('w \<Rightarrow> u32 \<times> 'w) option"
  callbacks :: "'w sse_client_callbacks"
  reconnect_policy :: "('w \<Rightarrow> sse_error \<Rightarrow> ('w, bool) script) option"

definition SSE_CLIENT_ID_MAX :: nat where "SSE_CLIENT_ID_MAX = 128"
definition SSE_CLIENT_MAX_HEADERS :: nat where "SSE_CLIENT_MAX_HEADERS = 16"

record 'w sse_client =
  cfg :: "'w sse_client_config"
  parser :: sse_parser
  state :: sse_client_state_t
  stop_requested :: bool
  transport_open :: bool
  attempts :: u32
  extra_header_count :: nat
  base_retry_ms :: u32
  retry_deadline :: u32
  last_rx_ms :: u32
  prng :: u32
  last_event_id :: bytes
  last_event_id_len :: nat
  id_header :: bytes
  headers :: "bytes option list"

section \<open>The system: client, world and history\<close>

datatype obs =
  TOpen sse_request bool      \<comment> \<open>\<open>open\<close> was called; whether it returned 0\<close>
| TRead i32 bytes             \<comment> \<open>\<open>read\<close> returned this code, delivering these bytes\<close>
| TClose
| CbOpen u32
| CbMessage sse_message
| CbError sse_error
| CbPolicy sse_error
| CbClosed

record 'w sys =
  cl :: "'w sse_client"
  env :: 'w
  trace :: "obs list"

type_synonym 'w cstep = "'w sys \<Rightarrow> 'w sys option"

definition upd :: "('w sse_client \<Rightarrow> 'w sse_client) \<Rightarrow> 'w sys \<Rightarrow> 'w sys" where
  "upd f s = s\<lparr>cl := f (cl s)\<rparr>"

definition note_obs :: "obs \<Rightarrow> 'w sys \<Rightarrow> 'w sys" where
  "note_obs x s = s\<lparr>trace := trace s @ [x]\<rparr>"

definition set_state :: "sse_client_state_t \<Rightarrow> 'w sys \<Rightarrow> 'w sys" where
  "set_state st = upd (\<lambda>c. c\<lparr>state := st\<rparr>)"

text \<open>\<open>c->cfg.now_ms()\<close>\<close>

definition read_clock :: "'w sys \<Rightarrow> (u32 \<times> 'w sys) option" where
  "read_clock s = do {
     f \<leftarrow> now_ms (cfg (cl s));
     let (t, w) = f (env s);
     Some (t, s\<lparr>env := w\<rparr>)
   }"

section \<open>Closing\<close>

definition close_transport :: "'w cstep" where
  "close_transport s =
     (if transport_open (cl s) then do {
        t \<leftarrow> transport (cfg (cl s));
        f \<leftarrow> tr_close t;
        w \<leftarrow> f (env s);
        Some (upd (\<lambda>c. c\<lparr>transport_open := False\<rparr>) (note_obs TClose (s\<lparr>env := w\<rparr>)))
      } else Some s)"

definition view_of :: "'w sys \<Rightarrow> client_view" where
  "view_of s = \<lparr>view_state = state (cl s), view_last_event_id = last_event_id (cl s)\<rparr>"

definition sse_client_request_stop :: "'w sys \<Rightarrow> 'w sys" where
  "sse_client_request_stop = upd (\<lambda>c. c\<lparr>stop_requested := True\<rparr>)"

text \<open>Running a callback, with \<open>close\<close> for \<open>sse_client_close\<close>.\<close>

primrec run_script :: "'w cstep \<Rightarrow> ('w, 'r) script \<Rightarrow> 'w sys \<Rightarrow> ('r \<times> 'w sys) option" where
  "run_script close (Return r w) s = Some (r, s\<lparr>env := w\<rparr>)"
| "run_script close (Invoke a w k) s = do {
     s' \<leftarrow> (case a of
              CallClose \<Rightarrow> close (s\<lparr>env := w\<rparr>)
            | CallRequestStop \<Rightarrow> Some (sse_client_request_stop (s\<lparr>env := w\<rparr>))
            | CallQuery \<Rightarrow> Some (s\<lparr>env := w\<rparr>));
     run_script close (k (view_of s') (env s')) s'
   }"

definition call_user ::
  "'w cstep \<Rightarrow> ('w \<Rightarrow> 'a \<Rightarrow> ('w, unit) script) option \<Rightarrow> 'a \<Rightarrow> obs \<Rightarrow> 'w cstep" where
  "call_user close f x ob s = (case f of
      None \<Rightarrow> Some s
    | Some g \<Rightarrow> do {
        (_, s) \<leftarrow> run_script close (g (env s) x) (note_obs ob s);
        Some s
      })"

text \<open>
  \<open>to_closed\<close> calls \<open>on_closed\<close>, which may call \<open>sse_client_close\<close>, that is
  \<open>to_closed\<close> again. The state is already CLOSED then, so the inner call stops
  after \<open>close_transport\<close>. \<open>to_closed_recursive\<close> in \<open>Sse_Client_Safety\<close> proves the
  source's equation, with \<open>to_closed\<close> as the function the callback calls.
\<close>

definition to_closed :: "'w cstep" where
  "to_closed s = do {
     s \<leftarrow> close_transport s;
     if state (cl s) = SSE_STATE_CLOSED then Some s
     else (let s = set_state SSE_STATE_CLOSED s in
           call_user close_transport (on_closed (callbacks (cfg (cl s)))) () CbClosed s)
   }"

definition sse_client_close :: "'w cstep" where
  "sse_client_close = to_closed"

section \<open>Parser callback bridge\<close>

definition bridge_on_id :: "'w sys \<Rightarrow> bytes \<times> nat \<Rightarrow> 'w sys option" where
  "bridge_on_id s = (\<lambda>(ident, len).
     if state (cl s) \<noteq> SSE_STATE_OPEN then Some s
     else if len \<le> SSE_CLIENT_ID_MAX then do {
       m \<leftarrow> memcpy (last_event_id (cl s)) ident (len + 1);
       Some (upd (\<lambda>c. c\<lparr>last_event_id := m, last_event_id_len := len\<rparr>) s)
     }
     else Some s)"

definition bridge_on_retry :: "'w sys \<Rightarrow> u32 \<Rightarrow> 'w sys option" where
  "bridge_on_retry s ms =
     (if state (cl s) \<noteq> SSE_STATE_OPEN then Some s
      else Some (upd (\<lambda>c. c\<lparr>base_retry_ms := ms\<rparr>) s))"

definition message_of :: "'w sys \<Rightarrow> sse_parser_event \<Rightarrow> sse_message" where
  "message_of s ev =
     \<lparr>msg_event = (case ev_event ev of Some m \<Rightarrow> m | None \<Rightarrow> bytes_of ''message'' @ [0]),
      msg_data = ev_data ev, msg_data_len = ev_data_len ev,
      msg_last_event_id = last_event_id (cl s)\<rparr>"

definition bridge_on_event :: "'w sys \<Rightarrow> sse_parser_event \<Rightarrow> 'w sys option" where
  "bridge_on_event s ev =
     (if state (cl s) \<noteq> SSE_STATE_OPEN then Some s
      else (let s = upd (\<lambda>c. c\<lparr>attempts := 0\<rparr>) s; m = message_of s ev in
            call_user to_closed (on_message (callbacks (cfg (cl s)))) m (CbMessage m) s))"

definition perr_reason :: "sse_parse_error \<Rightarrow> sse_error_reason option" where
  "perr_reason err =
     (if err = SSE_PARSE_ERR_DATA_TOO_LARGE then Some SSE_ERR_MESSAGE_TOO_LARGE
      else if err = SSE_PARSE_ERR_EVENT_TYPE_TOO_LARGE \<or> err = SSE_PARSE_ERR_EVENT_TYPE_INVALID
      then Some SSE_ERR_EVENT_TYPE_INVALID
      else None)"

definition bridge_on_perr :: "'w sys \<Rightarrow> sse_parse_error \<Rightarrow> 'w sys option" where
  "bridge_on_perr s err =
     (if state (cl s) \<noteq> SSE_STATE_OPEN then Some s
      else (case perr_reason err of
              None \<Rightarrow> Some s
            | Some reason \<Rightarrow>
                (let e = \<lparr>err_reason = reason, err_http_status = 0, err_will_retry = True, err_retry_in_ms = 0\<rparr> in
                 call_user to_closed (on_error (callbacks (cfg (cl s)))) e (CbError e) s)))"

definition bridge :: "'w sys sse_parser_callbacks" where
  "bridge = \<lparr>pcb_on_event = Some bridge_on_event, pcb_on_id = Some bridge_on_id,
     pcb_on_retry = Some bridge_on_retry, pcb_on_error = Some bridge_on_perr\<rparr>"

text \<open>
  \<open>sse_parser_feed(&c->parser, chunk, len)\<close>: the parser is a field of the client,
  and the bridge does not touch it.
\<close>

definition client_feed :: "bytes \<Rightarrow> nat \<Rightarrow> 'w cstep" where
  "client_feed chunk len s = do {
     (p, s) \<leftarrow> sse_parser_feed bridge chunk len (parser (cl s), s);
     Some (upd (\<lambda>c. c\<lparr>parser := p\<rparr>) s)
   }"

section \<open>Helpers\<close>

definition xorshift :: "u32 \<Rightarrow> u32" where
  "xorshift x0 =
     (let x1 = x0 XOR push_bit 13 x0;
          x2 = x1 XOR drop_bit 17 x1
      in x2 XOR push_bit 5 x2)"

definition prng_next :: "u32 \<Rightarrow> u32" where
  "prng_next x0 = (let x = xorshift x0 in if x \<noteq> 0 then x else 0x9e3779b9)"

definition lower :: "u8 \<Rightarrow> u8" where
  "lower a = (if 65 \<le> a \<and> a \<le> 90 then a + 32 else a)"

text \<open>The loop over \<open>want\<close> and \<open>ct\<close>, and the test of the byte after it.\<close>

fun ct_match :: "bytes \<Rightarrow> bytes \<Rightarrow> bool option" where
  "ct_match _ [] = None"
| "ct_match [] (c # _) = Some (c = 0 \<or> c = 59 \<or> c = 32)"
| "ct_match (w # ws) (c # cs) = (if lower c \<noteq> w then Some False else ct_match ws cs)"

definition ct_is_event_stream :: "bytes \<Rightarrow> bool option" where
  "ct_is_event_stream ct = ct_match (bytes_of ''text/event-stream'') ct"

definition put_header :: "bytes \<Rightarrow> nat \<times> bytes option list \<Rightarrow> (nat \<times> bytes option list) option" where
  "put_header h = (\<lambda>(n, hs). do { hs \<leftarrow> buf_write hs n (Some h); Some (n + 1, hs) })"

definition put_id_header :: "'w sse_client \<Rightarrow> nat \<times> bytes option list \<Rightarrow> ('w sse_client \<times> nat \<times> bytes option list) option" where
  "put_id_header c x =
     (if last_event_id_len c > 0 then do {
        i \<leftarrow> c_str (last_event_id c);
        m \<leftarrow> snprintf_to (id_header c) (SSE_CLIENT_ID_MAX + 32) (bytes_of ''Last-Event-ID: '' @ i);
        h \<leftarrow> c_str m;
        x \<leftarrow> put_header h x;
        Some (c\<lparr>id_header := m\<rparr>, x)
      } else Some (c, x))"

text \<open>The user's headers, bounded by the count validated at init.\<close>

definition put_extra_headers :: "'w sse_client \<Rightarrow> nat \<times> bytes option list \<Rightarrow> (nat \<times> bytes option list) option" where
  "put_extra_headers c x = (case extra_headers (cfg c) of
      None \<Rightarrow> Some x
    | Some xs \<Rightarrow> foldM put_header (take (extra_header_count c) xs) x)"

definition build_headers :: "'w sse_client \<Rightarrow> 'w sse_client option" where
  "build_headers c = do {
     x \<leftarrow> put_header (bytes_of ''Accept: text/event-stream'') (0, headers c);
     x \<leftarrow> put_header (bytes_of ''Cache-Control: no-store'') x;
     (c, x) \<leftarrow> put_id_header c x;
     x \<leftarrow> put_extra_headers c x;
     hs \<leftarrow> buf_write (snd x) (fst x) None;
     Some (c\<lparr>headers := hs\<rparr>)
   }"

definition default_should_retry :: "sse_error_reason \<Rightarrow> i32 \<Rightarrow> i32 \<Rightarrow> bool" where
  "default_should_retry reason status retry_after = (case reason of
      SSE_ERR_TRANSPORT \<Rightarrow> True
    | SSE_ERR_IDLE_TIMEOUT \<Rightarrow> True
    | SSE_ERR_BAD_CONTENT_TYPE \<Rightarrow> True
    | SSE_ERR_SERVER_STOP \<Rightarrow> False
    | SSE_ERR_HTTP_STATUS \<Rightarrow>
        if sint status \<ge> 500 then True
        else if sint status = 429 then True
        else sint retry_after \<ge> 0
    | _ \<Rightarrow> False)"

section \<open>Retry delay\<close>

definition INT32_MAX :: u32 where "INT32_MAX = 0x7FFFFFFF"

definition base_delay :: "'w sse_client \<Rightarrow> i32 \<Rightarrow> u64" where
  "base_delay c retry_after =
     (if sint retry_after \<ge> 0 then scast retry_after * 1000
      else if max_retry_ms (cfg c) = 0 then ucast (base_retry_ms c)
      else
        (let sh = (if attempts c > 15 then 15 else unat (attempts c));
             d = push_bit sh (ucast (base_retry_ms c))
         in if d > ucast (max_retry_ms (cfg c)) then ucast (max_retry_ms (cfg c)) else d))"

definition add_jitter :: "u8 \<Rightarrow> u32 \<Rightarrow> u64 \<Rightarrow> u64" where
  "add_jitter pct x d = d + (d * ucast (x mod (ucast pct + 1))) div 100"

definition clamp_delay :: "u64 \<Rightarrow> u32" where
  "clamp_delay d = (if d > ucast INT32_MAX then INT32_MAX else ucast d)"

text \<open>The delay of a retry, with the generator's state after it.\<close>

definition retry_delay :: "'w sse_client \<Rightarrow> i32 \<Rightarrow> u32 \<times> u32" where
  "retry_delay c retry_after =
     (let d = base_delay c retry_after in
      if jitter_pct (cfg c) \<noteq> 0 then
        (let x = prng_next (prng c) in (clamp_delay (add_jitter (jitter_pct (cfg c)) x d), x))
      else (clamp_delay d, prng c))"

section \<open>Failed connections\<close>

definition schedule_retry :: "sse_error_reason \<Rightarrow> i32 \<Rightarrow> i32 \<Rightarrow> 'w cstep" where
  "schedule_retry reason status retry_after s = do {
     let (delay, x) = retry_delay (cl s) retry_after;
     let s = upd (\<lambda>c. c\<lparr>prng := x, attempts := attempts c + 1\<rparr>) s;
     (t, s) \<leftarrow> read_clock s;
     let s = upd (\<lambda>c. c\<lparr>retry_deadline := t + delay, state := SSE_STATE_WAITING_RETRY\<rparr>) s;
     let e = \<lparr>err_reason = reason, err_http_status = status, err_will_retry = True, err_retry_in_ms = delay\<rparr>;
     call_user to_closed (on_error (callbacks (cfg (cl s)))) e (CbError e) s
   }"

definition give_up :: "sse_error_reason \<Rightarrow> i32 \<Rightarrow> 'w cstep" where
  "give_up reason status s = do {
     let e = \<lparr>err_reason = reason, err_http_status = status, err_will_retry = False, err_retry_in_ms = 0\<rparr>;
     s \<leftarrow> call_user to_closed (on_error (callbacks (cfg (cl s)))) e (CbError e) s;
     to_closed s
   }"

text \<open>The decision: the policy hook sees the default and has the last word.\<close>

definition decide_retry :: "sse_error_reason \<Rightarrow> i32 \<Rightarrow> i32 \<Rightarrow> 'w sys \<Rightarrow> (bool \<times> 'w sys) option" where
  "decide_retry reason status retry_after s =
     (let retry = default_should_retry reason status retry_after in
      case reconnect_policy (cfg (cl s)) of
        None \<Rightarrow> Some (retry, s)
      | Some f \<Rightarrow>
          (let e = \<lparr>err_reason = reason, err_http_status = status, err_will_retry = retry, err_retry_in_ms = 0\<rparr> in
           run_script to_closed (f (env s) e) (note_obs (CbPolicy e) s)))"

definition fail_conn :: "sse_error_reason \<Rightarrow> i32 \<Rightarrow> i32 \<Rightarrow> 'w cstep" where
  "fail_conn reason status retry_after s = do {
     s \<leftarrow> close_transport s;
     (retry, s) \<leftarrow> decide_retry reason status retry_after s;
     if reconnect_policy (cfg (cl s)) \<noteq> None \<and> state (cl s) = SSE_STATE_CLOSED then Some s
     else if \<not> retry then give_up reason status s
     else schedule_retry reason status retry_after s
   }"

section \<open>Connecting\<close>

definition enter_open :: "'w cstep" where
  "enter_open s = do {
     let s = upd (\<lambda>c. c\<lparr>parser := sse_parser_reset (parser c)\<rparr>) s;
     (t, s) \<leftarrow> read_clock s;
     let s = upd (\<lambda>c. c\<lparr>last_rx_ms := t, state := SSE_STATE_OPEN\<rparr>) s;
     call_user to_closed (on_open (callbacks (cfg (cl s)))) (attempts (cl s)) (CbOpen (attempts (cl s))) s
   }"

definition check_response :: "sse_response_info \<Rightarrow> 'w cstep" where
  "check_response info s =
     (if status_code info = 204 then fail_conn SSE_ERR_SERVER_STOP 204 (-1) s
      else if status_code info \<noteq> 200 then
        fail_conn SSE_ERR_HTTP_STATUS (status_code info) (retry_after_s info) s
      else do {
        ok \<leftarrow> (if skip_content_type_check (cfg (cl s)) then Some True
               else ct_is_event_stream (content_type info));
        if \<not> ok then fail_conn SSE_ERR_BAD_CONTENT_TYPE (status_code info) (-1) s
        else enter_open s
      })"

definition fresh_info :: sse_response_info where
  "fresh_info = \<lparr>status_code = 0, content_type = replicate 64 0, retry_after_s = -1\<rparr>"

definition do_connect :: "'w cstep" where
  "do_connect s = do {
     let s = set_state SSE_STATE_CONNECTING s;
     c \<leftarrow> build_headers (cl s);
     let s = s\<lparr>cl := c\<rparr>;
     u \<leftarrow> url (cfg c);
     let req = \<lparr>req_url = u, req_headers = headers c\<rparr>;
     t \<leftarrow> transport (cfg c);
     f \<leftarrow> tr_open t;
     (r, info, w) \<leftarrow> f (env s) req fresh_info;
     let s = note_obs (TOpen req (r = 0)) (s\<lparr>env := w\<rparr>);
     if r \<noteq> 0 then fail_conn SSE_ERR_TRANSPORT 0 (-1) s
     else check_response info (upd (\<lambda>c. c\<lparr>transport_open := True\<rparr>) s)
   }"

section \<open>Public interface\<close>

definition client_config_valid :: "'w sse_client_config \<Rightarrow> bool" where
  "client_config_valid g \<longleftrightarrow>
     url g \<noteq> None \<and> now_ms g \<noteq> None \<and>
     (case transport g of
        None \<Rightarrow> False
      | Some t \<Rightarrow> tr_open t \<noteq> None \<and> tr_read t \<noteq> None \<and> tr_close t \<noteq> None) \<and>
     buf_data (buffers g) \<noteq> None \<and> 2 \<le> buf_data_len (buffers g) \<and>
     buf_id (buffers g) \<noteq> None \<and> 2 \<le> buf_id_len (buffers g) \<and>
     buf_id_len (buffers g) \<le> SSE_CLIENT_ID_MAX + 1 \<and>
     buf_event (buffers g) \<noteq> None \<and> 2 \<le> buf_event_len (buffers g) \<and>
     rx_buf g \<noteq> None \<and> rx_buf_len g \<noteq> 0 \<and>
     3 + (case extra_headers g of None \<Rightarrow> 0 | Some xs \<Rightarrow> length xs) \<le> SSE_CLIENT_MAX_HEADERS"

text \<open>The configuration as copied, with the two defaults filled in.\<close>

definition with_defaults :: "'w sse_client_config \<Rightarrow> 'w sse_client_config" where
  "with_defaults g =
     g\<lparr>default_retry_ms := (if default_retry_ms g = 0 then 3000 else default_retry_ms g),
       read_timeout_ms := (if read_timeout_ms g = 0 then 500 else read_timeout_ms g)\<rparr>"

definition init_client :: "'w sse_client_config \<Rightarrow> u32 \<Rightarrow> 'w sse_client" where
  "init_client g now =
     (let x = now XOR 0xA5A5A5A5
      in \<lparr>cfg = with_defaults g, parser = sse_parser_init (buffers (with_defaults g)),
          state = SSE_STATE_IDLE, stop_requested = False, transport_open = False, attempts = 0,
          extra_header_count = (case extra_headers g of None \<Rightarrow> 0 | Some xs \<Rightarrow> length xs),
          base_retry_ms = default_retry_ms (with_defaults g), retry_deadline = 0, last_rx_ms = 0,
          prng = (if x = 0 then 1 else x),
          last_event_id = replicate (SSE_CLIENT_ID_MAX + 1) 0, last_event_id_len = 0,
          id_header = replicate (SSE_CLIENT_ID_MAX + 32) 0,
          headers = replicate (SSE_CLIENT_MAX_HEADERS + 1) None\<rparr>)"

text \<open>
  The client pointer and the configuration pointer may be NULL. On failure the
  client memory is left as it was.
\<close>

definition sse_client_init ::
  "'w sse_client option \<Rightarrow> 'w sse_client_config option \<Rightarrow> 'w \<Rightarrow> (i32 \<times> 'w sse_client option \<times> 'w) option" where
  "sse_client_init c g w = (case (c, g) of
      (Some _, Some g) \<Rightarrow>
        if client_config_valid g then do {
          f \<leftarrow> now_ms g;
          let (t, w) = f w;
          Some (0, Some (init_client g t), w)
        } else Some (-1, c, w)
    | _ \<Rightarrow> Some (-1, c, w))"

text \<open>What every branch of a poll returns: \<open>UINT32_MAX\<close> once the client is closed.\<close>

definition hint :: "u32 \<Rightarrow> 'w sys \<Rightarrow> u32 \<times> 'w sys" where
  "hint n s = (if state (cl s) = SSE_STATE_CLOSED then UINT32_MAX else n, s)"

definition poll_connect :: "'w sys \<Rightarrow> (u32 \<times> 'w sys) option" where
  "poll_connect s = do { s \<leftarrow> do_connect s; Some (hint 0 s) }"

definition poll_waiting :: "'w sys \<Rightarrow> (u32 \<times> 'w sys) option" where
  "poll_waiting s = do {
     (t, s) \<leftarrow> read_clock s;
     let remain = retry_deadline (cl s) - t;
     if sint remain \<le> 0 then Some (0, set_state SSE_STATE_CONNECTING s)
     else Some (remain, s)
   }"

text \<open>What \<open>poll\<close> does with the result of a read.\<close>

definition poll_received :: "i32 \<Rightarrow> 'w sys \<Rightarrow> (u32 \<times> 'w sys) option" where
  "poll_received r s =
     (if sint r > 0 then
        (if unat r > rx_buf_len (cfg (cl s)) then do {
           s \<leftarrow> fail_conn SSE_ERR_TRANSPORT 0 (-1) s;
           Some (hint 0 s)
         }
         else do {
           (t, s) \<leftarrow> read_clock s;
           let s = upd (\<lambda>c. c\<lparr>last_rx_ms := t\<rparr>) s;
           m \<leftarrow> rx_buf (cfg (cl s));
           s \<leftarrow> client_feed m (unat r) s;
           Some (hint 0 s)
         })
      else if r = SSE_READ_TIMEOUT then
        (if idle_timeout_ms (cfg (cl s)) = 0 then Some (read_timeout_ms (cfg (cl s)), s)
         else do {
           (t, s) \<leftarrow> read_clock s;
           if t - last_rx_ms (cl s) \<ge> idle_timeout_ms (cfg (cl s)) then do {
             s \<leftarrow> fail_conn SSE_ERR_IDLE_TIMEOUT 0 (-1) s;
             Some (hint (read_timeout_ms (cfg (cl s))) s)
           }
           else Some (read_timeout_ms (cfg (cl s)), s)
         })
      else do {
        s \<leftarrow> fail_conn SSE_ERR_TRANSPORT 0 (-1) s;
        Some (hint 0 s)
      })"

text \<open>The bytes a read has delivered, for the history; none if the count is out of range.\<close>

definition rx_bytes :: "nat \<Rightarrow> i32 \<Rightarrow> bytes \<Rightarrow> bytes" where
  "rx_bytes len r m = (if 0 < sint r \<and> unat r \<le> len then take (unat r) m else [])"

definition poll_open :: "'w sys \<Rightarrow> (u32 \<times> 'w sys) option" where
  "poll_open s = do {
     t \<leftarrow> transport (cfg (cl s));
     f \<leftarrow> tr_read t;
     m \<leftarrow> rx_buf (cfg (cl s));
     (r, m', stopped, w) \<leftarrow> f (env s) m (rx_buf_len (cfg (cl s))) (read_timeout_ms (cfg (cl s)));
     let s = note_obs (TRead r (rx_bytes (rx_buf_len (cfg (cl s))) r m')) (s\<lparr>env := w\<rparr>);
     let s = upd (\<lambda>c. c\<lparr>cfg := (cfg c)\<lparr>rx_buf := Some m'\<rparr>,
                        stop_requested := (stop_requested c \<or> stopped)\<rparr>) s;
     if stop_requested (cl s) then do { s \<leftarrow> to_closed s; Some (UINT32_MAX, s) }
     else poll_received r s
   }"

definition sse_client_poll :: "'w sys \<Rightarrow> (u32 \<times> 'w sys) option" where
  "sse_client_poll s = do {
     s \<leftarrow> (if stop_requested (cl s) \<and> state (cl s) \<noteq> SSE_STATE_CLOSED then to_closed s else Some s);
     (case state (cl s) of
        SSE_STATE_CLOSED \<Rightarrow> Some (UINT32_MAX, s)
      | SSE_STATE_IDLE \<Rightarrow> poll_connect s
      | SSE_STATE_CONNECTING \<Rightarrow> poll_connect s
      | SSE_STATE_WAITING_RETRY \<Rightarrow> poll_waiting s
      | SSE_STATE_OPEN \<Rightarrow> poll_open s)
   }"

definition sse_client_state :: "'w sys \<Rightarrow> sse_client_state_t" where
  "sse_client_state s = state (cl s)"

definition sse_client_last_event_id :: "'w sys \<Rightarrow> bytes" where
  "sse_client_last_event_id s = last_event_id (cl s)"

end
