(* ===== verification/Sse_Parser_Safety.thy ===== *)
theory Sse_Parser_Safety
  imports Sse_Parser
begin

text \<open>
  The parser's well-formedness invariant, and that every operation keeps it and
  stays inside the caller's buffers, for any callbacks that honour the contract
  stated as the locale \<open>parser_callbacks\<close>.
\<close>

section \<open>The invariant\<close>

text \<open>Bytes that can stand inside an id or an event type.\<close>

definition text_bytes :: "bytes \<Rightarrow> bool" where
  "text_bytes bs \<longleftrightarrow> 0 \<notin> set bs \<and> CR \<notin> set bs \<and> LF \<notin> set bs"

lemma text_bytes_simps [simp]:
  "text_bytes []"
  "text_bytes (xs @ ys) \<longleftrightarrow> text_bytes xs \<and> text_bytes ys"
  "text_bytes (b # xs) \<longleftrightarrow> b \<noteq> 0 \<and> b \<noteq> CR \<and> b \<noteq> LF \<and> text_bytes xs"
  by (auto simp: text_bytes_def)

text \<open>The claimed lengths lie inside the memory behind the pointers.\<close>

definition mem_inv :: "sse_parser \<Rightarrow> bool" where
  "mem_inv p \<longleftrightarrow> data_buf_len p \<le> length (data_buf p) \<and> id_buf_len p \<le> length (id_buf p) \<and>
     event_buf_len p \<le> length (event_buf p) \<and> 1 \<le> id_buf_len p \<and> length (p_name p) = 8"

text \<open>The fill counters stay within the claimed lengths, and leave room for the NUL.\<close>

definition block_inv :: "sse_parser \<Rightarrow> bool" where
  "block_inv p \<longleftrightarrow> data_len p \<le> data_buf_len p \<and> data_lines p \<le> data_len p \<and>
     id_len p < id_buf_len p \<and> event_len p \<le> event_buf_len p - 1 \<and>
     (has_event p \<longrightarrow> 2 \<le> event_buf_len p \<and> (p_field p = F_EVENT \<or> 0 < event_len p)) \<and>
     text_bytes (take (id_len p) (id_buf p)) \<and> text_bytes (take (event_len p) (event_buf p))"

text \<open>Control state: a field is selected exactly while its value is being read.\<close>

definition ctl_inv :: "sse_parser \<Rightarrow> bool" where
  "ctl_inv p \<longleftrightarrow> (p_field p \<noteq> F_NONE \<longleftrightarrow> p_state p = PS_AFTER_COLON \<or> p_state p = PS_VALUE) \<and>
     name_len p \<le> 6 \<and> (p_state p = PS_FIELD_NAME \<longrightarrow> name_len p \<le> 5) \<and> bom_n p < 3 \<and>
     (p_state p = PS_BOM \<longrightarrow> \<not> swallow_lf p)"

definition parser_inv :: "sse_parser \<Rightarrow> bool" where
  "parser_inv p \<longleftrightarrow> mem_inv p \<and> block_inv p \<and> ctl_inv p"

definition caps :: "sse_parser \<Rightarrow> nat \<times> nat \<times> nat" where
  "caps p = (data_buf_len p, id_buf_len p, event_buf_len p)"

lemmas inv_defs = parser_inv_def mem_inv_def block_inv_def ctl_inv_def caps_def

lemma set_discarded_id: "block_discarded p \<Longrightarrow> p\<lparr>block_discarded := True\<rparr> = p"
  by simp

lemma set_state_id: "p_state p = st \<Longrightarrow> p\<lparr>p_state := st\<rparr> = p"
  by simp

text \<open>How the single updates of the code act on the invariant.\<close>

named_theorems inv_upd \<open>effect of single field updates on the parser invariant\<close>

lemma caps_upd [inv_upd]:
  "caps (p\<lparr>data_buf := m\<rparr>) = caps p" "caps (p\<lparr>id_buf := m\<rparr>) = caps p"
  "caps (p\<lparr>event_buf := m\<rparr>) = caps p" "caps (p\<lparr>data_len := n\<rparr>) = caps p"
  "caps (p\<lparr>event_len := n\<rparr>) = caps p" "caps (p\<lparr>id_len := n\<rparr>) = caps p"
  "caps (p\<lparr>block_discarded := v\<rparr>) = caps p" "caps (p\<lparr>id_invalid := v\<rparr>) = caps p"
  "caps (p\<lparr>retry_invalid := v\<rparr>) = caps p" "caps (p\<lparr>retry_seen_digit := v\<rparr>) = caps p"
  "caps (p\<lparr>retry_acc := r\<rparr>) = caps p" "caps (p\<lparr>p_state := st\<rparr>) = caps p"
  "caps (p\<lparr>swallow_lf := v\<rparr>) = caps p"
  by (simp_all add: caps_def)

lemma inv_flags [inv_upd]:
  "parser_inv (p\<lparr>block_discarded := v\<rparr>) = parser_inv p"
  "parser_inv (p\<lparr>id_invalid := v\<rparr>) = parser_inv p"
  "parser_inv (p\<lparr>retry_invalid := v\<rparr>) = parser_inv p"
  "parser_inv (p\<lparr>retry_seen_digit := v\<rparr>) = parser_inv p"
  "parser_inv (p\<lparr>retry_acc := r\<rparr>) = parser_inv p"
  by (simp_all add: inv_defs)

lemma inv_put_data [inv_upd]:
  "parser_inv p \<Longrightarrow> data_len p \<noteq> data_buf_len p \<Longrightarrow>
   data_len p < length (data_buf p) \<and>
   parser_inv (p\<lparr>data_buf := (data_buf p)[data_len p := b], data_len := Suc (data_len p)\<rparr>)"
  by (auto simp: inv_defs)

lemma inv_put_event [inv_upd]:
  "parser_inv p \<Longrightarrow> \<not> event_buf_len p \<le> Suc (event_len p) \<Longrightarrow> b \<noteq> 0 \<Longrightarrow> b \<noteq> CR \<Longrightarrow> b \<noteq> LF \<Longrightarrow>
   event_len p < length (event_buf p) \<and>
   parser_inv (p\<lparr>event_buf := (event_buf p)[event_len p := b], event_len := Suc (event_len p)\<rparr>)"
  by (auto simp: inv_defs)

lemma inv_put_id [inv_upd]:
  "parser_inv p \<Longrightarrow> \<not> id_buf_len p \<le> Suc (id_len p) \<Longrightarrow> b \<noteq> 0 \<Longrightarrow> b \<noteq> CR \<Longrightarrow> b \<noteq> LF \<Longrightarrow>
   id_len p < length (id_buf p) \<and>
   parser_inv (p\<lparr>id_buf := (id_buf p)[id_len p := b], id_len := Suc (id_len p)\<rparr>)"
  by (auto simp: inv_defs)

section \<open>What a callback is promised\<close>

definition terminated :: "bytes \<Rightarrow> nat \<Rightarrow> bool" where
  "terminated m n \<longleftrightarrow> n < length m \<and> m ! n = 0"

definition event_wf :: "sse_parser_event \<Rightarrow> bool" where
  "event_wf ev \<longleftrightarrow> terminated (ev_data ev) (ev_data_len ev) \<and>
     (\<forall>m. ev_event ev = Some m \<longrightarrow> (\<exists>s. c_str m = Some s \<and> s \<noteq> [] \<and> text_bytes s)) \<and>
     (\<forall>m. ev_id ev = Some m \<longrightarrow> (\<exists>s. c_str m = Some s \<and> text_bytes s))"

definition id_wf :: "nat \<Rightarrow> bytes \<times> nat \<Rightarrow> bool" where
  "id_wf cap x = (case x of (m, n) \<Rightarrow> n < cap \<and> terminated m n \<and> text_bytes (take n m))"

text \<open>
  The interface between the parser and its client: the callbacks keep the
  client's own invariant \<open>I\<close> and never run into undefined behaviour when handed
  well-formed arguments. \<open>id_cap\<close> bounds the ids the client accepts.
\<close>

locale parser_callbacks =
  fixes cb :: "'u sse_parser_callbacks" and I :: "'u \<Rightarrow> bool" and id_cap :: nat
  assumes event_ok: "I u \<Longrightarrow> event_wf ev \<Longrightarrow> returns (opt_call (pcb_on_event cb) ev u) I"
    and id_ok: "I u \<Longrightarrow> id_wf id_cap x \<Longrightarrow> returns (opt_call (pcb_on_id cb) x u) I"
    and retry_ok: "I u \<Longrightarrow> returns (opt_call (pcb_on_retry cb) ms u) I"
    and perr_ok: "I u \<Longrightarrow> returns (opt_call (pcb_on_error cb) err u) I"
begin

definition sys_ok :: "nat \<times> nat \<times> nat \<Rightarrow> sse_parser \<times> 'u \<Rightarrow> bool" where
  "sys_ok K s \<longleftrightarrow> parser_inv (fst s) \<and> caps (fst s) = K \<and> fst (snd K) \<le> id_cap \<and> I (snd s)"

lemma emit_perr_ok:
  "I u \<Longrightarrow> (\<And>u'. I u' \<Longrightarrow> Q (p, u')) \<Longrightarrow> returns (emit_perr cb err (p, u)) Q"
  using perr_ok [of u err] by (auto simp: emit_perr_def elim: returns_mono)

lemma discard_block_ok:
  "I u \<Longrightarrow> (\<And>u'. I u' \<Longrightarrow> Q (p\<lparr>block_discarded := True\<rparr>, u')) \<Longrightarrow>
   returns (discard_block cb err (p, u)) Q"
  by (auto simp: discard_block_def set_discarded_id intro!: emit_perr_ok)

lemma value_byte_ok:
  assumes "sys_ok K (p, u)" and "p_state p = PS_VALUE" and "b \<noteq> CR" "b \<noteq> LF"
  shows "returns (value_byte cb b (p, u)) (\<lambda>s. sys_ok K s \<and> p_state (fst s) \<noteq> PS_BOM)"
  using assms
  by (cases "p_field p")
     (auto simp: value_byte_def sys_ok_def inv_upd intro!: discard_block_ok emit_perr_ok)

lemma commit_value_ok:
  assumes "sys_ok K (p, u)" and "p_field p \<noteq> F_NONE"
  shows "returns (commit_value cb (p, u)) (\<lambda>(p', u'). sys_ok K (p'\<lparr>p_state := PS_LINE_START\<rparr>, u'))"
  using assms retry_ok [of u "retry_acc p"]
  by (cases "p_field p")
     (auto simp: commit_value_def sys_ok_def inv_defs intro!: discard_block_ok emit_perr_ok
       elim!: returns_mono)

lemma dispatch_id_ok:
  assumes "sys_ok K (p, u)"
  shows "returns (dispatch_id cb (p, u)) (\<lambda>(p', u'). sys_ok K (p', u') \<and> p_state p' = p_state p \<and>
           (has_id p' \<longrightarrow> c_str (id_buf p') = Some (take (id_len p') (id_buf p'))))"
proof (cases "has_id p")
  case True
  let ?m = "(id_buf p)[id_len p := 0]"
  have len: "id_len p < length (id_buf p)" and tb: "text_bytes (take (id_len p) (id_buf p))"
    using assms by (auto simp: sys_ok_def inv_defs)
  then have str: "c_str ?m = Some (take (id_len p) (id_buf p))"
    by (auto simp: text_bytes_def intro: c_str_update)
  have "id_wf id_cap (?m, id_len p)"
    using assms tb by (auto simp: id_wf_def terminated_def sys_ok_def inv_defs)
  then have "returns (opt_call (pcb_on_id cb) (?m, id_len p) u) I"
    using assms by (intro id_ok) (auto simp: sys_ok_def)
  then show ?thesis
    using True len tb str assms
    by (auto simp: dispatch_id_def sys_ok_def inv_defs elim!: returns_mono)
next
  case False
  then show ?thesis using assms by (simp add: dispatch_id_def)
qed

lemma dispatch_event_ok:
  assumes ok: "sys_ok K (p, u)" and field: "p_field p = F_NONE"
    and str: "has_id p \<Longrightarrow> c_str (id_buf p) = Some (take (id_len p) (id_buf p))"
  shows "returns (dispatch_event cb (p, u)) (\<lambda>(p', u'). sys_ok K (p', u') \<and> p_state p' = p_state p)"
proof (cases "\<not> block_discarded p \<and> 0 < data_lines p \<and> pcb_on_event cb \<noteq> None")
  case True
  then obtain f where f: "pcb_on_event cb = Some f" by auto
  let ?n = "data_len p - 1"
  let ?d = "(data_buf p)[?n := 0]"
  let ?e = "if has_event p then (event_buf p)[event_len p := 0] else event_buf p"
  let ?q = "p\<lparr>data_buf := ?d, event_buf := ?e\<rparr>"
  let ?ev = "\<lparr>ev_event = (if has_event p then Some ?e else None),
               ev_id = (if has_id p then Some (id_buf p) else None),
               ev_data = ?d, ev_data_len = ?n\<rparr>"
  have n: "0 < data_len p" "?n < length (data_buf p)"
    using ok True by (auto simp: sys_ok_def inv_defs)
  have e: "has_event p \<Longrightarrow> event_len p < length (event_buf p)"
    using ok field by (auto simp: sys_ok_def inv_defs)
  have estr: "c_str ?e = Some (take (event_len p) (event_buf p))" "take (event_len p) (event_buf p) \<noteq> []"
    "text_bytes (take (event_len p) (event_buf p))" if "has_event p"
    using ok field that by (auto simp: sys_ok_def inv_defs text_bytes_def intro!: c_str_update)
  have idt: "text_bytes (take (id_len p) (id_buf p))" using ok by (auto simp: sys_ok_def inv_defs)
  have "event_wf ?ev"
    using n estr str idt by (auto simp: event_wf_def terminated_def)
  then have call: "returns (f u ?ev) I"
    using event_ok [of u ?ev] ok f by (simp add: sys_ok_def)
  have "terminate_event (p\<lparr>data_buf := ?d\<rparr>) = Some ?q"
    using e by (simp add: terminate_event_def mem_simps)
  then have run: "dispatch_event cb (p, u) = (f u ?ev \<bind> (\<lambda>u'. Some (?q, u')))"
    using True f n by (simp add: dispatch_event_def Let_def mem_simps)
  have "parser_inv ?q \<and> caps ?q = caps p"
    using ok by (auto simp: sys_ok_def inv_defs)
  then show ?thesis
    using ok call unfolding run by (auto simp: sys_ok_def elim!: returns_mono)
next
  case False
  then show ?thesis using ok by (auto simp: dispatch_event_def)
qed

lemma clear_block_ok:
  "sys_ok K (p, u) \<Longrightarrow> sys_ok K (clear_block p, u)"
  by (auto simp: clear_block_def sys_ok_def inv_defs)

lemma dispatch_block_ok:
  assumes ok: "sys_ok K (p, u)" and st: "p_state p = PS_LINE_START"
  shows "returns (dispatch_block cb (p, u)) (\<lambda>(p', u'). sys_ok K (p', u') \<and> p_state p' = PS_LINE_START)"
proof -
  have "returns (do { (p, u) \<leftarrow> dispatch_event cb (q, v); Some (clear_block p, u) })
      (\<lambda>(p', u'). sys_ok K (p', u') \<and> p_state p' = PS_LINE_START)"
    if "sys_ok K (q, v)" "p_state q = p_state p"
      "has_id q \<longrightarrow> c_str (id_buf q) = Some (take (id_len q) (id_buf q))" for q v
  proof -
    have "p_field q = F_NONE" using that st by (auto simp: sys_ok_def inv_defs)
    then have "returns (dispatch_event cb (q, v)) (\<lambda>(p', u'). sys_ok K (p', u') \<and> p_state p' = p_state q)"
      using that by (intro dispatch_event_ok) auto
    moreover have "p_state (clear_block r) = p_state r" for r by (simp add: clear_block_def)
    ultimately show ?thesis
      using st that by (auto intro!: clear_block_ok elim!: returns_mono)
  qed
  then show ?thesis
    using dispatch_id_ok [OF ok] by (auto simp: dispatch_block_def elim!: returns_mono)
qed

lemma start_value_ok:
  "sys_ok K (p, u) \<Longrightarrow> sys_ok K (start_value p, u)"
  by (cases "p_field p") (auto simp: start_value_def sys_ok_def inv_defs)

lemma resolve_field_name_ok:
  assumes "sys_ok K (p, u)" and "p_state p = PS_FIELD_NAME"
  shows "returns (resolve_field_name cb (p, u)) (\<lambda>(p', u'). sys_ok K (p', u') \<and>
           (p_state p' = PS_AFTER_COLON \<or> p_state p' = PS_SKIP_LINE))"
  using assms
  by (cases "field_of_name (take (name_len p) (p_name p))")
     (auto simp: resolve_field_name_def Let_def start_value_def sys_ok_def inv_defs intro!: emit_perr_ok)

lemma commit_line_ok:
  assumes ok: "sys_ok K (p, u)" and st: "p_state p = PS_AFTER_COLON \<or> p_state p = PS_VALUE"
  shows "returns (do { (p, u) \<leftarrow> commit_value cb (p, u); Some (p\<lparr>p_state := PS_LINE_START\<rparr>, u) })
           (\<lambda>(p', u'). sys_ok K (p', u') \<and> p_state p' = PS_LINE_START)"
proof -
  have "p_field p \<noteq> F_NONE" using assms by (auto simp: sys_ok_def inv_defs)
  from commit_value_ok [OF ok this] show ?thesis by (auto elim!: returns_mono)
qed

lemma line_end_ok:
  assumes ok: "sys_ok K (p, u)" and st: "p_state p \<noteq> PS_BOM"
  shows "returns (line_end cb (p, u)) (\<lambda>(p', u'). sys_ok K (p', u') \<and> p_state p' = PS_LINE_START)"
proof (cases "p_state p")
  case PS_LINE_START
  with dispatch_block_ok [OF ok] show ?thesis
    by (auto simp: line_end_def set_state_id elim!: returns_mono)
next
  case PS_FIELD_NAME
  have "returns (do { (p, u) \<leftarrow> (if p_state q = PS_AFTER_COLON then commit_value cb (q, v) else Some (q, v));
                     Some (p\<lparr>p_state := PS_LINE_START\<rparr>, u) })
          (\<lambda>(p', u'). sys_ok K (p', u') \<and> p_state p' = PS_LINE_START)"
    if q: "sys_ok K (q, v)" "p_state q = PS_AFTER_COLON \<or> p_state q = PS_SKIP_LINE" for q v
  proof (cases "p_state q = PS_AFTER_COLON")
    case True
    then show ?thesis using commit_line_ok [OF q(1)] by simp
  next
    case False
    then show ?thesis using q by (auto simp: sys_ok_def inv_defs)
  qed
  with resolve_field_name_ok [OF ok PS_FIELD_NAME] show ?thesis
    by (auto simp: line_end_def PS_FIELD_NAME elim!: returns_mono)
next
  case PS_SKIP_LINE
  then show ?thesis using ok by (auto simp: line_end_def sys_ok_def inv_defs)
qed (use st commit_line_ok [OF ok] in \<open>auto simp: line_end_def\<close>)

lemma name_byte_ok:
  assumes "sys_ok K (p, u)" and "p_state p = PS_FIELD_NAME"
  shows "returns (name_byte cb b (p, u)) (\<lambda>s. sys_ok K s \<and> p_state (fst s) \<noteq> PS_BOM)"
proof (cases "b = COLON")
  case True
  then show ?thesis
    using resolve_field_name_ok [OF assms] by (auto simp: name_byte_def elim!: returns_mono)
next
  case False
  then show ?thesis
    using assms by (auto simp: name_byte_def sys_ok_def inv_defs intro!: emit_perr_ok)
qed

lemma set_swallow_ok:
  "sys_ok K (p, u) \<Longrightarrow> p_state p \<noteq> PS_BOM \<Longrightarrow> sys_ok K (p\<lparr>swallow_lf := v\<rparr>, u)"
  by (auto simp: sys_ok_def inv_defs)

lemma line_byte_ok:
  assumes ok: "sys_ok K (p, u)" and st: "p_state p \<noteq> PS_BOM"
  shows "returns (line_byte cb b (p, u)) (\<lambda>s. sys_ok K s \<and> p_state (fst s) \<noteq> PS_BOM)"
proof (cases "b = CR \<or> b = LF")
  case True
  have "line_byte cb b (p, u) = line_end cb (p, u) \<bind>
          (\<lambda>(q, v). Some (if b = CR then q\<lparr>swallow_lf := True\<rparr> else q, v))"
    using True by (auto simp: line_byte_def CR_def LF_def)
  then show ?thesis
    using line_end_ok [OF ok st] by (auto intro!: set_swallow_ok elim!: returns_mono)
next
  case False
  then have b: "b \<noteq> CR" "b \<noteq> LF" by auto
  show ?thesis
  proof (cases "p_state p")
    case PS_LINE_START
    have "sys_ok K (p\<lparr>p_state := PS_FIELD_NAME, name_len := 0\<rparr>, u)"
      and "sys_ok K (p\<lparr>p_state := PS_SKIP_LINE\<rparr>, u)"
      using ok PS_LINE_START by (auto simp: sys_ok_def inv_defs)
    then show ?thesis
      using PS_LINE_START b name_byte_ok [of K "p\<lparr>p_state := PS_FIELD_NAME, name_len := 0\<rparr>" u b]
      by (simp add: line_byte_def)
  next
    case PS_FIELD_NAME
    then show ?thesis using b name_byte_ok [OF ok] by (simp add: line_byte_def)
  next
    case PS_AFTER_COLON
    have "sys_ok K (p\<lparr>p_state := PS_VALUE\<rparr>, u)"
      using ok PS_AFTER_COLON by (auto simp: sys_ok_def inv_defs)
    then show ?thesis
      using PS_AFTER_COLON b value_byte_ok [of K "p\<lparr>p_state := PS_VALUE\<rparr>" u b]
      by (simp add: line_byte_def Let_def)
  next
    case PS_VALUE
    then show ?thesis using b value_byte_ok [OF ok] by (simp add: line_byte_def)
  next
    case PS_SKIP_LINE
    then show ?thesis using b ok by (simp add: line_byte_def)
  qed (use st in simp)
qed

lemma process_byte_ok:
  assumes ok: "sys_ok K (p, u)"
  shows "returns (process_byte cb b (p, u)) (sys_ok K)"
proof (cases "swallow_lf p \<and> b = LF")
  case True
  then have "p_state p \<noteq> PS_BOM" using ok by (auto simp: sys_ok_def inv_defs)
  then show ?thesis using True set_swallow_ok [OF ok] by (simp add: process_byte_def)
next
  case False
  let ?p = "p\<lparr>swallow_lf := False\<rparr>"
  have ok': "sys_ok K (?p, u)" and bom: "bom_n p < 3"
    using ok by (auto simp: sys_ok_def inv_defs)
  show ?thesis
  proof (cases "p_state p = PS_BOM")
    case not_bom: False
    then have "process_byte cb b (p, u) = line_byte cb b (?p, u)"
      using False by (simp add: process_byte_def Let_def del: de_Morgan_conj)
    then show ?thesis using line_byte_ok [OF ok', of b] not_bom by (auto elim!: returns_mono)
  next
    case st: True
    let ?q = "p\<lparr>swallow_lf := False, bom_n := 0, p_state := PS_LINE_START\<rparr>"
    show ?thesis
    proof (cases "buf_read SSE_BOM (bom_n p) = Some b")
      case True
      then show ?thesis
        using False st ok bom by (auto simp: process_byte_def Let_def sys_ok_def inv_defs)
    next
      case mismatch: False
      have q: "sys_ok K (?q, u) \<and> p_state (fst (?q, u)) \<noteq> PS_BOM"
        using ok st by (auto simp: sys_ok_def inv_defs)
      let ?I = "\<lambda>s. sys_ok K s \<and> p_state (fst s) \<noteq> PS_BOM"
      have "returns (foldM (line_byte cb) (take (bom_n p) SSE_BOM) (?q, u)) ?I"
        by (rule returns_foldM [where I = ?I, OF _ q]) (auto intro: line_byte_ok)
      moreover have "process_byte cb b (p, u) =
          foldM (line_byte cb) (take (bom_n p) SSE_BOM) (?q, u) \<bind> line_byte cb b"
        using False st mismatch bom by (auto simp: process_byte_def Let_def)
      moreover have "returns (line_byte cb b s) (sys_ok K)" if "?I s" for s
        using that line_byte_ok [of K "fst s" "snd s" b] by (auto elim!: returns_mono)
      ultimately show ?thesis by (auto elim!: returns_mono)
    qed
  qed
qed

theorem feed_ok:
  assumes "sys_ok K s" and "len \<le> length chunk"
  shows "returns (sse_parser_feed cb chunk len s) (sys_ok K)"
  using assms unfolding sse_parser_feed_def
  by (auto intro!: returns_foldM process_byte_ok)

end

section \<open>The initial parser\<close>

definition buffers_ok :: "sse_parser_buffers \<Rightarrow> bool" where
  "buffers_ok b \<longleftrightarrow> (\<exists>d i e. buf_data b = Some d \<and> buf_id b = Some i \<and> buf_event b = Some e \<and>
     buf_data_len b \<le> length d \<and> buf_id_len b \<le> length i \<and> buf_event_len b \<le> length e \<and>
     1 \<le> buf_id_len b)"

lemma parser_inv_init: "buffers_ok b \<Longrightarrow> parser_inv (sse_parser_init b)"
  by (auto simp: buffers_ok_def sse_parser_init_def inv_defs)

lemma caps_init [simp]:
  "caps (sse_parser_init b) = (buf_data_len b, buf_id_len b, buf_event_len b)"
  by (simp add: caps_def sse_parser_init_def)

lemma parser_inv_reset: "parser_inv p \<Longrightarrow> parser_inv (sse_parser_reset p)"
  unfolding sse_parser_reset_def
  by (rule parser_inv_init) (auto simp: buffers_ok_def parser_buffers_def inv_defs)

lemma caps_reset [simp]: "caps (sse_parser_reset p) = caps p"
  by (simp add: sse_parser_reset_def parser_buffers_def) (simp add: caps_def)

end
