(* ===== verification/Sse_Client_Safety.thy ===== *)
theory Sse_Client_Safety
  imports Sse_Client Sse_Parser_Safety
begin

text \<open>
  What the client relies on in its environment, as two locales: the transport's
  contract and the contract of the clock and of the user's callbacks. Inside the
  second, every client operation is shown to run without undefined behaviour, to
  keep the client's invariant, and to change the client in a way that is spelled
  out in its postcondition.
\<close>

section \<open>Closing, and running a user callback\<close>

lemma upd_simps [simp]:
  "cl (upd f s) = f (cl s)" "env (upd f s) = env s" "trace (upd f s) = trace s"
  by (simp_all add: upd_def)

lemma note_obs_simps [simp]:
  "cl (note_obs x s) = cl s" "env (note_obs x s) = env s" "trace (note_obs x s) = trace s @ [x]"
  by (simp_all add: note_obs_def)

lemma set_state_simps [simp]:
  "cl (set_state st s) = (cl s)\<lparr>state := st\<rparr>" "env (set_state st s) = env s"
  "trace (set_state st s) = trace s"
  by (simp_all add: set_state_def)

text \<open>
  The two ways a user callback can leave the client: it may have asked for a stop,
  and it may have closed the client, in which case the transport was closed and
  \<open>on_closed\<close> was called.
\<close>

definition closing_obs :: "'w sse_client \<Rightarrow> obs list" where
  "closing_obs c = (if transport_open c then [TClose] else []) @
     (if state c \<noteq> SSE_STATE_CLOSED \<and> on_closed (callbacks (cfg c)) \<noteq> None then [CbClosed] else [])"

definition asked :: "'w sse_client \<Rightarrow> 'w sse_client" where
  "asked c = c\<lparr>stop_requested := True\<rparr>"

definition ended :: "'w sse_client \<Rightarrow> 'w sse_client" where
  "ended c = c\<lparr>state := SSE_STATE_CLOSED, transport_open := False\<rparr>"

lemma asked_ended [simp]:
  "asked (asked c) = asked c" "ended (ended c) = ended c" "ended (asked c) = asked (ended c)"
  by (simp_all add: asked_def ended_def)

lemma closing_obs_simps [simp]:
  "closing_obs (asked c) = closing_obs c" "closing_obs (ended c) = []"
  by (simp_all add: asked_def ended_def closing_obs_def)

definition kept :: "'w sys \<Rightarrow> 'w sys \<Rightarrow> bool" where
  "kept s s' \<longleftrightarrow> trace s' = trace s \<and> (cl s' = cl s \<or> cl s' = asked (cl s))"

definition shut :: "'w sys \<Rightarrow> 'w sys \<Rightarrow> bool" where
  "shut s s' \<longleftrightarrow> trace s' = trace s @ closing_obs (cl s) \<and>
     (cl s' = ended (cl s) \<or> cl s' = asked (ended (cl s)))"

lemma kept_refl [simp]: "kept s s" "kept s (s\<lparr>env := w\<rparr>)"
  by (auto simp: kept_def)

lemma kept_trans: "kept s t \<Longrightarrow> kept t u \<Longrightarrow> kept s u"
  by (auto simp: kept_def)

lemma kept_shut: "kept s t \<Longrightarrow> shut t u \<Longrightarrow> shut s u"
  by (auto simp: kept_def shut_def)

lemma shut_kept: "shut s t \<Longrightarrow> kept t u \<Longrightarrow> shut s u"
  by (auto simp: kept_def shut_def)

lemma shut_shut: "shut s t \<Longrightarrow> shut t u \<Longrightarrow> shut s u"
  by (auto simp: shut_def)

definition ran :: "'w sys \<Rightarrow> 'w sys \<Rightarrow> bool" where
  "ran s s' \<longleftrightarrow> kept s s' \<or> shut s s'"

lemma ran_trans: "ran s t \<Longrightarrow> ran t u \<Longrightarrow> ran s u"
  unfolding ran_def using kept_trans kept_shut shut_kept shut_shut by blast

lemma ran_refl [simp]: "ran s s" "ran s (s\<lparr>env := w\<rparr>)"
  by (simp_all add: ran_def)

lemma kept_ran: "kept s t \<Longrightarrow> ran s t"
  and shut_ran: "shut s t \<Longrightarrow> ran s t"
  by (simp_all add: ran_def)

lemma kept_request_stop [simp]: "kept s (sse_client_request_stop s)"
  by (simp add: kept_def sse_client_request_stop_def asked_def)

text \<open>
  \<open>to_closed\<close> satisfies the source's recursive equation: \<open>on_closed\<close> may call
  \<open>sse_client_close\<close>, and in the closed state that is \<open>close_transport\<close>.
\<close>

lemma close_transport_state: "close_transport s = Some s' \<Longrightarrow> state (cl s') = state (cl s)"
  by (auto simp: close_transport_def split: if_splits bind_splits)

lemma to_closed_when_closed: "state (cl s) = SSE_STATE_CLOSED \<Longrightarrow> to_closed s = close_transport s"
  by (cases "close_transport s") (auto simp: to_closed_def dest: close_transport_state)

lemma run_script_when_closed:
  "state (cl s) = SSE_STATE_CLOSED \<Longrightarrow> run_script to_closed x s = run_script close_transport x s"
proof (induction x arbitrary: s)
  case (Invoke a w k)
  have closed: "state (cl (s\<lparr>env := w\<rparr>)) = SSE_STATE_CLOSED" using Invoke.prems by simp
  have go: "run_script to_closed (k v x) t = run_script close_transport (k v x) t"
    if "state (cl t) = SSE_STATE_CLOSED" for v x t
    using Invoke.IH that by blast
  show ?case
  proof (cases a)
    case CallClose
    then show ?thesis
      using closed to_closed_when_closed [OF closed] close_transport_state [of "s\<lparr>env := w\<rparr>"]
      by (cases "close_transport (s\<lparr>env := w\<rparr>)") (auto intro: go)
  qed (use closed in \<open>auto simp: sse_client_request_stop_def intro: go\<close>)
qed simp

lemma to_closed_recursive:
  "to_closed s = do {
     s \<leftarrow> close_transport s;
     if state (cl s) = SSE_STATE_CLOSED then Some s
     else (let s = set_state SSE_STATE_CLOSED s in
           call_user to_closed (on_closed (callbacks (cfg (cl s)))) () CbClosed s)
   }"
proof -
  have "call_user to_closed f x ob t = call_user close_transport f x ob t"
    if "state (cl t) = SSE_STATE_CLOSED" for f :: "('a \<Rightarrow> unit \<Rightarrow> ('a, unit) script) option" and x ob t
    using that by (cases f) (auto simp: call_user_def run_script_when_closed)
  then show ?thesis by (simp add: to_closed_def Let_def cong: if_cong)
qed

section \<open>The environment's contracts\<close>

text \<open>What a reader of a NULL-terminated array of strings sees.\<close>

definition null_terminated :: "'a option list \<Rightarrow> 'a list \<Rightarrow> bool" where
  "null_terminated hs xs \<longleftrightarrow> (\<exists>rest. hs = map Some xs @ None # rest)"

text \<open>
  A transport is used in order: \<open>open\<close> while closed, \<open>read\<close> and \<open>close\<close> only after an
  \<open>open\<close> that returned 0; the headers it is handed end in a NULL. \<open>T b w\<close> says that the transport's own state in the world
  \<open>w\<close> is sound and is open iff \<open>b\<close>. Used so, the transport stays within the memory
  it is handed, keeps its state sound, and fills a \<open>content_type\<close> that ends in a NUL.
\<close>

definition info_wf :: "sse_response_info \<Rightarrow> bool" where
  "info_wf i \<longleftrightarrow> length (content_type i) = 64 \<and> 0 \<in> set (content_type i)"

locale sse_transport_contract =
  fixes t :: "'w sse_transport" and T :: "bool \<Rightarrow> 'w \<Rightarrow> bool"
  assumes open_ok: "tr_open t = Some f \<Longrightarrow> T False w \<Longrightarrow> info_wf i \<Longrightarrow> null_terminated (req_headers req) xs \<Longrightarrow>
      returns (f w req i) (\<lambda>(r, i', w'). T (r = 0) w' \<and> info_wf i')"
    and read_ok: "tr_read t = Some g \<Longrightarrow> T True w \<Longrightarrow> len \<le> length m \<Longrightarrow>
      returns (g w m len tmo) (\<lambda>(r, m', stopped, w'). T True w' \<and> length m' = length m)"
    and close_ok: "tr_close t = Some h \<Longrightarrow> T True w \<Longrightarrow> returns (h w) (T False)"

text \<open>
  A user callback must not disturb the transport; what it does between its calls
  into the client is its own business. After \<open>sse_client_close\<close> the transport is closed.
\<close>

primrec script_ok :: "(bool \<Rightarrow> 'w \<Rightarrow> bool) \<Rightarrow> bool \<Rightarrow> ('w, 'r) script \<Rightarrow> bool" where
  "script_ok T b (Return r w) = T b w"
| "script_ok T b (Invoke a w k) =
     (T b w \<and> (\<forall>v w'. let b' = (b \<and> a \<noteq> CallClose) in T b' w' \<longrightarrow> script_ok T b' (k v w')))"

definition callback_at :: "(bool \<Rightarrow> 'w \<Rightarrow> bool) \<Rightarrow> ('w \<Rightarrow> 'a \<Rightarrow> ('w, 'r) script) option \<Rightarrow> 'a \<Rightarrow> bool" where
  "callback_at T f x = (\<forall>g b w. f = Some g \<longrightarrow> T b w \<longrightarrow> script_ok T b (g w x))"

definition callback_ok :: "(bool \<Rightarrow> 'w \<Rightarrow> bool) \<Rightarrow> ('w \<Rightarrow> 'a \<Rightarrow> ('w, 'r) script) option \<Rightarrow> bool" where
  "callback_ok T f = (\<forall>x. callback_at T f x)"

text \<open>
  What the client promises of a message: an event type that is a non-empty line of text, an
  id that is a line of text, and a terminated payload. \<open>on_message\<close> has to cope with such
  messages only.
\<close>

definition message_wf :: "sse_message \<Rightarrow> bool" where
  "message_wf m \<longleftrightarrow> returns (c_str (msg_event m)) (\<lambda>s. s \<noteq> [] \<and> text_bytes s) \<and>
     returns (c_str (msg_last_event_id m)) text_bytes \<and> terminated (msg_data m) (msg_data_len m)"

definition callbacks_ok :: "(bool \<Rightarrow> 'w \<Rightarrow> bool) \<Rightarrow> 'w sse_client_config \<Rightarrow> bool" where
  "callbacks_ok T g \<longleftrightarrow>
     callback_ok T (on_open (callbacks g)) \<and> (\<forall>m. message_wf m \<longrightarrow> callback_at T (on_message (callbacks g)) m) \<and>
     callback_ok T (on_error (callbacks g)) \<and> callback_ok T (on_closed (callbacks g)) \<and>
     callback_ok T (reconnect_policy g)"

text \<open>What \<open>sse_client_init\<close> cannot check: the claimed lengths are those of real buffers.\<close>

definition memory_ok :: "'w sse_client_config \<Rightarrow> bool" where
  "memory_ok g \<longleftrightarrow> buffers_ok (buffers g) \<and> (\<exists>m. rx_buf g = Some m \<and> rx_buf_len g \<le> length m)"

locale client_env = sse_transport_contract t T
  for t :: "'w sse_transport" and T +
  fixes g :: "'w sse_client_config"
  assumes transport_is: "transport g = Some t"
    and config_valid: "client_config_valid g"
    and memory: "memory_ok g"
    and clock_ok: "now_ms g = Some f \<Longrightarrow> T b w \<Longrightarrow> T b (snd (f w))"
    and callbacks: "callbacks_ok T g"


section \<open>The client's invariant\<close>

text \<open>The order in which the client may call out: state (transport open, client closed).\<close>

fun obs_step :: "obs \<Rightarrow> bool \<times> bool \<Rightarrow> (bool \<times> bool) option" where
  "obs_step ob (opened, dead) = (if dead then None else (case ob of
      TOpen req ok \<Rightarrow> if opened then None else Some (ok, False)
    | TRead r bs \<Rightarrow> if opened then Some (True, False) else None
    | TClose \<Rightarrow> if opened then Some (False, False) else None
    | CbOpen n \<Rightarrow> if opened then Some (True, False) else None
    | CbMessage m \<Rightarrow> if opened \<and> message_wf m then Some (True, False) else None
    | CbError e \<Rightarrow> Some (opened, False)
    | CbPolicy e \<Rightarrow> if opened then None else Some (False, False)
    | CbClosed \<Rightarrow> if opened then None else Some (False, True)))"

definition obs_ok :: "'w sys \<Rightarrow> bool" where
  "obs_ok s \<longleftrightarrow> (\<exists>dead. foldM obs_step (trace s) (False, False) = Some (transport_open (cl s), dead) \<and>
     (dead \<longrightarrow> state (cl s) = SSE_STATE_CLOSED))"

text \<open>The parts of the struct that do not depend on the connection's state.\<close>

definition id_inv :: "'w sse_client \<Rightarrow> bool" where
  "id_inv c \<longleftrightarrow> length (last_event_id c) = SSE_CLIENT_ID_MAX + 1 \<and>
     terminated (last_event_id c) (last_event_id_len c) \<and>
     text_bytes (take (last_event_id_len c) (last_event_id c)) \<and>
     length (id_header c) = SSE_CLIENT_ID_MAX + 32 \<and> length (headers c) = SSE_CLIENT_MAX_HEADERS + 1"

definition config_inv :: "'w sse_client_config \<Rightarrow> 'w sse_client \<Rightarrow> bool" where
  "config_inv g c \<longleftrightarrow>
     (\<exists>m. cfg c = (with_defaults g)\<lparr>rx_buf := Some m\<rparr> \<and> rx_buf_len g \<le> length m) \<and>
     extra_header_count c = (case extra_headers g of None \<Rightarrow> 0 | Some xs \<Rightarrow> length xs) \<and>
     parser_inv (parser c) \<and>
     caps (parser c) = (buf_data_len (buffers g), buf_id_len (buffers g), buf_event_len (buffers g))"

definition base_inv :: "'w sse_client_config \<Rightarrow> 'w sse_client \<Rightarrow> bool" where
  "base_inv g c \<longleftrightarrow> config_inv g c \<and> id_inv c \<and> prng c \<noteq> 0"

definition client_inv :: "(bool \<Rightarrow> 'w \<Rightarrow> bool) \<Rightarrow> 'w sse_client_config \<Rightarrow> 'w sys \<Rightarrow> bool" where
  "client_inv T g s \<longleftrightarrow> base_inv g (cl s) \<and> T (transport_open (cl s)) (env s) \<and> obs_ok s \<and>
     (state (cl s) = SSE_STATE_CLOSED \<longrightarrow> \<not> transport_open (cl s))"

text \<open>Between calls, and during the callbacks of an open connection, the two flags agree.\<close>

definition settled :: "(bool \<Rightarrow> 'w \<Rightarrow> bool) \<Rightarrow> 'w sse_client_config \<Rightarrow> 'w sys \<Rightarrow> bool" where
  "settled T g s \<longleftrightarrow> client_inv T g s \<and> (transport_open (cl s) \<longleftrightarrow> state (cl s) = SSE_STATE_OPEN)"

lemma base_inv_upd [simp]:
  "base_inv g (c\<lparr>state := st\<rparr>) = base_inv g c"
  "base_inv g (c\<lparr>stop_requested := v\<rparr>) = base_inv g c"
  "base_inv g (c\<lparr>transport_open := v\<rparr>) = base_inv g c"
  "base_inv g (c\<lparr>attempts := n\<rparr>) = base_inv g c"
  "base_inv g (c\<lparr>base_retry_ms := n\<rparr>) = base_inv g c"
  "base_inv g (c\<lparr>retry_deadline := n\<rparr>) = base_inv g c"
  "base_inv g (c\<lparr>last_rx_ms := n\<rparr>) = base_inv g c"
  "base_inv g (asked c) = base_inv g c"
  "base_inv g (ended c) = base_inv g c"
  by (simp_all add: base_inv_def config_inv_def id_inv_def asked_def ended_def)

lemma state_after [simp]:
  "state (asked c) = state c" "state (ended c) = SSE_STATE_CLOSED"
  "transport_open (asked c) = transport_open c" "\<not> transport_open (ended c)"
  by (simp_all add: asked_def ended_def)

lemma obs_ok_note:
  assumes "obs_ok s" and "state (cl s) \<noteq> SSE_STATE_CLOSED"
    and "obs_step ob (transport_open (cl s), False) = Some (transport_open c, dead)"
    and "dead \<longrightarrow> state c = SSE_STATE_CLOSED"
  shows "obs_ok (s\<lparr>trace := trace s @ [ob], cl := c, env := w\<rparr>)"
  using assms by (auto simp: obs_ok_def foldM_append)

lemma obs_ok_cong: "trace s' = trace s \<Longrightarrow> transport_open (cl s') = transport_open (cl s) \<Longrightarrow>
    state (cl s') = state (cl s) \<Longrightarrow> obs_ok s' = obs_ok s"
  by (simp add: obs_ok_def)

lemma obs_ok_ended:
  assumes "obs_ok s" and "trace s' = trace s @ closing_obs (cl s)"
    and "cl s' = ended (cl s) \<or> cl s' = asked (ended (cl s))"
    and "state (cl s) = SSE_STATE_CLOSED \<longrightarrow> \<not> transport_open (cl s)"
  shows "obs_ok s'"
  using assms by (auto simp: obs_ok_def closing_obs_def foldM_append intro: exI [of _ False])

lemma client_inv_ran:
  assumes "client_inv T g s" and "ran s s'" and "T (transport_open (cl s')) (env s')"
  shows "client_inv T g s'"
  using assms obs_ok_ended [of s s'] obs_ok_cong [of s' s]
  by (auto simp: client_inv_def ran_def kept_def shut_def)

lemma settled_ran:
  assumes "settled T g s" and "ran s s'" and "T (transport_open (cl s')) (env s')"
  shows "settled T g s'"
  using assms client_inv_ran [of T g s s']
  by (auto simp: settled_def ran_def kept_def shut_def)


section \<open>Operations that call nobody\<close>

lemma returns_memcpy [simp, wp]:
  "returns (memcpy d x n) Q \<longleftrightarrow> n \<le> length d \<and> n \<le> length x \<and> Q (take n x @ drop n d)"
  by (auto simp: memcpy_def)

text \<open>The headers the code sends, as one list.\<close>

definition header_list :: "'w sse_client \<Rightarrow> bytes list" where
  "header_list c =
     [bytes_of ''Accept: text/event-stream'', bytes_of ''Cache-Control: no-store''] @
     (if last_event_id_len c = 0 then []
      else [bytes_of ''Last-Event-ID: '' @ take (last_event_id_len c) (last_event_id c)]) @
     (case extra_headers (cfg c) of None \<Rightarrow> [] | Some xs \<Rightarrow> xs)"

definition headers_after :: "bytes list \<Rightarrow> bytes option list \<Rightarrow> nat \<times> bytes option list" where
  "headers_after xs hs = (length xs, map Some xs @ drop (length xs) hs)"

lemma put_header_after:
  assumes "length xs < length hs"
  shows "put_header h (headers_after xs hs) = Some (headers_after (xs @ [h]) hs)"
proof -
  have "drop (length xs) hs = hs ! length xs # drop (Suc (length xs)) hs"
    using assms by (simp add: Cons_nth_drop_Suc)
  then show ?thesis
    using assms by (simp add: put_header_def headers_after_def buf_write_def list_update_append)
qed

lemma put_headers_after:
  "length xs + length ys \<le> length hs \<Longrightarrow>
   foldM put_header ys (headers_after xs hs) = Some (headers_after (xs @ ys) hs)"
proof (induction ys arbitrary: xs)
  case (Cons y ys)
  then show ?case using put_header_after [of xs hs y] Cons.IH [of "xs @ [y]"] by simp
qed simp

lemma put_header_first: "0 < length hs \<Longrightarrow> put_header h (0, hs) = Some (headers_after [h] hs)"
  using put_header_after [of "[]" hs h] by (simp add: headers_after_def)

lemma headers_end:
  "length xs < length hs \<Longrightarrow>
   \<exists>hs'. buf_write (snd (headers_after xs hs)) (fst (headers_after xs hs)) None = Some hs' \<and>
     null_terminated hs' xs \<and> length hs' = length hs"
  by (auto simp: headers_after_def buf_write_def null_terminated_def list_update_append
      Cons_nth_drop_Suc [symmetric])

text \<open>The persisted id, read as a C string.\<close>

lemma last_id_str:
  assumes "id_inv c"
  shows "c_str (last_event_id c) = Some (take (last_event_id_len c) (last_event_id c))"
  using assms by (auto simp: id_inv_def terminated_def text_bytes_def intro: c_str_terminated)

lemma snprintf_fits:
  "length str < cap \<Longrightarrow> cap \<le> length dst \<Longrightarrow>
   snprintf_to dst cap str = Some (str @ 0 # drop (length str + 1) dst)"
  by (simp add: snprintf_to_def)

lemma id_header_fits:
  assumes "id_inv c"
  shows "\<exists>m. snprintf_to (id_header c) (SSE_CLIENT_ID_MAX + 32)
             (bytes_of ''Last-Event-ID: '' @ take (last_event_id_len c) (last_event_id c)) = Some m \<and>
           length m = SSE_CLIENT_ID_MAX + 32 \<and>
           c_str m = Some (bytes_of ''Last-Event-ID: '' @ take (last_event_id_len c) (last_event_id c))"
proof -
  let ?h = "bytes_of ''Last-Event-ID: '' @ take (last_event_id_len c) (last_event_id c)"
  let ?m = "?h @ 0 # drop (length ?h + 1) (id_header c)"
  have inv: "length (id_header c) = SSE_CLIENT_ID_MAX + 32" using assms by (simp add: id_inv_def)
  have 0: "0 \<notin> set (bytes_of ''Last-Event-ID: '')" by code_simp
  have id0: "0 \<notin> set (take (last_event_id_len c) (last_event_id c))"
    using assms by (simp add: id_inv_def text_bytes_def)
  have len: "length ?h \<le> SSE_CLIENT_ID_MAX + 15"
    using assms by (auto simp: id_inv_def terminated_def bytes_of_def)
  have "snprintf_to (id_header c) (SSE_CLIENT_ID_MAX + 32) ?h = Some ?m"
    using len by (intro snprintf_fits) (simp_all add: inv)
  moreover have "length ?m = SSE_CLIENT_ID_MAX + 32" using assms len by (simp add: id_inv_def)
  moreover have "c_str ?m = Some ?h" using 0 id0 by (intro c_str_append) simp
  ultimately show ?thesis by blast
qed

definition extra_list :: "'w sse_client_config \<Rightarrow> bytes list" where
  "extra_list g = (case extra_headers g of None \<Rightarrow> [] | Some xs \<Rightarrow> xs)"

lemma extra_facts:
  assumes "config_inv g c" and "client_config_valid g"
  shows "extra_headers (cfg c) = extra_headers g" "length (extra_list g) \<le> 13"
    "extra_header_count c = length (extra_list g)"
  using assms by (auto simp: config_inv_def with_defaults_def client_config_valid_def extra_list_def
      SSE_CLIENT_MAX_HEADERS_def split: option.splits)

definition id_headers :: "'w sse_client \<Rightarrow> bytes list" where
  "id_headers c = (if last_event_id_len c = 0 then []
     else [bytes_of ''Last-Event-ID: '' @ take (last_event_id_len c) (last_event_id c)])"

lemma put_id_header_run:
  assumes "id_inv c" and "length xs < length hs"
  shows "\<exists>m. length m = SSE_CLIENT_ID_MAX + 32 \<and>
     put_id_header c (headers_after xs hs) =
     Some (c\<lparr>id_header := m\<rparr>, headers_after (xs @ id_headers c) hs)"
proof (cases "last_event_id_len c = 0")
  case True
  then show ?thesis
    using assms(1)
    by (intro exI [of _ "id_header c"]) (simp add: id_headers_def id_inv_def put_id_header_def)
next
  case False
  from id_header_fits [OF assms(1)] obtain m where m:
    "snprintf_to (id_header c) (SSE_CLIENT_ID_MAX + 32)
       (bytes_of ''Last-Event-ID: '' @ take (last_event_id_len c) (last_event_id c)) = Some m"
    "length m = SSE_CLIENT_ID_MAX + 32"
    "c_str m = Some (bytes_of ''Last-Event-ID: '' @ take (last_event_id_len c) (last_event_id c))"
    by blast
  show ?thesis
    using False m last_id_str [OF assms(1)] put_header_after [OF assms(2)]
    by (intro exI [of _ m]) (simp add: id_headers_def put_id_header_def)
qed

lemma build_headers_run:
  assumes "base_inv g c" and "client_config_valid g"
  shows "\<exists>m hs. build_headers c = Some (c\<lparr>id_header := m, headers := hs\<rparr>) \<and>
     length m = SSE_CLIENT_ID_MAX + 32 \<and> length hs = SSE_CLIENT_MAX_HEADERS + 1 \<and>
     null_terminated hs (header_list c)"
proof -
  let ?AB = "[bytes_of ''Accept: text/event-stream'', bytes_of ''Cache-Control: no-store'']"
  let ?all = "?AB @ id_headers c @ extra_list g"
  have inv: "id_inv c" "config_inv g c" using assms(1) by (simp_all add: base_inv_def)
  have len: "length (headers c) = SSE_CLIENT_MAX_HEADERS + 1" using inv(1) by (simp add: id_inv_def)
  note ex = extra_facts [OF inv(2) assms(2)]
  have fits: "length ?AB + length (id_headers c) + length (extra_list g) < length (headers c)"
    using ex(2) len by (simp add: id_headers_def SSE_CLIENT_MAX_HEADERS_def)
  obtain m where m: "length m = SSE_CLIENT_ID_MAX + 32"
      "put_id_header c (headers_after ?AB (headers c)) =
       Some (c\<lparr>id_header := m\<rparr>, headers_after (?AB @ id_headers c) (headers c))"
    using put_id_header_run [OF inv(1), of ?AB "headers c"] fits by auto
  obtain hs where hs: "buf_write (snd (headers_after ?all (headers c))) (fst (headers_after ?all (headers c))) None = Some hs"
      "null_terminated hs ?all" "length hs = length (headers c)"
    using headers_end [of ?all "headers c"] fits by auto
  have "put_extra_headers (c\<lparr>id_header := m\<rparr>) y = foldM put_header (extra_list g) y" for y
    using ex(1,3) by (auto simp: put_extra_headers_def extra_list_def split: option.splits)
  then have "build_headers c = Some (c\<lparr>id_header := m, headers := hs\<rparr>)"
    using m(2) put_headers_after [of "?AB @ id_headers c" "extra_list g" "headers c"] fits hs(1) len
      put_header_after [of "[bytes_of ''Accept: text/event-stream'']" "headers c"]
    by (simp add: build_headers_def put_header_first SSE_CLIENT_MAX_HEADERS_def)
  moreover have "header_list c = ?all"
    using ex(1) by (simp add: header_list_def id_headers_def extra_list_def)
  ultimately show ?thesis using hs len m by auto
qed

section \<open>Closing\<close>

definition noted :: "'a option \<Rightarrow> obs \<Rightarrow> 'w sys \<Rightarrow> 'w sys" where
  "noted f ob s = (if f = None then s else note_obs ob s)"

lemma noted_simps [simp]: "cl (noted f ob s) = cl s" "env (noted f ob s) = env s"
  by (simp_all add: noted_def)

lemma update_id [simp]: "\<not> transport_open c \<Longrightarrow> c\<lparr>transport_open := False\<rparr> = c"
  by simp

lemma base_inv_config:
  assumes "base_inv g c"
  shows "transport (cfg c) = transport g" "now_ms (cfg c) = now_ms g" "callbacks (cfg c) = callbacks g"
    "reconnect_policy (cfg c) = reconnect_policy g" "url (cfg c) = url g"
    "rx_buf_len (cfg c) = rx_buf_len g" "\<exists>m. rx_buf (cfg c) = Some m \<and> rx_buf_len g \<le> length m"
    "idle_timeout_ms (cfg c) = idle_timeout_ms g" "jitter_pct (cfg c) = jitter_pct g"
    "max_retry_ms (cfg c) = max_retry_ms g" "skip_content_type_check (cfg c) = skip_content_type_check g"
    "read_timeout_ms (cfg c) = (if read_timeout_ms g = 0 then 500 else read_timeout_ms g)"
  using assms by (auto simp: base_inv_def config_inv_def with_defaults_def)

context client_env
begin

lemmas cfg_simps = base_inv_config [where g = g]

lemma valid_functions:
  obtains fo fr fc fn u where "tr_open t = Some fo" "tr_read t = Some fr" "tr_close t = Some fc"
    "now_ms g = Some fn" "url g = Some u"
  using config_valid transport_is by (auto simp: client_config_valid_def)

lemma close_transport_ok:
  assumes "client_inv T g s"
  shows "returns (close_transport s) (\<lambda>s'. client_inv T g s' \<and> cl s' = (cl s)\<lparr>transport_open := False\<rparr> \<and>
     trace s' = trace s @ (if transport_open (cl s) then [TClose] else []))"
proof (cases "transport_open (cl s)")
  case True
  obtain fc where fc: "tr_close t = Some fc" using valid_functions by blast
  have "returns (fc (env s)) (T False)"
    using close_ok [OF fc] assms True by (simp add: client_inv_def)
  moreover have "obs_ok (upd (\<lambda>c. c\<lparr>transport_open := False\<rparr>) (note_obs TClose (s\<lparr>env := w\<rparr>)))" for w
    using assms True by (auto simp: client_inv_def obs_ok_def foldM_append)
  moreover have "transport (cfg (cl s)) = Some t"
    using assms transport_is by (simp add: client_inv_def cfg_simps)
  ultimately show ?thesis
    using True assms fc
    by (simp add: close_transport_def client_inv_def)
next
  case False
  then show ?thesis using assms by (simp add: close_transport_def)
qed

text \<open>
  A user callback in the hands of the client. \<open>close\<close> stands for what \<open>sse_client_close\<close>
  does at this point, \<open>J\<close> for what is known of the client there.
\<close>

lemma run_script_ok:
  assumes close: "\<And>s. J s \<Longrightarrow> client_inv T g s \<Longrightarrow>
      returns (close s) (\<lambda>s'. client_inv T g s' \<and> ran s s' \<and> \<not> transport_open (cl s'))"
    and stable: "\<And>s s'. J s \<Longrightarrow> ran s s' \<Longrightarrow> J s'"
    and "J s" and "client_inv T g s" and "script_ok T (transport_open (cl s)) sc"
  shows "returns (run_script close sc s) (\<lambda>(r, s'). client_inv T g s' \<and> ran s s')"
  using assms(3-5)
proof (induction sc arbitrary: s)
  case (Return r w)
  then have "client_inv T g (s\<lparr>env := w\<rparr>)"
    by (auto intro!: client_inv_ran [of T g s "s\<lparr>env := w\<rparr>"])
  then show ?case by simp
next
  case (Invoke a w k)
  let ?s = "s\<lparr>env := w\<rparr>"
  have s: "J ?s" "client_inv T g ?s"
    using Invoke.prems stable [of s ?s] client_inv_ran [of T g s ?s] by auto
  have go: "returns (run_script close (k (view_of s') (env s')) s') (\<lambda>(r, u). client_inv T g u \<and> ran s u)"
    if "client_inv T g s'" "ran ?s s'" "transport_open (cl s') = (transport_open (cl s) \<and> a \<noteq> CallClose)" for s'
  proof -
    have "script_ok T (transport_open (cl s')) (k (view_of s') (env s'))"
      using Invoke.prems(3) that by (simp add: client_inv_def Let_def)
    then have "returns (run_script close (k (view_of s') (env s')) s') (\<lambda>(r, u). client_inv T g u \<and> ran s' u)"
      using that s(1) stable [OF s(1) that(2)] by (intro Invoke.IH) auto
    moreover have "ran s s'" using ran_trans [OF ran_refl(2) that(2)] .
    ultimately show ?thesis by (auto elim!: returns_mono intro: ran_trans)
  qed
  show ?case
  proof (cases a)
    case CallClose
    then show ?thesis using close [OF s] go by (auto elim!: returns_mono)
  next
    case CallRequestStop
    have "ran ?s (sse_client_request_stop ?s)" by (simp add: kept_ran)
    moreover from this have "client_inv T g (sse_client_request_stop ?s)"
      by (rule client_inv_ran [OF s(2)]) (use s(2) in \<open>auto simp: client_inv_def sse_client_request_stop_def\<close>)
    moreover have "transport_open (cl (sse_client_request_stop ?s)) = transport_open (cl s)"
      by (simp add: sse_client_request_stop_def)
    ultimately show ?thesis using CallRequestStop go [of "sse_client_request_stop ?s"] by simp
  next
    case CallQuery
    then show ?thesis using s go [of ?s] by simp
  qed
qed

lemma client_inv_note:
  assumes "client_inv T g s" and "state (cl s) \<noteq> SSE_STATE_CLOSED"
    and "obs_step ob (transport_open (cl s), False) = Some (transport_open (cl s), False)"
  shows "client_inv T g (note_obs ob s)"
proof -
  have "obs_ok (s\<lparr>trace := trace s @ [ob], cl := cl s, env := env s\<rparr>)"
    using assms by (intro obs_ok_note) (auto simp: client_inv_def)
  then have "obs_ok (note_obs ob s)" by (simp add: note_obs_def)
  then show ?thesis using assms(1) by (simp add: client_inv_def)
qed

lemma to_closed_ok:
  assumes inv: "client_inv T g s"
  shows "returns (to_closed s) (\<lambda>s'. client_inv T g s' \<and> ran s s' \<and> state (cl s') = SSE_STATE_CLOSED)"
proof (cases "state (cl s) = SSE_STATE_CLOSED")
  case True
  then show ?thesis
    using inv by (auto simp: to_closed_def close_transport_def client_inv_def)
next
  case False
  let ?J = "\<lambda>s. state (cl s) = SSE_STATE_CLOSED \<and> \<not> transport_open (cl s)"
  have J: "?J s \<Longrightarrow> ran s s' \<Longrightarrow> ?J s'" for s s' :: "'a sys"
    by (auto simp: ran_def kept_def shut_def)
  have rest: "returns (call_user close_transport (on_closed (callbacks g)) () CbClosed (set_state SSE_STATE_CLOSED u))
      (\<lambda>s'. client_inv T g s' \<and> ran s s' \<and> state (cl s') = SSE_STATE_CLOSED)"
    if u: "client_inv T g u" "cl u = (cl s)\<lparr>transport_open := False\<rparr>"
      "trace u = trace s @ (if transport_open (cl s) then [TClose] else [])" for u
  proof -
    let ?u = "set_state SSE_STATE_CLOSED u"
    have inv_u: "client_inv T g ?u"
      using u(1,2) by (auto simp: client_inv_def obs_ok_def)
    have end_u: "cl ?u = ended (cl s)" using u(2) by (simp add: ended_def)
    show ?thesis
    proof (cases "on_closed (callbacks g)")
      case None
      then have "shut s ?u"
        using False end_u u(3) inv by (simp add: shut_def closing_obs_def cfg_simps client_inv_def)
      then show ?thesis using None inv_u by (simp add: call_user_def shut_ran)
    next
      case (Some f)
      let ?v = "note_obs CbClosed ?u"
      have shut: "shut s ?v"
        using Some False end_u u(3) inv by (simp add: shut_def closing_obs_def cfg_simps client_inv_def)
      have "obs_ok ?v" "T (transport_open (cl ?v)) (env ?v)"
        using u(1,2) False by (auto simp: client_inv_def obs_ok_def foldM_append)
      then have inv_v: "client_inv T g ?v" using inv_u by (simp add: client_inv_def)
      have J_v: "?J ?v" using end_u by simp
      have "script_ok T (transport_open (cl ?v)) (f (env ?u) ())"
        using callbacks Some inv_u by (auto simp: callbacks_ok_def callback_ok_def callback_at_def client_inv_def)
      then have "returns (run_script close_transport (f (env ?u) ()) ?v) (\<lambda>(r, s'). client_inv T g s' \<and> ran ?v s')"
        using J J_v inv_v
        by (intro run_script_ok [where J = ?J]) (auto simp: close_transport_def)
      then show ?thesis
        using Some J_v J [of ?v] ran_trans [OF shut_ran [OF shut]]
        by (auto simp: call_user_def elim!: returns_mono)
    qed
  qed
  show ?thesis
    using close_transport_ok [OF inv] rest False inv
    by (auto simp: to_closed_def Let_def cfg_simps client_inv_def elim!: returns_mono)
qed

lemma run_user_ok:
  assumes "client_inv T g s" and "script_ok T (transport_open (cl s)) sc"
  shows "returns (run_script to_closed sc s) (\<lambda>(r, s'). client_inv T g s' \<and> ran s s')"
proof (rule run_script_ok [where J = "\<lambda>_. True"])
  show "returns (to_closed s) (\<lambda>s'. client_inv T g s' \<and> ran s s' \<and> \<not> transport_open (cl s'))"
    if "client_inv T g s" for s
    using to_closed_ok [OF that] by (auto simp: client_inv_def elim!: returns_mono)
qed (use assms in auto)

lemma call_user_ok:
  assumes "client_inv T g s" and "state (cl s) \<noteq> SSE_STATE_CLOSED" and "callback_at T f x"
    and "obs_step ob (transport_open (cl s), False) = Some (transport_open (cl s), False)"
  shows "returns (call_user to_closed f x ob s) (\<lambda>s'. client_inv T g s' \<and> ran (noted f ob s) s')"
proof (cases f)
  case None
  then show ?thesis using assms by (simp add: call_user_def noted_def)
next
  case (Some h)
  have inv: "client_inv T g (note_obs ob s)" using assms client_inv_note by blast
  moreover have "script_ok T (transport_open (cl (note_obs ob s))) (h (env s) x)"
    using assms(1,3) Some by (simp add: callback_at_def client_inv_def)
  ultimately have "returns (run_script to_closed (h (env s) x) (note_obs ob s))
      (\<lambda>(r, s'). client_inv T g s' \<and> ran (note_obs ob s) s')"
    by (rule run_user_ok)
  then show ?thesis using Some by (auto simp: call_user_def noted_def elim!: returns_mono)
qed

section \<open>The bridge honours the parser's callback contract\<close>

lemma settled_note:
  assumes "settled T g s" and "state (cl s) = SSE_STATE_OPEN"
    and "obs_step ob (True, False) = Some (True, False)"
  shows "settled T g (noted f ob s)"
  using assms client_inv_note [of s ob] by (auto simp: settled_def noted_def)

lemma call_user_settled:
  assumes "settled T g s" and "state (cl s) = SSE_STATE_OPEN" and "callback_at T f x"
    and "obs_step ob (True, False) = Some (True, False)"
  shows "returns (call_user to_closed f x ob s) (\<lambda>s'. settled T g s' \<and> ran (noted f ob s) s')"
proof -
  have "returns (call_user to_closed f x ob s) (\<lambda>s'. client_inv T g s' \<and> ran (noted f ob s) s')"
    using assms by (intro call_user_ok) (auto simp: settled_def)
  then show ?thesis
    using settled_ran [OF settled_note [OF assms(1,2,4)], of f]
    by (auto simp: client_inv_def elim!: returns_mono)
qed

lemma settled_upd:
  assumes "settled T g s" and "base_inv g (f (cl s))"
    and "transport_open (f (cl s)) = transport_open (cl s)" and "state (f (cl s)) = state (cl s)"
  shows "settled T g (upd f s)"
  using assms by (auto simp: settled_def client_inv_def obs_ok_def)

lemma settled_base: "settled T g s \<Longrightarrow> base_inv g (cl s)"
  by (simp add: settled_def client_inv_def)

text \<open>What the bridge does while the connection is open, up to the user callbacks' own moves.\<close>

lemma message_of_wf:
  assumes "settled T g s" and "event_wf ev"
  shows "message_wf (message_of s ev)"
proof -
  have inv: "id_inv (cl s)" using settled_base [OF assms(1)] by (simp add: base_inv_def)
  have "returns (c_str (bytes_of ''message'' @ [0])) (\<lambda>s. s \<noteq> [] \<and> text_bytes s)" by code_simp
  then have "returns (c_str (msg_event (message_of s ev))) (\<lambda>s. s \<noteq> [] \<and> text_bytes s)"
    using assms(2) by (auto simp: message_of_def event_wf_def split: option.split)
  moreover have "returns (c_str (last_event_id (cl s))) text_bytes"
    using inv by (simp add: last_id_str) (simp add: id_inv_def)
  ultimately show ?thesis using assms(2) by (simp add: message_wf_def message_of_def event_wf_def)
qed

lemma bridge_on_event_ok:
  assumes "settled T g s" and ev: "event_wf ev"
  shows "returns (bridge_on_event s ev) (settled T g)"
proof (cases "state (cl s) = SSE_STATE_OPEN")
  case True
  let ?s = "upd (\<lambda>c. c\<lparr>attempts := 0\<rparr>) s"
  have s: "settled T g ?s" using assms(1) by (intro settled_upd) (auto simp: settled_base)
  have "returns (call_user to_closed (on_message (callbacks g)) (message_of ?s ev) (CbMessage (message_of ?s ev)) ?s)
      (\<lambda>s'. settled T g s' \<and> ran (noted (on_message (callbacks g)) (CbMessage (message_of ?s ev)) ?s) s')"
    using s True callbacks message_of_wf [OF s ev] by (intro call_user_settled) (auto simp: callbacks_ok_def)
  then show ?thesis
    using True settled_base [OF assms(1)]
    by (auto simp: bridge_on_event_def Let_def cfg_simps elim!: returns_mono)
next
  case False
  then show ?thesis using assms by (simp add: bridge_on_event_def)
qed

lemma bridge_on_id_ok:
  assumes "settled T g s" and "id_wf (SSE_CLIENT_ID_MAX + 1) x"
  shows "returns (bridge_on_id s x) (settled T g)"
proof -
  obtain m n where x: "x = (m, n)" by (cases x)
  let ?f = "\<lambda>c. c\<lparr>last_event_id := take (n + 1) m @ drop (n + 1) (last_event_id (cl s)), last_event_id_len := n\<rparr>"
  have id: "id_inv (cl s)" using settled_base [OF assms(1)] by (simp add: base_inv_def)
  have wf: "n < SSE_CLIENT_ID_MAX + 1" "n < length m" "m ! n = 0" "text_bytes (take n m)"
    using assms(2) by (auto simp: id_wf_def x terminated_def)
  then have "id_inv (?f (cl s))"
    using id by (auto simp: id_inv_def terminated_def nth_append)
  then have "base_inv g (?f (cl s))"
    using settled_base [OF assms(1)] by (simp add: base_inv_def config_inv_def)
  then have "settled T g (upd ?f s)" using assms(1) by (intro settled_upd) auto
  then show ?thesis
    using wf id assms(1) by (auto simp: bridge_on_id_def x id_inv_def)
qed

lemma bridge_on_retry_ok: "settled T g s \<Longrightarrow> returns (bridge_on_retry s ms) (settled T g)"
  by (auto simp: bridge_on_retry_def settled_base intro!: settled_upd)

lemma bridge_on_perr_ok:
  assumes "settled T g s"
  shows "returns (bridge_on_perr s err) (settled T g)"
proof -
  have "returns (call_user to_closed (on_error (callbacks g)) e (CbError e) s) (settled T g)"
    if "state (cl s) = SSE_STATE_OPEN" for e
  proof -
    have "returns (call_user to_closed (on_error (callbacks g)) e (CbError e) s)
        (\<lambda>s'. settled T g s' \<and> ran (noted (on_error (callbacks g)) (CbError e) s) s')"
      using assms that callbacks by (intro call_user_settled) (auto simp: callbacks_ok_def callback_ok_def)
    then show ?thesis by (auto elim!: returns_mono)
  qed
  then show ?thesis
    using assms settled_base [OF assms]
    by (auto simp: bridge_on_perr_def Let_def cfg_simps split: option.split)
qed

end

sublocale client_env \<subseteq> bridge: parser_callbacks bridge "settled T g" "SSE_CLIENT_ID_MAX + 1"
  by unfold_locales
     (simp_all add: bridge_def bridge_on_event_ok bridge_on_id_ok bridge_on_retry_ok bridge_on_perr_ok)

context client_env
begin

lemma client_feed_ok:
  assumes "settled T g s" and "len \<le> length chunk"
  shows "returns (client_feed chunk len s) (settled T g)"
proof -
  let ?K = "(buf_data_len (buffers g), buf_id_len (buffers g), buf_event_len (buffers g))"
  have "bridge.sys_ok ?K (parser (cl s), s)"
    unfolding bridge.sys_ok_def using assms(1) settled_base [OF assms(1)] config_valid
    by (auto simp: base_inv_def config_inv_def client_config_valid_def)
  then have "returns (sse_parser_feed bridge chunk len (parser (cl s), s)) (bridge.sys_ok ?K)"
    using assms(2) by (rule bridge.feed_ok)
  moreover have "settled T g (upd (\<lambda>c. c\<lparr>parser := p\<rparr>) s')" if "bridge.sys_ok ?K (p, s')" for p s'
    using that unfolding bridge.sys_ok_def by (intro settled_upd)
      (auto simp: base_inv_def config_inv_def id_inv_def settled_def client_inv_def)
  ultimately show ?thesis by (auto simp: client_feed_def elim!: returns_mono)
qed

end

end
