(* ===== verification/Sse_Client_Conn.thy ===== *)
theory Sse_Client_Conn
  imports Sse_Client_Safety
begin

text \<open>
  The connection state machine: what a failed connection, a connection attempt
  and a poll do to the client, up to what the user's callbacks do themselves
  (\<open>ran\<close>, \<open>shut\<close>), and that all of them keep the client \<open>settled\<close>.
\<close>

section \<open>The pseudo-random generator never reaches zero\<close>

lemma xor_zero: "x XOR y = 0 \<Longrightarrow> x = y" for x y :: u32
  by (simp add: bit_eq_iff bit_xor_iff)

lemma shift_xor_zero:
  fixes x :: u32
  assumes "x XOR push_bit n x = 0" and "0 < n"
  shows "x = 0"
proof -
  have "x = push_bit n x" using assms(1) by (rule xor_zero)
  have "\<not> bit x k" for k
  proof (induction k rule: less_induct)
    case (less k)
    show ?case
    proof
      assume "bit x k"
      then have "bit (push_bit n x) k" using \<open>x = push_bit n x\<close> by simp
      then have "n \<le> k" "bit x (k - n)" by (simp_all add: bit_push_bit_iff)
      then show False using less [of "k - n"] assms(2) by simp
    qed
  qed
  then show ?thesis by (simp add: bit_eq_iff)
qed

lemma shift_down_xor_zero:
  fixes x :: u32
  assumes "x XOR drop_bit n x = 0" and "0 < n"
  shows "x = 0"
proof -
  have eq: "x = drop_bit n x" using assms(1) by (rule xor_zero)
  have "\<not> bit x (32 - k)" if "k \<le> 32" for k
    using that
  proof (induction k rule: less_induct)
    case (less k)
    show ?case
    proof
      assume "bit x (32 - k)"
      then have "bit (drop_bit n x) (32 - k)" by (subst (asm) eq)
      then have b: "bit x (32 - k + n)" by (simp add: bit_drop_bit_eq add.commute)
      then have "32 - k + n < 32" using bit_imp_le_length [of x "32 - k + n"] by simp
      then have "32 - (k - n) = 32 - k + n" "k - n < k" using less.prems assms(2) by auto
      then show False using less.IH [of "k - n"] less.prems b by simp
    qed
  qed
  then have "\<not> bit x j" if "j < 32" for j using that by (metis diff_diff_cancel diff_le_self less_imp_le)
  then show ?thesis by (intro bit_word_eqI) simp
qed

lemma xorshift_nonzero:
  assumes "x \<noteq> 0"
  shows "xorshift x \<noteq> 0"
proof
  assume "xorshift x = 0"
  then have "(let x1 = x XOR push_bit 13 x in x1 XOR drop_bit 17 x1) = 0"
    unfolding xorshift_def Let_def by (rule shift_xor_zero) simp
  then have "x XOR push_bit 13 x = 0"
    unfolding Let_def by (rule shift_down_xor_zero) simp
  then have "x = 0" by (rule shift_xor_zero) simp
  then show False using assms by simp
qed

lemma prng_next_nonzero [simp]: "prng_next x \<noteq> 0"
  by (simp add: prng_next_def Let_def)


section \<open>Outcomes\<close>

definition error_of :: "sse_error_reason \<Rightarrow> i32 \<Rightarrow> bool \<Rightarrow> u32 \<Rightarrow> sse_error" where
  "error_of reason status retry delay =
     \<lparr>err_reason = reason, err_http_status = status, err_will_retry = retry, err_retry_in_ms = delay\<rparr>"

text \<open>The client once a retry is scheduled at time \<open>now\<close>.\<close>

definition waiting_client :: "i32 \<Rightarrow> u32 \<Rightarrow> 'w sse_client \<Rightarrow> 'w sse_client" where
  "waiting_client retry_after now c =
     c\<lparr>prng := snd (retry_delay c retry_after), attempts := attempts c + 1,
       retry_deadline := now + fst (retry_delay c retry_after), state := SSE_STATE_WAITING_RETRY\<rparr>"

text \<open>The transport closed, if it was open.\<close>

definition dropped :: "'w sys \<Rightarrow> 'w sys" where
  "dropped s = s\<lparr>cl := (cl s)\<lparr>transport_open := False\<rparr>,
     trace := trace s @ (if transport_open (cl s) then [TClose] else [])\<rparr>"

lemma dropped_simps [simp]:
  "cl (dropped s) = (cl s)\<lparr>transport_open := False\<rparr>" "env (dropped s) = env s"
  by (simp_all add: dropped_def)

definition same_but_env :: "'w sys \<Rightarrow> 'w sys \<Rightarrow> bool" where
  "same_but_env s s' \<longleftrightarrow> cl s' = cl s \<and> trace s' = trace s"

text \<open>
  A failed connection: the transport is closed; the policy hook, if set, decides
  and may close the client itself; otherwise the client gives up, reporting a
  final error, or reports a retry and waits.
\<close>

definition decided :: "sse_error_reason \<Rightarrow> i32 \<Rightarrow> i32 \<Rightarrow> 'w sys \<Rightarrow> bool \<Rightarrow> 'w sys \<Rightarrow> bool" where
  "decided reason status ra s retry u \<longleftrightarrow>
     (let d = default_should_retry reason status ra in
      if reconnect_policy (cfg (cl s)) = None then same_but_env s u \<and> retry = d
      else ran (note_obs (CbPolicy (error_of reason status d 0)) s) u)"

definition gave_up :: "sse_error_reason \<Rightarrow> i32 \<Rightarrow> 'w sys \<Rightarrow> 'w sys \<Rightarrow> bool" where
  "gave_up reason status u s' \<longleftrightarrow>
     shut (noted (on_error (callbacks (cfg (cl u)))) (CbError (error_of reason status False 0)) u) s'"

definition will_retry :: "sse_error_reason \<Rightarrow> i32 \<Rightarrow> i32 \<Rightarrow> 'w sys \<Rightarrow> 'w sys \<Rightarrow> bool" where
  "will_retry reason status ra u s' \<longleftrightarrow> (\<exists>now.
     ran (noted (on_error (callbacks (cfg (cl u))))
            (CbError (error_of reason status True (fst (retry_delay (cl u) ra))))
            (u\<lparr>cl := waiting_client ra now (cl u)\<rparr>)) s')"

definition failed :: "sse_error_reason \<Rightarrow> i32 \<Rightarrow> i32 \<Rightarrow> 'w sys \<Rightarrow> 'w sys \<Rightarrow> bool" where
  "failed reason status ra s s' \<longleftrightarrow> (\<exists>retry u. decided reason status ra (dropped s) retry u \<and>
     (if state (cl u) = SSE_STATE_CLOSED then s' = u
      else if \<not> retry then gave_up reason status u s'
      else will_retry reason status ra u s'))"

lemma ran_env: "ran (s\<lparr>env := w\<rparr>) s' = ran s s'"
  by (simp add: ran_def kept_def shut_def)

lemma noted_env: "noted f ob (s\<lparr>env := w\<rparr>) = (noted f ob s)\<lparr>env := w\<rparr>"
  by (simp add: noted_def note_obs_def)

lemma noted_set_cl: "noted f ob (s\<lparr>cl := c\<rparr>) = (noted f ob s)\<lparr>cl := c\<rparr>"
  by (simp add: noted_def note_obs_def)

lemma decided_env: "decided reason status ra (s\<lparr>env := w\<rparr>) = decided reason status ra s"
  by (auto simp: fun_eq_iff decided_def same_but_env_def Let_def ran_def kept_def shut_def)

lemma dropped_env: "dropped (s\<lparr>env := w\<rparr>) = (dropped s)\<lparr>env := w\<rparr>"
  by (simp add: dropped_def)

lemma failed_env: "failed reason status ra (s\<lparr>env := w\<rparr>) = failed reason status ra s"
  by (simp add: fun_eq_iff failed_def dropped_env decided_env)

lemma retry_delay_nonzero: "prng c \<noteq> 0 \<Longrightarrow> snd (retry_delay c ra) \<noteq> 0"
  by (simp add: retry_delay_def Let_def)

lemma waiting_simps [simp]:
  "state (waiting_client ra now c) = SSE_STATE_WAITING_RETRY"
  "transport_open (waiting_client ra now c) = transport_open c"
  "cfg (waiting_client ra now c) = cfg c"
  "base_inv g c \<Longrightarrow> base_inv g (waiting_client ra now c)"
  by (simp_all add: waiting_client_def base_inv_def config_inv_def id_inv_def retry_delay_nonzero)

lemma shut_if_closed:
  "ran s s' \<Longrightarrow> state (cl s) \<noteq> SSE_STATE_CLOSED \<Longrightarrow> state (cl s') = SSE_STATE_CLOSED \<Longrightarrow> shut s s'"
  by (auto simp: ran_def kept_def)

context client_env
begin

lemma clock_reading:
  assumes "client_inv T g s"
  shows "\<exists>now w. read_clock s = Some (now, s\<lparr>env := w\<rparr>) \<and> T (transport_open (cl s)) w"
proof -
  obtain fn where fn: "now_ms g = Some fn" using valid_functions by blast
  have "T (transport_open (cl s)) (snd (fn (env s)))"
    using clock_ok [OF fn] assms by (simp add: client_inv_def)
  moreover have "now_ms (cfg (cl s)) = Some fn"
    using fn assms by (simp add: client_inv_def cfg_simps)
  ultimately show ?thesis by (auto simp: read_clock_def split_beta)
qed

lemma schedule_retry_ok:
  assumes inv: "client_inv T g s" and closed: "\<not> transport_open (cl s)"
    and st: "state (cl s) \<noteq> SSE_STATE_CLOSED"
  shows "returns (schedule_retry reason status ra s)
           (\<lambda>s'. settled T g s' \<and> will_retry reason status ra s s')"
proof -
  let ?x = "upd (\<lambda>c. c\<lparr>prng := snd (retry_delay (cl s) ra), attempts := attempts c + 1\<rparr>) s"
  have x: "client_inv T g ?x"
    using inv by (auto simp: client_inv_def obs_ok_def base_inv_def config_inv_def id_inv_def retry_delay_nonzero)
  obtain now w where clk: "read_clock ?x = Some (now, ?x\<lparr>env := w\<rparr>)" "T False w"
    using clock_reading [OF x] closed by auto
  let ?e = "error_of reason status True (fst (retry_delay (cl s) ra))"
  let ?y = "s\<lparr>cl := waiting_client ra now (cl s), env := w\<rparr>"
  have y: "upd (\<lambda>c. c\<lparr>retry_deadline := now + fst (retry_delay (cl s) ra), state := SSE_STATE_WAITING_RETRY\<rparr>) (?x\<lparr>env := w\<rparr>) = ?y"
    by (simp add: upd_def waiting_client_def)
  have inv_y: "client_inv T g ?y"
    using inv closed clk(2) st by (auto simp: client_inv_def obs_ok_def)
  have run: "schedule_retry reason status ra s =
      call_user to_closed (on_error (callbacks (cfg (cl ?y)))) ?e (CbError ?e) ?y"
    using clk(1) y by (simp add: schedule_retry_def split_beta Let_def error_of_def)
  have cb: "callbacks (cfg (cl s)) = callbacks g" using inv by (simp add: client_inv_def cfg_simps)
  have "returns (call_user to_closed (on_error (callbacks g)) ?e (CbError ?e) ?y)
      (\<lambda>s'. client_inv T g s' \<and> ran (noted (on_error (callbacks g)) (CbError ?e) ?y) s')"
    using inv_y callbacks closed by (intro call_user_ok) (auto simp: callbacks_ok_def callback_ok_def)
  moreover have "settled T g s' \<and> will_retry reason status ra s s'"
    if "client_inv T g s' \<and> ran (noted (on_error (callbacks g)) (CbError ?e) ?y) s'" for s'
    using that closed
    by (auto simp: settled_def will_retry_def cb noted_env ran_env ran_def kept_def shut_def)
  ultimately show ?thesis by (auto simp: run cb elim!: returns_mono)
qed

lemma give_up_ok:
  assumes inv: "client_inv T g s" and closed: "\<not> transport_open (cl s)"
    and st: "state (cl s) \<noteq> SSE_STATE_CLOSED"
  shows "returns (give_up reason status s) (\<lambda>s'. settled T g s' \<and> gave_up reason status s s')"
proof -
  let ?e = "error_of reason status False 0"
  let ?n = "noted (on_error (callbacks g)) (CbError ?e) s"
  have cb: "callbacks (cfg (cl s)) = callbacks g" using inv by (simp add: client_inv_def cfg_simps)
  have run: "give_up reason status s = call_user to_closed (on_error (callbacks g)) ?e (CbError ?e) s \<bind> to_closed"
    by (simp add: give_up_def error_of_def cb Let_def)
  have "returns (call_user to_closed (on_error (callbacks g)) ?e (CbError ?e) s) (\<lambda>s'. client_inv T g s' \<and> ran ?n s')"
    using inv st callbacks closed by (intro call_user_ok) (auto simp: callbacks_ok_def callback_ok_def)
  moreover have "returns (to_closed u) (\<lambda>s'. settled T g s' \<and> gave_up reason status s s')"
    if "client_inv T g u \<and> ran ?n u" for u
  proof -
    have "shut ?n s'" if "ran u s'" "state (cl s') = SSE_STATE_CLOSED" for s'
      using shut_if_closed [of ?n s'] that \<open>client_inv T g u \<and> ran ?n u\<close> ran_trans st by auto
    moreover have "settled T g s'" if "client_inv T g s'" "state (cl s') = SSE_STATE_CLOSED" for s'
      using that by (auto simp: settled_def client_inv_def)
    ultimately show ?thesis
      using to_closed_ok [of u] that by (auto simp: gave_up_def cb elim!: returns_mono)
  qed
  ultimately show ?thesis unfolding run by (auto elim!: returns_mono)
qed

lemma decide_retry_ok:
  assumes inv: "client_inv T g s" and closed: "\<not> transport_open (cl s)"
    and st: "state (cl s) \<noteq> SSE_STATE_CLOSED"
  shows "returns (decide_retry reason status ra s)
           (\<lambda>(retry, u). client_inv T g u \<and> decided reason status ra s retry u)"
proof -
  let ?d = "default_should_retry reason status ra"
  let ?e = "error_of reason status ?d 0"
  have pol: "reconnect_policy (cfg (cl s)) = reconnect_policy g" using inv by (simp add: client_inv_def cfg_simps)
  show ?thesis
  proof (cases "reconnect_policy g")
    case None
    then show ?thesis using inv by (simp add: decide_retry_def decided_def pol same_but_env_def)
  next
    case (Some f)
    have "client_inv T g (note_obs (CbPolicy ?e) s)" using inv closed st by (intro client_inv_note) auto
    moreover have "script_ok T (transport_open (cl (note_obs (CbPolicy ?e) s))) (f (env s) ?e)"
      using inv callbacks Some by (simp add: callbacks_ok_def callback_ok_def callback_at_def client_inv_def)
    ultimately have "returns (run_script to_closed (f (env s) ?e) (note_obs (CbPolicy ?e) s))
        (\<lambda>(r, u). client_inv T g u \<and> ran (note_obs (CbPolicy ?e) s) u)"
      by (rule run_user_ok)
    then show ?thesis
      using Some by (auto simp: decide_retry_def decided_def pol error_of_def Let_def elim!: returns_mono)
  qed
qed

lemma decided_keeps:
  assumes "decided reason status ra s retry u" and "\<not> transport_open (cl s)"
  shows "\<not> transport_open (cl u)"
    "reconnect_policy (cfg (cl u)) = reconnect_policy (cfg (cl s))"
    "reconnect_policy (cfg (cl s)) = None \<Longrightarrow> state (cl u) = state (cl s)"
  using assms by (auto simp: decided_def same_but_env_def Let_def ran_def kept_def shut_def
      asked_def ended_def split: if_splits)

lemma fail_conn_ok:
  assumes inv: "client_inv T g s" and st: "state (cl s) \<noteq> SSE_STATE_CLOSED"
  shows "returns (fail_conn reason status ra s) (\<lambda>s'. settled T g s' \<and> failed reason status ra s s')"
proof -
  have rest: "returns (do {
       (retry, v) \<leftarrow> decide_retry reason status ra u;
       if reconnect_policy (cfg (cl v)) \<noteq> None \<and> state (cl v) = SSE_STATE_CLOSED then Some v
       else if \<not> retry then give_up reason status v
       else schedule_retry reason status ra v }) (\<lambda>s'. settled T g s' \<and> failed reason status ra s s')"
    if u: "client_inv T g u" "same_but_env (dropped s) u" for u
  proof -
    have cu: "\<not> transport_open (cl u)" "state (cl u) \<noteq> SSE_STATE_CLOSED"
      using u(2) st by (auto simp: same_but_env_def)
    have "returns (if reconnect_policy (cfg (cl v)) \<noteq> None \<and> state (cl v) = SSE_STATE_CLOSED then Some v
       else if \<not> retry then give_up reason status v
       else schedule_retry reason status ra v) (\<lambda>s'. settled T g s' \<and> failed reason status ra s s')"
      if v: "client_inv T g v" "decided reason status ra u retry v" for retry v
    proof -
      note kv = decided_keeps [OF v(2) cu(1)]
      have dec: "decided reason status ra (dropped s) retry v"
        using v(2) u(2) by (auto simp: decided_def same_but_env_def Let_def ran_def kept_def shut_def split: if_splits)
      have sv: "settled T g v" if "state (cl v) = SSE_STATE_CLOSED"
        using v(1) that by (auto simp: settled_def client_inv_def)
      have result: "failed reason status ra s s'"
        if "if state (cl v) = SSE_STATE_CLOSED then s' = v
            else if \<not> retry then gave_up reason status v s' else will_retry reason status ra v s'" for s'
        unfolding failed_def using dec that by blast
      show ?thesis
      proof (cases "state (cl v) = SSE_STATE_CLOSED")
        case True
        then have "reconnect_policy (cfg (cl v)) \<noteq> None" using kv cu by auto
        then show ?thesis using True sv result by simp
      next
        case False
        then show ?thesis
          using returns_mono [OF give_up_ok [OF v(1) kv(1) False, of reason status]] result
            returns_mono [OF schedule_retry_ok [OF v(1) kv(1) False, of reason status ra]]
          by simp
      qed
    qed
    then show ?thesis
      using decide_retry_ok [OF u(1) cu, of reason status ra] by (auto elim!: returns_mono)
  qed
  show ?thesis
    unfolding fail_conn_def returns_bind
  proof (rule returns_mono [OF close_transport_ok [OF inv]], elim conjE)
    fix u
    assume u: "client_inv T g u" "cl u = (cl s)\<lparr>transport_open := False\<rparr>"
      "trace u = trace s @ (if transport_open (cl s) then [TClose] else [])"
    have "same_but_env (dropped s) u" using u(2,3) by (simp add: same_but_env_def dropped_def)
    from rest [OF u(1) this] show "returns (decide_retry reason status ra u)
        (\<lambda>x. returns (case x of (retry, s) \<Rightarrow>
           if reconnect_policy (cfg (cl s)) \<noteq> None \<and> state (cl s) = SSE_STATE_CLOSED then Some s
           else if \<not> retry then give_up reason status s
           else schedule_retry reason status ra s) (\<lambda>s'. settled T g s' \<and> failed reason status ra s s'))"
      by (simp only: returns_bind)
  qed
qed

end

section \<open>Connection attempts\<close>

lemma ct_match_spec:
  "length ws < length cs \<Longrightarrow> ct_match ws cs =
     Some (map lower (take (length ws) cs) = ws \<and> cs ! length ws \<in> {0, 59, 32})"
  by (induction ws cs rule: ct_match.induct) auto

lemma ct_is_event_stream_run:
  assumes "info_wf i"
  shows "ct_is_event_stream (content_type i) =
    Some (map lower (take 17 (content_type i)) = bytes_of ''text/event-stream'' \<and>
          content_type i ! 17 \<in> {0, 59, 32})"
proof -
  have "length (bytes_of ''text/event-stream'') = 17" by (simp add: bytes_of_def)
  then show ?thesis
    using assms ct_match_spec [of "bytes_of ''text/event-stream''" "content_type i"]
    by (simp add: ct_is_event_stream_def info_wf_def)
qed

definition accepts :: "'w sse_client_config \<Rightarrow> sse_response_info \<Rightarrow> bool" where
  "accepts g i \<longleftrightarrow> status_code i = 200 \<and>
     (skip_content_type_check g \<or> ct_is_event_stream (content_type i) = Some True)"

definition refusal :: "sse_response_info \<Rightarrow> sse_error_reason \<times> i32 \<times> i32" where
  "refusal i =
     (if status_code i = 204 then (SSE_ERR_SERVER_STOP, 204, -1)
      else if status_code i \<noteq> 200 then (SSE_ERR_HTTP_STATUS, status_code i, retry_after_s i)
      else (SSE_ERR_BAD_CONTENT_TYPE, status_code i, -1))"

definition open_client :: "u32 \<Rightarrow> 'w sse_client \<Rightarrow> 'w sse_client" where
  "open_client now c = c\<lparr>parser := sse_parser_reset (parser c), last_rx_ms := now, state := SSE_STATE_OPEN\<rparr>"

definition opened :: "'w sys \<Rightarrow> 'w sys \<Rightarrow> bool" where
  "opened s s' \<longleftrightarrow> (\<exists>now.
     ran (noted (on_open (callbacks (cfg (cl s)))) (CbOpen (attempts (cl s)))
            (s\<lparr>cl := open_client now (cl s)\<rparr>)) s')"

definition responded :: "sse_response_info \<Rightarrow> 'w sys \<Rightarrow> 'w sys \<Rightarrow> bool" where
  "responded i s s' \<longleftrightarrow>
     (if accepts (cfg (cl s)) i then opened s s'
      else (case refusal i of (reason, status, ra) \<Rightarrow> failed reason status ra s s'))"

lemma ran_noted_env:
  "ran (noted f ob (s\<lparr>env := w, cl := c\<rparr>)) s' = ran (noted f ob (s\<lparr>cl := c\<rparr>)) s'"
  by (simp add: noted_def note_obs_def ran_def kept_def shut_def)

lemma responded_env: "responded i (s\<lparr>env := w\<rparr>) = responded i s"
  by (auto simp: fun_eq_iff responded_def opened_def failed_env ran_noted_env split_beta)

text \<open>The client and the history right after \<open>open\<close> returned.\<close>

definition after_open :: "sse_request \<Rightarrow> bytes \<Rightarrow> bool \<Rightarrow> 'w sys \<Rightarrow> 'w sys" where
  "after_open req m ok s =
     s\<lparr>cl := (cl s)\<lparr>state := SSE_STATE_CONNECTING, id_header := m, headers := req_headers req,
                    transport_open := ok\<rparr>,
       trace := trace s @ [TOpen req ok]\<rparr>"

definition attempted :: "'w sys \<Rightarrow> 'w sys \<Rightarrow> bool" where
  "attempted s s' \<longleftrightarrow> (\<exists>req m ok i.
     url (cfg (cl s)) = Some (req_url req) \<and> null_terminated (req_headers req) (header_list (cl s)) \<and>
     (if ok then responded i (after_open req m True s) s'
      else failed SSE_ERR_TRANSPORT 0 (-1) (after_open req m False s) s'))"

lemma open_client_simps [simp]:
  "state (open_client now c) = SSE_STATE_OPEN" "transport_open (open_client now c) = transport_open c"
  "cfg (open_client now c) = cfg c"
  "base_inv g c \<Longrightarrow> base_inv g (open_client now c)"
  by (auto simp: open_client_def base_inv_def config_inv_def id_inv_def parser_inv_reset)

context client_env
begin

lemma enter_open_ok:
  assumes inv: "client_inv T g s" and open_tr: "transport_open (cl s)"
    and st: "state (cl s) \<noteq> SSE_STATE_CLOSED"
  shows "returns (enter_open s) (\<lambda>s'. settled T g s' \<and> opened s s')"
proof -
  let ?x = "upd (\<lambda>c. c\<lparr>parser := sse_parser_reset (parser c)\<rparr>) s"
  have x: "client_inv T g ?x"
    using inv by (auto simp: client_inv_def obs_ok_def base_inv_def config_inv_def id_inv_def parser_inv_reset)
  obtain now w where clk: "read_clock ?x = Some (now, ?x\<lparr>env := w\<rparr>)" "T True w"
    using clock_reading [OF x] open_tr by auto
  let ?y = "s\<lparr>cl := open_client now (cl s), env := w\<rparr>"
  have y: "upd (\<lambda>c. c\<lparr>last_rx_ms := now, state := SSE_STATE_OPEN\<rparr>) (?x\<lparr>env := w\<rparr>) = ?y"
    by (simp add: upd_def open_client_def)
  have cb: "callbacks (cfg (cl s)) = callbacks g" using inv by (simp add: client_inv_def cfg_simps)
  have at: "attempts (open_client now (cl s)) = attempts (cl s)" by (simp add: open_client_def)
  have set_y: "settled T g ?y"
    using inv open_tr st clk(2) by (auto simp: settled_def client_inv_def obs_ok_def)
  let ?ob = "CbOpen (attempts (cl s))"
  have "enter_open s = call_user to_closed (on_open (callbacks g)) (attempts (cl s)) ?ob ?y"
    using clk(1) y by (simp add: enter_open_def split_beta Let_def cb at)
  moreover have "returns (call_user to_closed (on_open (callbacks g)) (attempts (cl s)) ?ob ?y)
      (\<lambda>s'. settled T g s' \<and> ran (noted (on_open (callbacks g)) ?ob ?y) s')"
    using set_y callbacks by (intro call_user_settled) (auto simp: callbacks_ok_def callback_ok_def)
  ultimately show ?thesis
    by (auto simp: opened_def cb noted_env ran_env elim!: returns_mono)
qed

lemma check_response_ok:
  assumes inv: "client_inv T g s" and open_tr: "transport_open (cl s)"
    and st: "state (cl s) \<noteq> SSE_STATE_CLOSED" and info: "info_wf i"
  shows "returns (check_response i s) (\<lambda>s'. settled T g s' \<and> responded i s s')"
  using fail_conn_ok [OF inv st] enter_open_ok [OF inv open_tr st] ct_is_event_stream_run [OF info]
  by (auto simp: check_response_def responded_def accepts_def refusal_def)

lemma do_connect_ok:
  assumes s: "settled T g s" and st: "state (cl s) \<noteq> SSE_STATE_CLOSED" "state (cl s) \<noteq> SSE_STATE_OPEN"
  shows "returns (do_connect s) (\<lambda>s'. settled T g s' \<and> attempted s s')"
proof -
  let ?c = "(cl s)\<lparr>state := SSE_STATE_CONNECTING\<rparr>"
  have base: "base_inv g ?c" using settled_base [OF s] by simp
  from build_headers_run [OF base config_valid] obtain m hs where bh:
    "build_headers ?c = Some (?c\<lparr>id_header := m, headers := hs\<rparr>)" "length m = SSE_CLIENT_ID_MAX + 32"
    "length hs = SSE_CLIENT_MAX_HEADERS + 1" "null_terminated hs (header_list ?c)" by blast
  obtain fo u where fo: "tr_open t = Some fo" "url g = Some u" using valid_functions by blast
  let ?req = "\<lparr>req_url = u, req_headers = hs\<rparr>"
  have closed: "\<not> transport_open (cl s)" "T False (env s)"
    using s st by (auto simp: settled_def client_inv_def)
  have cfgs: "url (cfg (cl s)) = Some u" "transport (cfg (cl s)) = Some t"
    using settled_base [OF s] fo(2) transport_is by (simp_all add: cfg_simps)
  have hl: "header_list ?c = header_list (cl s)" by (simp add: header_list_def)
  have run: "do_connect s = do {
      (r, i, w) \<leftarrow> fo (env s) ?req fresh_info;
      (let s = (after_open ?req m False s)\<lparr>env := w, trace := trace s @ [TOpen ?req (r = 0)]\<rparr> in
       if r \<noteq> 0 then fail_conn SSE_ERR_TRANSPORT 0 (-1) s
       else check_response i (upd (\<lambda>c. c\<lparr>transport_open := True\<rparr>) s)) }"
    using bh(1) fo(1) cfgs closed(1)
    by (cases "fo (env s) ?req fresh_info")
       (auto simp: do_connect_def Let_def after_open_def note_obs_def set_state_def upd_def)
  have base': "base_inv g ((cl s)\<lparr>state := SSE_STATE_CONNECTING, id_header := m, headers := hs, transport_open := v\<rparr>)" for v
    using base bh(2,3) by (simp add: base_inv_def config_inv_def id_inv_def)
  have inv': "client_inv T g ((after_open ?req m ok s)\<lparr>env := w\<rparr>)" if "T ok w" for ok w
    using s closed(1) that st base' by (auto simp: client_inv_def settled_def after_open_def obs_ok_def foldM_append)
  have fin: "returns (let s = (after_open ?req m False s)\<lparr>env := w, trace := trace s @ [TOpen ?req (r = 0)]\<rparr> in
       if r \<noteq> 0 then fail_conn SSE_ERR_TRANSPORT 0 (-1) s
       else check_response i (upd (\<lambda>c. c\<lparr>transport_open := True\<rparr>) s)) (\<lambda>s'. settled T g s' \<and> attempted s s')"
    if wi: "T (r = 0) w" "info_wf i" for r i w
  proof (cases "r = 0")
    case True
    have eq: "upd (\<lambda>c. c\<lparr>transport_open := True\<rparr>)
        ((after_open ?req m False s)\<lparr>env := w, trace := trace s @ [TOpen ?req True]\<rparr>) = (after_open ?req m True s)\<lparr>env := w\<rparr>"
      by (simp add: upd_def after_open_def)
    have "returns (check_response i ((after_open ?req m True s)\<lparr>env := w\<rparr>))
        (\<lambda>s'. settled T g s' \<and> responded i ((after_open ?req m True s)\<lparr>env := w\<rparr>) s')"
      using wi True inv' [of True w] by (intro check_response_ok) (auto simp: after_open_def)
    then show ?thesis
      using True bh(4) cfgs(1)
      by (auto simp: eq attempted_def hl responded_env intro!: exI [of _ ?req] elim!: returns_mono)
  next
    case False
    have eq: "(after_open ?req m False s)\<lparr>env := w, trace := trace s @ [TOpen ?req False]\<rparr> = (after_open ?req m False s)\<lparr>env := w\<rparr>"
      by (simp add: after_open_def)
    have "returns (fail_conn SSE_ERR_TRANSPORT 0 (-1) ((after_open ?req m False s)\<lparr>env := w\<rparr>))
        (\<lambda>s'. settled T g s' \<and> failed SSE_ERR_TRANSPORT 0 (-1) ((after_open ?req m False s)\<lparr>env := w\<rparr>) s')"
      using wi False inv' [of False w] by (intro fail_conn_ok) (auto simp: after_open_def)
    then show ?thesis
      using False bh(4) cfgs(1)
      by (auto simp: eq attempted_def hl failed_env intro!: exI [of _ ?req] elim!: returns_mono)
  qed
  have "info_wf fresh_info" by (simp add: info_wf_def fresh_info_def)
  from open_ok [OF fo(1) closed(2) this, of ?req "header_list ?c"] bh(4) show ?thesis
    unfolding run using fin by (auto elim!: returns_mono)
qed

end

section \<open>Polls\<close>

text \<open>The client and the history right after \<open>read\<close> returned.\<close>

definition after_read :: "i32 \<Rightarrow> bytes \<Rightarrow> bool \<Rightarrow> 'w sys \<Rightarrow> 'w sys" where
  "after_read r m stopped s =
     s\<lparr>cl := (cl s)\<lparr>cfg := (cfg (cl s))\<lparr>rx_buf := Some m\<rparr>,
                    stop_requested := (stop_requested (cl s) \<or> stopped)\<rparr>,
       trace := trace s @ [TRead r (rx_bytes (rx_buf_len (cfg (cl s))) r m)]\<rparr>"

lemma after_read_eq:
  "upd (\<lambda>c. c\<lparr>cfg := (cfg c)\<lparr>rx_buf := Some m\<rparr>, stop_requested := (stop_requested c \<or> stopped)\<rparr>)
     (note_obs (TRead r (rx_bytes (rx_buf_len (cfg (cl s))) r m)) (s\<lparr>env := w\<rparr>)) =
   (after_read r m stopped s)\<lparr>env := w\<rparr>"
  by (simp add: after_read_def upd_def note_obs_def)

text \<open>
  What becomes of a read: \<open>s\<close> is the state right after it, \<open>P\<close> what is known of the
  system when the bytes are fed to the parser.
\<close>

definition fed :: "('w sys \<Rightarrow> bool) \<Rightarrow> bytes \<Rightarrow> nat \<Rightarrow> 'w sys \<Rightarrow> 'w sys \<Rightarrow> bool" where
  "fed P m n s s' \<longleftrightarrow> (\<exists>now w. let u = s\<lparr>cl := (cl s)\<lparr>last_rx_ms := now\<rparr>, env := w\<rparr> in
     P u \<and> client_feed m n u = Some s')"

definition idled :: "u32 \<Rightarrow> 'w sys \<Rightarrow> u32 \<Rightarrow> 'w sys \<Rightarrow> bool" where
  "idled now s h s' \<longleftrightarrow>
     (let tmo = read_timeout_ms (cfg (cl s)); idle = idle_timeout_ms (cfg (cl s)) in
      if idle \<noteq> 0 \<and> idle \<le> now - last_rx_ms (cl s)
      then failed SSE_ERR_IDLE_TIMEOUT 0 (-1) s s' \<and> h = fst (hint tmo s')
      else same_but_env s s' \<and> h = tmo)"

definition received :: "('w sys \<Rightarrow> bool) \<Rightarrow> i32 \<Rightarrow> bytes \<Rightarrow> 'w sys \<Rightarrow> u32 \<Rightarrow> 'w sys \<Rightarrow> bool" where
  "received P r m s h s' \<longleftrightarrow>
     (if 0 < sint r \<and> unat r \<le> rx_buf_len (cfg (cl s)) then fed P m (unat r) s s' \<and> h = fst (hint 0 s')
      else if r = SSE_READ_TIMEOUT then (\<exists>now. idled now s h s')
      else failed SSE_ERR_TRANSPORT 0 (-1) s s' \<and> h = fst (hint 0 s'))"

definition read_poll :: "('w sys \<Rightarrow> bool) \<Rightarrow> 'w sys \<Rightarrow> u32 \<Rightarrow> 'w sys \<Rightarrow> bool" where
  "read_poll P s h s' \<longleftrightarrow> (\<exists>r m stopped. let u = after_read r m stopped s in
     if stop_requested (cl u) then shut u s' \<and> h = UINT32_MAX else received P r m u h s')"

lemma hint_eq: "hint n s = (fst (hint n s), s)"
  by (simp add: hint_def)

lemma sint_zero_read: "r = SSE_READ_TIMEOUT \<Longrightarrow> \<not> 0 < sint r"
  by (simp add: SSE_READ_TIMEOUT_def)

lemma received_env: "received P r m (s\<lparr>env := w\<rparr>) = received P r m s"
proof -
  have "fed P m n (s\<lparr>env := w\<rparr>) s' = fed P m n s s'" for n s' by (simp add: fed_def)
  moreover have "idled now (s\<lparr>env := w\<rparr>) h s' = idled now s h s'" for now h s'
    by (simp add: idled_def failed_env same_but_env_def)
  ultimately show ?thesis by (auto simp: fun_eq_iff received_def failed_env)
qed

lemma shut_env: "shut (s\<lparr>env := w\<rparr>) = shut s"
  by (simp add: fun_eq_iff shut_def)

context client_env
begin

lemma settled_env:
  "settled T g s \<Longrightarrow> T (transport_open (cl s)) w \<Longrightarrow> settled T g (s\<lparr>env := w\<rparr>)"
  by (auto intro: settled_ran)

lemma idle_ok:
  assumes s: "settled T g s" and st: "state (cl s) = SSE_STATE_OPEN"
  shows "returns (if idle_timeout_ms (cfg (cl s)) = 0 then Some (read_timeout_ms (cfg (cl s)), s)
         else do {
           (t, s) \<leftarrow> read_clock s;
           if t - last_rx_ms (cl s) \<ge> idle_timeout_ms (cfg (cl s)) then do {
             s \<leftarrow> fail_conn SSE_ERR_IDLE_TIMEOUT 0 (-1) s;
             Some (hint (read_timeout_ms (cfg (cl s))) s)
           }
           else Some (read_timeout_ms (cfg (cl s)), s)
         }) (\<lambda>(h, s'). settled T g s' \<and> (\<exists>now. idled now s h s'))"
proof -
  have inv: "client_inv T g s" using s by (simp add: settled_def)
  have cfg': "read_timeout_ms (cfg (cl s')) = read_timeout_ms (cfg (cl s))" if "settled T g s'" for s'
    using settled_base [OF s] settled_base [OF that] by (simp add: cfg_simps)
  obtain now w where clk: "read_clock s = Some (now, s\<lparr>env := w\<rparr>)" "T (transport_open (cl s)) w"
    using clock_reading [OF inv] by auto
  have inv': "settled T g (s\<lparr>env := w\<rparr>)" using settled_env [OF s clk(2)] .
  have "returns (fail_conn SSE_ERR_IDLE_TIMEOUT 0 (-1) (s\<lparr>env := w\<rparr>))
      (\<lambda>s'. settled T g s' \<and> failed SSE_ERR_IDLE_TIMEOUT 0 (-1) s s')"
    using fail_conn_ok [of "s\<lparr>env := w\<rparr>"] inv' st by (simp add: failed_env settled_def)
  moreover have "\<exists>now. idled now s (if state (cl s') = SSE_STATE_CLOSED then UINT32_MAX else read_timeout_ms (cfg (cl s'))) s'"
    if "settled T g s' \<and> failed SSE_ERR_IDLE_TIMEOUT 0 (-1) s s'" "idle_timeout_ms (cfg (cl s)) \<noteq> 0"
      "idle_timeout_ms (cfg (cl s)) \<le> now - last_rx_ms (cl s)" for s'
    using that cfg' by (intro exI [of _ now]) (simp add: idled_def Let_def hint_def)
  moreover have "idled now s (read_timeout_ms (cfg (cl s))) (s\<lparr>env := v\<rparr>)"
    if "idle_timeout_ms (cfg (cl s)) = 0 \<or> \<not> idle_timeout_ms (cfg (cl s)) \<le> now - last_rx_ms (cl s)" for v
    using that by (auto simp: idled_def same_but_env_def)
  moreover from this [of "env s"] have "idled now s (read_timeout_ms (cfg (cl s))) s" if "idle_timeout_ms (cfg (cl s)) = 0"
    using that by simp
  ultimately show ?thesis
    using clk(1) inv' s
    by (cases "idle_timeout_ms (cfg (cl s)) = 0"; cases "idle_timeout_ms (cfg (cl s)) \<le> now - last_rx_ms (cl s)")
       (auto simp: hint_def elim!: returns_mono split del: if_split)
qed

lemma poll_received_ok:
  assumes s: "settled T g s" and st: "state (cl s) = SSE_STATE_OPEN" and m: "rx_buf (cfg (cl s)) = Some m"
  shows "returns (poll_received r s) (\<lambda>(h, s'). settled T g s' \<and> received (settled T g) r m s h s')"
proof -
  have inv: "client_inv T g s" "state (cl s) \<noteq> SSE_STATE_CLOSED" using s st by (simp_all add: settled_def)
  have fail: "returns (do { s \<leftarrow> fail_conn SSE_ERR_TRANSPORT 0 (-1) s; Some (hint 0 s) })
      (\<lambda>(h, s'). settled T g s' \<and> failed SSE_ERR_TRANSPORT 0 (-1) s s' \<and> h = fst (hint 0 s'))"
    using fail_conn_ok [OF inv, of SSE_ERR_TRANSPORT 0 "-1"]
    by (subst hint_eq) (auto elim!: returns_mono)
  obtain now w where clk: "read_clock s = Some (now, s\<lparr>env := w\<rparr>)" "T (transport_open (cl s)) w"
    using clock_reading [OF inv(1)] by auto
  let ?x = "s\<lparr>cl := (cl s)\<lparr>last_rx_ms := now\<rparr>, env := w\<rparr>"
  have eq: "upd (\<lambda>c. c\<lparr>last_rx_ms := now\<rparr>) (s\<lparr>env := w\<rparr>) = ?x" by (simp add: upd_def)
  have x: "settled T g ?x"
    unfolding eq [symmetric] using settled_env [OF s clk(2)]
    by (rule settled_upd) (simp_all add: settled_base [OF s])
  have feed: "returns (client_feed m (unat r) ?x) (\<lambda>s'. settled T g s' \<and> fed (settled T g) m (unat r) s s')"
    if "unat r \<le> rx_buf_len (cfg (cl s))"
  proof -
    have "unat r \<le> length m" using that settled_base [OF s] m base_inv_config(6,7) [of g "cl s"] by auto
    from client_feed_ok [OF x this] show ?thesis
      by (rule returns_strengthen) (use x in \<open>auto simp: fed_def Let_def\<close>)
  qed
  show ?thesis
    using fail feed idle_ok [OF s st] sint_zero_read clk(1) m
    by (auto simp: poll_received_def received_def eq hint_def elim!: returns_mono)
qed

lemma poll_open_ok:
  assumes s: "settled T g s" and st: "state (cl s) = SSE_STATE_OPEN"
  shows "returns (poll_open s) (\<lambda>(h, s'). settled T g s' \<and> read_poll (settled T g) s h s')"
proof -
  obtain fr where fr: "tr_read t = Some fr" using valid_functions by blast
  obtain m where m: "rx_buf (cfg (cl s)) = Some m" "rx_buf_len g \<le> length m"
    using settled_base [OF s] base_inv_config(7) by blast
  have facts: "transport (cfg (cl s)) = Some t" "rx_buf_len (cfg (cl s)) = rx_buf_len g" "T True (env s)"
    using settled_base [OF s] transport_is s st by (auto simp: cfg_simps settled_def client_inv_def)
  have rest: "returns (let s = (after_read r m' stopped s)\<lparr>env := w\<rparr> in
      if stop_requested (cl s) then do { s \<leftarrow> to_closed s; Some (UINT32_MAX, s) } else poll_received r s)
      (\<lambda>(h, s'). settled T g s' \<and> read_poll (settled T g) s h s')"
    if w: "T True w" "length m' = length m" for r m' stopped w
  proof -
    let ?u = "(after_read r m' stopped s)\<lparr>env := w\<rparr>"
    have "base_inv g (cl ?u)"
      using settled_base [OF s] w(2) m(2)
      by (auto simp: after_read_def base_inv_def config_inv_def id_inv_def)
    then have u: "settled T g ?u"
      using s st w(1) by (auto simp: settled_def client_inv_def after_read_def obs_ok_def foldM_append)
    have stu: "state (cl ?u) = SSE_STATE_OPEN" "rx_buf (cfg (cl ?u)) = Some m'"
      using st by (simp_all add: after_read_def)
    have close: "returns (to_closed ?u) (\<lambda>s'. settled T g s' \<and> shut (after_read r m' stopped s) s')"
      using to_closed_ok [of ?u] u stu(1) shut_if_closed [of ?u]
      by (auto simp: settled_def client_inv_def shut_env elim!: returns_mono)
    show ?thesis
    proof (cases "stop_requested (cl ?u)")
      case True
      then have "read_poll (settled T g) s UINT32_MAX s'" if "shut (after_read r m' stopped s) s'" for s'
        using that by (auto simp: read_poll_def Let_def intro!: exI [of _ r] exI [of _ m'] exI [of _ stopped])
      then show ?thesis using True close by (auto elim!: returns_mono)
    next
      case False
      then have "read_poll (settled T g) s h s'" if "received (settled T g) r m' ?u h s'" for h s'
        using that by (auto simp: read_poll_def Let_def received_env intro!: exI [of _ r] exI [of _ m'] exI [of _ stopped])
      then show ?thesis
        using False poll_received_ok [OF u stu, of r] by (auto elim!: returns_mono)
    qed
  qed
  have "poll_open s = do { (r, m', stopped, w) \<leftarrow> fr (env s) m (rx_buf_len g) (read_timeout_ms (cfg (cl s)));
      (let s = (after_read r m' stopped s)\<lparr>env := w\<rparr> in
      if stop_requested (cl s) then do { s \<leftarrow> to_closed s; Some (UINT32_MAX, s) } else poll_received r s) }"
    using facts fr m unfolding poll_open_def Let_def after_read_eq by simp
  then show ?thesis
    using read_ok [OF fr facts(3) m(2), of "read_timeout_ms (cfg (cl s))"] rest
    by (auto elim!: returns_mono)
qed

lemma poll_waiting_run:
  assumes s: "settled T g s" and st: "state (cl s) = SSE_STATE_WAITING_RETRY"
  shows "\<exists>now w. T False w \<and> poll_waiting s =
    Some (if sint (retry_deadline (cl s) - now) \<le> 0 then (0, set_state SSE_STATE_CONNECTING (s\<lparr>env := w\<rparr>))
          else (retry_deadline (cl s) - now, s\<lparr>env := w\<rparr>))"
proof -
  have "client_inv T g s" "\<not> transport_open (cl s)" using s st by (auto simp: settled_def)
  with clock_reading [OF this(1)] obtain now w
    where "read_clock s = Some (now, s\<lparr>env := w\<rparr>)" "T False w" by auto
  then show ?thesis by (intro exI [of _ now] exI [of _ w]) (simp add: poll_waiting_def Let_def)
qed

end

end
