(* ===== verification/Sse_Client_Reach.thy ===== *)
theory Sse_Client_Reach
  imports Sse_Client_Conn
begin

text \<open>
  The client as a transition system: what one poll does in each state (\<open>polled\<close>),
  the steps a program may take (poll, close, request a stop from another task),
  the states reachable from a successful \<open>sse_client_init\<close>, and the invariants that
  hold in all of them.
\<close>

section \<open>One poll\<close>

definition waited :: "u32 \<Rightarrow> 'w sys \<Rightarrow> u32 \<Rightarrow> 'w sys \<Rightarrow> bool" where
  "waited now s h s' \<longleftrightarrow>
     (let remain = retry_deadline (cl s) - now in
      if sint remain \<le> 0
      then h = 0 \<and> cl s' = (cl s)\<lparr>state := SSE_STATE_CONNECTING\<rparr> \<and> trace s' = trace s
      else h = remain \<and> same_but_env s s')"

definition polled :: "('w sys \<Rightarrow> bool) \<Rightarrow> 'w sys \<Rightarrow> u32 \<Rightarrow> 'w sys \<Rightarrow> bool" where
  "polled P s h s' \<longleftrightarrow>
     (if state (cl s) = SSE_STATE_CLOSED then s' = s \<and> h = UINT32_MAX
      else if stop_requested (cl s) then shut s s' \<and> h = UINT32_MAX
      else (case state (cl s) of
          SSE_STATE_WAITING_RETRY \<Rightarrow> (\<exists>now. waited now s h s')
        | SSE_STATE_OPEN \<Rightarrow> read_poll P s h s'
        | _ \<Rightarrow> attempted s s' \<and> h = fst (hint 0 s')))"

context client_env
begin

lemma poll_ok:
  assumes s: "settled T g s"
  shows "returns (sse_client_poll s) (\<lambda>(h, s'). settled T g s' \<and> polled (settled T g) s h s')"
proof (cases "state (cl s) = SSE_STATE_CLOSED")
  case True
  then show ?thesis using s by (simp add: sse_client_poll_def polled_def)
next
  case open_st: False
  show ?thesis
  proof (cases "stop_requested (cl s)")
    case True
    have "client_inv T g s" using s by (simp add: settled_def)
    from to_closed_ok [OF this] show ?thesis
      using True open_st shut_if_closed [of s]
      by (auto simp: sse_client_poll_def polled_def settled_def client_inv_def elim!: returns_mono)
  next
    case False
    then have run: "sse_client_poll s = (case state (cl s) of
         SSE_STATE_CLOSED \<Rightarrow> Some (UINT32_MAX, s) | SSE_STATE_IDLE \<Rightarrow> poll_connect s
       | SSE_STATE_CONNECTING \<Rightarrow> poll_connect s | SSE_STATE_WAITING_RETRY \<Rightarrow> poll_waiting s
       | SSE_STATE_OPEN \<Rightarrow> poll_open s)"
      by (simp add: sse_client_poll_def)
    have con: "returns (poll_connect s) (\<lambda>(h, s'). settled T g s' \<and> attempted s s' \<and> h = fst (hint 0 s'))"
      if "state (cl s) \<noteq> SSE_STATE_OPEN"
      using do_connect_ok [OF s open_st that]
      by (subst (asm) returns_iff) (auto simp: poll_connect_def hint_def)
    show ?thesis
    proof (cases "state (cl s)")
      case SSE_STATE_WAITING_RETRY
      obtain now w where w: "T False w" "poll_waiting s =
        Some (if sint (retry_deadline (cl s) - now) \<le> 0 then (0, set_state SSE_STATE_CONNECTING (s\<lparr>env := w\<rparr>))
          else (retry_deadline (cl s) - now, s\<lparr>env := w\<rparr>))"
        using poll_waiting_run [OF s SSE_STATE_WAITING_RETRY] by blast
      have "\<not> transport_open (cl s)" using s SSE_STATE_WAITING_RETRY by (simp add: settled_def)
      then have set: "settled T g (s\<lparr>env := w\<rparr>)" "settled T g (set_state SSE_STATE_CONNECTING (s\<lparr>env := w\<rparr>))"
        using s w(1) SSE_STATE_WAITING_RETRY
        by (auto simp: settled_def client_inv_def obs_ok_def set_state_def)
      have "\<exists>now. waited now s (fst x) (snd x)" if "poll_waiting s = Some x" for x
        using that w(2) by (intro exI [of _ now]) (auto simp: waited_def Let_def same_but_env_def)
      then show ?thesis
        using w(2) set False by (auto simp: run SSE_STATE_WAITING_RETRY polled_def)
    qed (use con poll_open_ok [OF s] open_st False in
        \<open>auto simp: run polled_def elim!: returns_mono\<close>)
  qed
qed

lemma close_call_ok:
  assumes s: "settled T g s"
  shows "returns (sse_client_close s) (\<lambda>s'. settled T g s' \<and>
     (if state (cl s) = SSE_STATE_CLOSED then s' = s else shut s s'))"
proof -
  have inv: "client_inv T g s" using s by (simp add: settled_def)
  show ?thesis
  proof (cases "state (cl s) = SSE_STATE_CLOSED")
    case True
    then have "\<not> transport_open (cl s)" using inv by (simp add: client_inv_def)
    then show ?thesis
      using True s by (simp add: sse_client_close_def to_closed_def close_transport_def)
  next
    case False
    then show ?thesis
      using to_closed_ok [OF inv] shut_if_closed [of s]
      by (auto simp: sse_client_close_def settled_def client_inv_def elim!: returns_mono)
  qed
qed

lemma stop_call_ok: "settled T g s \<Longrightarrow> settled T g (sse_client_request_stop s)"
  by (rule settled_ran [OF _ kept_ran [OF kept_request_stop]])
    (auto simp: sse_client_request_stop_def settled_def client_inv_def)

end

section \<open>Reachable states\<close>

datatype action = Poll u32 | Close | RequestStop

inductive client_step :: "action \<Rightarrow> 'w sys \<Rightarrow> 'w sys \<Rightarrow> bool" where
  poll: "sse_client_poll s = Some (h, s') \<Longrightarrow> client_step (Poll h) s s'"
| close: "sse_client_close s = Some s' \<Longrightarrow> client_step Close s s'"
| stop: "client_step RequestStop s (sse_client_request_stop s)"

inductive_cases pollE: "client_step (Poll h) s s'"
inductive_cases closeE: "client_step Close s s'"
inductive_cases stopE: "client_step RequestStop s s'"
inductive_simps client_step_simps:
  "client_step (Poll h) s s'" "client_step Close s s'" "client_step RequestStop s s'"

definition started :: "'w sse_client \<Rightarrow> 'w \<Rightarrow> 'w sys" where
  "started c w = \<lparr>cl = c, env = w, trace = []\<rparr>"

text \<open>\<open>W\<close> is what is known of the world when \<open>sse_client_init\<close> is called.\<close>

inductive reachable :: "'w sse_client_config \<Rightarrow> ('w \<Rightarrow> bool) \<Rightarrow> 'w sys \<Rightarrow> bool" for g W where
  init: "W w \<Longrightarrow> sse_client_init (Some c0) (Some g) w = Some (0, Some c, w') \<Longrightarrow> reachable g W (started c w')"
| step: "reachable g W s \<Longrightarrow> client_step a s s' \<Longrightarrow> reachable g W s'"

lemma client_step_trans_reachable:
  "reachable g W s \<Longrightarrow> sse_client_poll s = Some (h, s') \<Longrightarrow> reachable g W s'"
  by (blast intro: reachable.step client_step.poll)

context client_env
begin

lemma init_settled:
  assumes "T False w" and "sse_client_init (Some c0) (Some g) w = Some (0, Some c, w')"
  shows "settled T g (started c w')"
proof -
  obtain fn where fn: "now_ms g = Some fn" using valid_functions by blast
  have w': "w' = snd (fn w)" "c = init_client g (fst (fn w))"
    using assms(2) config_valid fn by (auto simp: sse_client_init_def split_beta)
  have T': "T False w'" using clock_ok [OF fn assms(1)] w' by simp
  obtain m where m: "rx_buf g = Some m" "rx_buf_len g \<le> length m" "buffers_ok (buffers g)"
    using memory by (auto simp: memory_ok_def)
  have "(with_defaults g)\<lparr>rx_buf := Some m\<rparr> = with_defaults g"
    using m(1) by (cases g) (simp add: with_defaults_def)
  then have "cfg c = (with_defaults g)\<lparr>rx_buf := Some m\<rparr> \<and> rx_buf_len g \<le> length m"
    using w'(2) m(2) by (simp add: init_client_def Let_def)
  moreover have "parser c = sse_parser_init (buffers g)"
    using w'(2) by (simp add: init_client_def Let_def with_defaults_def)
  ultimately have "config_inv g c"
    using w'(2) m(3) parser_inv_init
    by (auto simp: config_inv_def init_client_def Let_def)
  moreover have "id_inv c"
    using w'(2) by (simp add: id_inv_def init_client_def Let_def terminated_def)
  moreover have "prng c \<noteq> 0" using w'(2) by (simp add: init_client_def Let_def)
  moreover have "state c = SSE_STATE_IDLE" "\<not> transport_open c"
    using w'(2) by (simp_all add: init_client_def Let_def)
  moreover from this have "obs_ok (started c w')"
    by (auto simp: obs_ok_def started_def intro: exI [of _ False])
  ultimately show ?thesis
    using T' by (simp add: settled_def client_inv_def base_inv_def started_def)
qed

lemma step_settled: "settled T g s \<Longrightarrow> client_step a s s' \<Longrightarrow> settled T g s'"
  by (cases a)
     (auto elim!: pollE closeE stopE dest: returns_Some [OF poll_ok] returns_Some [OF close_call_ok] intro: stop_call_ok)

lemma reachable_settled: "reachable g (T False) s \<Longrightarrow> settled T g s"
  by (induction rule: reachable.induct) (auto intro: init_settled step_settled)

end

end
