(* ===== verification/Sse_Parser_Trace.thy ===== *)
theory Sse_Parser_Trace
  imports Sse_Parser
begin

text \<open>
  The parser never looks at the object behind \<open>userdata\<close>: whatever the
  callbacks do, a run of the parser is the same run with recording callbacks,
  followed by a replay of the recorded calls on the client's own state. This is
  what lets the client be verified against the parser's outputs alone.
\<close>

section \<open>Recording callbacks\<close>

datatype parser_out =
  OEvent sse_parser_event | OId bytes nat | ORetry u32 | OError sse_parse_error

text \<open>One recorded call, made on a client state.\<close>

fun apply_out :: "'u sse_parser_callbacks \<Rightarrow> parser_out \<Rightarrow> 'u \<Rightarrow> 'u option" where
  "apply_out cb (OEvent ev) u = opt_call (pcb_on_event cb) ev u"
| "apply_out cb (OId m n) u = opt_call (pcb_on_id cb) (m, n) u"
| "apply_out cb (ORetry ms) u = opt_call (pcb_on_retry cb) ms u"
| "apply_out cb (OError e) u = opt_call (pcb_on_error cb) e u"

definition replay :: "'u sse_parser_callbacks \<Rightarrow> parser_out list \<Rightarrow> 'u \<Rightarrow> 'u option" where
  "replay cb outs u = foldM (apply_out cb) outs u"

lemma replay_simps [simp]:
  "replay cb [] u = Some u"
  "replay cb (x # xs) u = do { u' \<leftarrow> apply_out cb x u; replay cb xs u' }"
  "replay cb (xs @ ys) u = do { u' \<leftarrow> replay cb xs u; replay cb ys u' }"
  by (simp_all add: replay_def foldM_append)

text \<open>Callbacks that append to a log, NULL exactly where those of \<open>cb\<close> are.\<close>

definition recorder :: "'a option \<Rightarrow> ('x \<Rightarrow> parser_out) \<Rightarrow> (parser_out list \<Rightarrow> 'x \<Rightarrow> parser_out list option) option" where
  "recorder f out = map_option (\<lambda>_. \<lambda>outs x. Some (outs @ [out x])) f"

definition rec_of :: "'u sse_parser_callbacks \<Rightarrow> parser_out list sse_parser_callbacks" where
  "rec_of cb = \<lparr>pcb_on_event = recorder (pcb_on_event cb) OEvent,
     pcb_on_id = recorder (pcb_on_id cb) (\<lambda>(m, n). OId m n),
     pcb_on_retry = recorder (pcb_on_retry cb) ORetry,
     pcb_on_error = recorder (pcb_on_error cb) OError\<rparr>"

text \<open>All four callbacks set, as in the recording callbacks of the test suite.\<close>

definition rec_cb :: "parser_out list sse_parser_callbacks" where
  "rec_cb = \<lparr>pcb_on_event = Some (\<lambda>outs ev. Some (outs @ [OEvent ev])),
     pcb_on_id = Some (\<lambda>outs (m, n). Some (outs @ [OId m n])),
     pcb_on_retry = Some (\<lambda>outs ms. Some (outs @ [ORetry ms])),
     pcb_on_error = Some (\<lambda>outs e. Some (outs @ [OError e]))\<rparr>"

definition all_set :: "'u sse_parser_callbacks \<Rightarrow> bool" where
  "all_set cb \<longleftrightarrow> pcb_on_event cb \<noteq> None \<and> pcb_on_id cb \<noteq> None \<and>
     pcb_on_retry cb \<noteq> None \<and> pcb_on_error cb \<noteq> None"

lemma rec_of_all_set: "all_set cb \<Longrightarrow> rec_of cb = rec_cb"
  by (auto simp: all_set_def rec_of_def rec_cb_def recorder_def)

section \<open>Traced computations\<close>

text \<open>
  \<open>F\<close> works on a client state, \<open>G\<close> does the same on a log. The second conjunct
  says that \<open>G\<close> only appends.
\<close>

definition traced ::
  "'u sse_parser_callbacks \<Rightarrow> ('u \<Rightarrow> ('p \<times> 'u) option) \<Rightarrow>
   (parser_out list \<Rightarrow> ('p \<times> parser_out list) option) \<Rightarrow> bool" where
  "traced cb F G \<longleftrightarrow>
     (\<forall>u. F u = do { (p, outs) \<leftarrow> G []; u' \<leftarrow> replay cb outs u; Some (p, u') }) \<and>
     (\<forall>o0. G o0 = do { (p, outs) \<leftarrow> G []; Some (p, o0 @ outs) })"

lemma traced_Some: "traced cb (\<lambda>u. Some (p, u)) (\<lambda>o0. Some (p, o0))"
  by (simp add: traced_def)

lemma traced_None: "traced cb (\<lambda>u. None) (\<lambda>o0. None)"
  by (simp add: traced_def)

lemma traced_bind:
  assumes 1: "traced cb F G" and 2: "\<And>p. traced cb (\<lambda>u. F' (p, u)) (\<lambda>o0. G' (p, o0))"
  shows "traced cb (\<lambda>u. F u \<bind> F') (\<lambda>o0. G o0 \<bind> G')"
proof (cases "G []")
  case None
  then have "F u = None" "G o0 = None" for u o0 using 1 by (auto simp: traced_def)
  then show ?thesis by (simp add: traced_None)
next
  case (Some x)
  then obtain p o1 where "G [] = Some (p, o1)" by (cases x) auto
  then have FG: "F u = do { u' \<leftarrow> replay cb o1 u; Some (p, u') }" "G o0 = Some (p, o0 @ o1)" for u o0
    using 1 by (auto simp: traced_def)
  show ?thesis
  proof (cases "G' (p, [])")
    case None
    then have "F' (p, u) = None" "G' (p, o0) = None" for u o0 using 2 [of p] by (auto simp: traced_def)
    then show ?thesis by (simp add: FG traced_None)
  next
    case (Some y)
    then obtain q o2 where "G' (p, []) = Some (q, o2)" by (cases y) auto
    then have "F' (p, u) = do { u' \<leftarrow> replay cb o2 u; Some (q, u') }"
      "G' (p, o0) = Some (q, o0 @ o2)" for u o0
      using 2 [of p] by (auto simp: traced_def)
    then show ?thesis by (simp add: FG traced_def)
  qed
qed

lemma traced_mem:
  "(\<And>m. traced cb (F m) (G m)) \<Longrightarrow> traced cb (\<lambda>u. w \<bind> (\<lambda>m. F m u)) (\<lambda>o0. w \<bind> (\<lambda>m. G m o0))"
  by (cases w) (auto simp: traced_None)

lemma traced_call:
  assumes "\<And>u. apply_out cb (out x) u = opt_call f x u"
    and "\<And>p. traced cb (\<lambda>u. F (p, u)) (\<lambda>o0. G (p, o0))"
  shows "traced cb (\<lambda>u. opt_call f x u \<bind> (\<lambda>u. F (p, u))) (\<lambda>o0. opt_call (recorder f out) x o0 \<bind> (\<lambda>o0. G (p, o0)))"
proof -
  have "traced cb (\<lambda>u. opt_call f x u \<bind> (\<lambda>u. Some (p, u)))
          (\<lambda>o0. opt_call (recorder f out) x o0 \<bind> (\<lambda>o0. Some (p, o0)))"
    using assms(1) by (cases f) (auto simp: traced_def recorder_def)
  from traced_bind [OF this assms(2)] show ?thesis by (simp add: case_prod_unfold)
qed

lemma traced_if:
  "(b \<Longrightarrow> traced cb F G) \<Longrightarrow> (\<not> b \<Longrightarrow> traced cb F' G') \<Longrightarrow>
   traced cb (\<lambda>u. if b then F u else F' u) (\<lambda>o0. if b then G o0 else G' o0)"
  by (cases b) simp_all

lemmas traced_intros = traced_Some traced_None traced_if traced_mem

lemma rec_of_simps [simp]:
  "pcb_on_event (rec_of cb) = recorder (pcb_on_event cb) OEvent"
  "pcb_on_id (rec_of cb) = recorder (pcb_on_id cb) (\<lambda>(m, n). OId m n)"
  "pcb_on_retry (rec_of cb) = recorder (pcb_on_retry cb) ORetry"
  "pcb_on_error (rec_of cb) = recorder (pcb_on_error cb) OError"
  by (simp_all add: rec_of_def)

section \<open>Every parser operation is traced\<close>

lemma emit_perr_traced: "traced cb (\<lambda>u. emit_perr cb e (p, u)) (\<lambda>o0. emit_perr (rec_of cb) e (p, o0))"
  unfolding emit_perr_def by (simp, rule traced_call [where F = Some and G = Some, simplified]) (auto intro: traced_intros)

lemma discard_block_traced:
  "traced cb (\<lambda>u. discard_block cb e (p, u)) (\<lambda>o0. discard_block (rec_of cb) e (p, o0))"
  by (simp add: discard_block_def emit_perr_traced traced_intros)

lemma value_byte_traced:
  "traced cb (\<lambda>u. value_byte cb b (p, u)) (\<lambda>o0. value_byte (rec_of cb) b (p, o0))"
  by (cases "p_field p")
     (auto simp: value_byte_def intro!: traced_intros discard_block_traced emit_perr_traced)

lemma retry_traced:
  "traced cb (\<lambda>u. do { u \<leftarrow> opt_call (pcb_on_retry cb) ms u; Some (p, u) })
     (\<lambda>o0. do { o0 \<leftarrow> opt_call (recorder (pcb_on_retry cb) ORetry) ms o0; Some (p, o0) })"
  by (rule traced_call [where F = Some and G = Some]) (auto intro: traced_intros)

lemma commit_value_traced:
  "traced cb (\<lambda>u. commit_value cb (p, u)) (\<lambda>o0. commit_value (rec_of cb) (p, o0))"
  unfolding commit_value_def split_conv
  by (rule traced_bind, cases "p_field p")
     (auto intro!: traced_intros discard_block_traced emit_perr_traced retry_traced)

lemma dispatch_id_traced:
  "traced cb (\<lambda>u. dispatch_id cb (p, u)) (\<lambda>o0. dispatch_id (rec_of cb) (p, o0))"
  unfolding dispatch_id_def split_conv rec_of_simps
  by (intro traced_if traced_mem traced_call [where F = Some and G = Some, simplified]) (auto intro: traced_intros)

lemma dispatch_event_traced:
  "traced cb (\<lambda>u. dispatch_event cb (p, u)) (\<lambda>o0. dispatch_event (rec_of cb) (p, o0))"
proof (cases "pcb_on_event cb")
  case None
  then show ?thesis by (auto simp: dispatch_event_def recorder_def intro!: traced_intros)
next
  case (Some f)
  have "traced cb (\<lambda>u. f u ev \<bind> (\<lambda>u. Some (q, u))) (\<lambda>o0. Some (q, o0 @ [OEvent ev]))" for ev q
    using Some by (simp add: traced_def)
  then show ?thesis
    unfolding dispatch_event_def split_conv rec_of_simps Some recorder_def
    by (auto simp: Let_def intro!: traced_intros)
qed

lemma dispatch_block_traced:
  "traced cb (\<lambda>u. dispatch_block cb (p, u)) (\<lambda>o0. dispatch_block (rec_of cb) (p, o0))"
  unfolding dispatch_block_def
  by (intro traced_bind dispatch_id_traced dispatch_event_traced) (auto intro: traced_intros)

lemma resolve_field_name_traced:
  "traced cb (\<lambda>u. resolve_field_name cb (p, u)) (\<lambda>o0. resolve_field_name (rec_of cb) (p, o0))"
  unfolding resolve_field_name_def split_conv Let_def
  by (intro traced_if traced_bind emit_perr_traced) (auto intro: traced_intros)

lemma line_end_traced:
  "traced cb (\<lambda>u. line_end cb (p, u)) (\<lambda>o0. line_end (rec_of cb) (p, o0))"
proof -
  have "traced cb (\<lambda>u. do { (p, u) \<leftarrow> resolve_field_name cb (p, u);
            if p_state p = PS_AFTER_COLON then commit_value cb (p, u) else Some (p, u) })
     (\<lambda>o0. do { (p, o0) \<leftarrow> resolve_field_name (rec_of cb) (p, o0);
            if p_state p = PS_AFTER_COLON then commit_value (rec_of cb) (p, o0) else Some (p, o0) })"
    by (intro traced_bind resolve_field_name_traced) (auto intro!: commit_value_traced traced_intros)
  then show ?thesis
    unfolding line_end_def split_conv
    by (intro traced_bind, cases "p_state p")
       (auto intro!: dispatch_block_traced commit_value_traced traced_intros)
qed

lemma name_byte_traced:
  "traced cb (\<lambda>u. name_byte cb b (p, u)) (\<lambda>o0. name_byte (rec_of cb) b (p, o0))"
  unfolding name_byte_def split_conv
  by (intro traced_if traced_mem traced_bind emit_perr_traced resolve_field_name_traced)
     (auto intro: traced_intros)

lemma line_byte_traced:
  "traced cb (\<lambda>u. line_byte cb b (p, u)) (\<lambda>o0. line_byte (rec_of cb) b (p, o0))"
proof -
  have "traced cb (\<lambda>u. do { (p, u) \<leftarrow> line_end cb (p, u); Some (p\<lparr>swallow_lf := True\<rparr>, u) })
     (\<lambda>o0. do { (p, u) \<leftarrow> line_end (rec_of cb) (p, o0); Some (p\<lparr>swallow_lf := True\<rparr>, u) })"
    by (intro traced_bind line_end_traced) (auto intro: traced_intros)
  then show ?thesis
    by (cases "p_state p")
       (auto simp: line_byte_def Let_def
         intro!: name_byte_traced value_byte_traced line_end_traced traced_intros)
qed

lemma foldM_traced:
  assumes "\<And>b p. traced cb (\<lambda>u. f b (p, u)) (\<lambda>o0. g b (p, o0))"
  shows "traced cb (\<lambda>u. foldM f bs (p, u)) (\<lambda>o0. foldM g bs (p, o0))"
proof (induction bs arbitrary: p)
  case Nil
  show ?case by (simp add: traced_Some)
next
  case (Cons b bs)
  show ?case unfolding foldM.simps by (intro traced_bind assms Cons.IH)
qed

lemma process_byte_traced:
  "traced cb (\<lambda>u. process_byte cb b (p, u)) (\<lambda>o0. process_byte (rec_of cb) b (p, o0))"
  unfolding process_byte_def split_conv Let_def
  by (intro traced_if traced_bind foldM_traced line_byte_traced) (auto intro!: traced_intros)

text \<open>
  The result: a call of \<open>sse_parser_feed\<close> is the same call with recording
  callbacks, followed by the recorded calls.
\<close>

lemma tracedD: "traced cb F G \<Longrightarrow> F u = do { (p, outs) \<leftarrow> G []; u' \<leftarrow> replay cb outs u; Some (p, u') }"
  unfolding traced_def by blast

lemma traced_appendD: "traced cb F G \<Longrightarrow> G o0 = do { (p, outs) \<leftarrow> G []; Some (p, o0 @ outs) }"
  unfolding traced_def by blast

lemma run_traced:
  "traced cb (\<lambda>u. foldM (process_byte cb) bs (p, u)) (\<lambda>o0. foldM (process_byte (rec_of cb)) bs (p, o0))"
  by (rule foldM_traced) (rule process_byte_traced)

theorem feed_replay:
  "sse_parser_feed cb chunk len (p, u) =
     do { (p', outs) \<leftarrow> sse_parser_feed (rec_of cb) chunk len (p, []);
          u' \<leftarrow> replay cb outs u;
          Some (p', u') }"
  using tracedD [OF run_traced, of cb "take len chunk" p u]
  by (cases "len \<le> length chunk") (simp_all add: sse_parser_feed_def)

end
