(* ===== verification/Sse_Spec.thy ===== *)
theory Sse_Spec
  imports Sse_Parser_Trace
begin

text \<open>
  What the parser promises, without buffers, byte positions or callbacks: a
  stream is a byte-order mark, then lines; a line is a comment, a field or the
  end of a block; a block collects data, a type and an id and is delivered at
  its end. This follows the event-stream interpretation rules of the HTML
  standard, with the library's capacity limits and error reports added.
\<close>

section \<open>Abstract outputs\<close>

datatype sse_out =
  AEvent "bytes option" "bytes option" bytes  \<comment> \<open>type, id of the block, payload\<close>
| AId bytes
| ARetry nat
| AError sse_parse_error

text \<open>What a client reads from the memory a concrete output points to.\<close>

definition c_string :: "bytes \<Rightarrow> bytes" where
  "c_string m = takeWhile (\<lambda>b. b \<noteq> 0) m"

fun abs_out :: "parser_out \<Rightarrow> sse_out" where
  "abs_out (OEvent ev) = AEvent (map_option c_string (ev_event ev)) (map_option c_string (ev_id ev))
     (take (ev_data_len ev) (ev_data ev))"
| "abs_out (OId m n) = AId (take n m)"
| "abs_out (ORetry ms) = ARetry (unat ms)"
| "abs_out (OError e) = AError e"

section \<open>Blocks\<close>

text \<open>
  \<open>blk_data\<close> holds every data line with its newline; the empty type and \<open>None\<close>
  are "no type" and "no id".
\<close>

record block =
  blk_data :: bytes
  blk_type :: bytes
  blk_id :: "bytes option"
  blk_discarded :: bool

definition empty_block :: block where
  "empty_block = \<lparr>blk_data = [], blk_type = [], blk_id = None, blk_discarded = False\<rparr>"

record limits =
  data_cap :: nat
  id_cap :: nat
  type_cap :: nat

definition spec_dispatch :: "block \<Rightarrow> block \<times> sse_out list" where
  "spec_dispatch k =
     (empty_block,
      (case blk_id k of None \<Rightarrow> [] | Some i \<Rightarrow> [AId i]) @
      (if blk_discarded k \<or> blk_data k = [] then []
       else [AEvent (if blk_type k = [] then None else Some (blk_type k)) (blk_id k) (butlast (blk_data k))]))"

section \<open>Fields\<close>

definition data_fits :: "limits \<Rightarrow> block \<Rightarrow> bytes \<Rightarrow> bool" where
  "data_fits L k v \<longleftrightarrow> length (blk_data k) + length v + 1 \<le> data_cap L"

text \<open>The first byte of an event type that cannot be stored decides the error.\<close>

definition type_error :: "limits \<Rightarrow> bytes \<Rightarrow> sse_parse_error option" where
  "type_error L v =
     (if 0 \<in> set (take (type_cap L) v) then Some SSE_PARSE_ERR_EVENT_TYPE_INVALID
      else if type_cap L \<le> length v then Some SSE_PARSE_ERR_EVENT_TYPE_TOO_LARGE
      else None)"

definition id_fits :: "limits \<Rightarrow> bytes \<Rightarrow> bool" where
  "id_fits L v \<longleftrightarrow> 0 \<notin> set v \<and> length v < id_cap L"

definition is_digit :: "u8 \<Rightarrow> bool" where
  "is_digit b \<longleftrightarrow> 48 \<le> b \<and> b \<le> 57"

definition decimal :: "bytes \<Rightarrow> nat" where
  "decimal v = foldl (\<lambda>n b. 10 * n + (unat b - 48)) 0 v"

definition spec_data :: "limits \<Rightarrow> bytes \<Rightarrow> block \<Rightarrow> block \<times> sse_out list" where
  "spec_data L v k =
     (if blk_discarded k then (k, [])
      else if data_fits L k v then (k\<lparr>blk_data := blk_data k @ v @ [LF]\<rparr>, [])
      else (k\<lparr>blk_discarded := True\<rparr>, [AError SSE_PARSE_ERR_DATA_TOO_LARGE]))"

definition spec_event :: "limits \<Rightarrow> bytes \<Rightarrow> block \<Rightarrow> block \<times> sse_out list" where
  "spec_event L v k =
     (if blk_discarded k then (k, [])
      else (case type_error L v of
              None \<Rightarrow> (k\<lparr>blk_type := v\<rparr>, [])
            | Some e \<Rightarrow> (k\<lparr>blk_discarded := True\<rparr>, [AError e])))"

definition spec_id :: "limits \<Rightarrow> bytes \<Rightarrow> block \<Rightarrow> block \<times> sse_out list" where
  "spec_id L v k =
     (if id_fits L v then (k\<lparr>blk_id := Some v\<rparr>, [])
      else (k\<lparr>blk_id := None\<rparr>, [AError SSE_PARSE_ERR_ID_INVALID]))"

definition spec_retry :: "bytes \<Rightarrow> block \<Rightarrow> block \<times> sse_out list" where
  "spec_retry v k =
     (k, if v \<noteq> [] \<and> list_all is_digit v then [ARetry (min (2 ^ 32 - 1) (decimal v))]
         else [AError SSE_PARSE_ERR_INVALID_RETRY])"

definition spec_field :: "limits \<Rightarrow> parser_field \<Rightarrow> bytes \<Rightarrow> block \<Rightarrow> block \<times> sse_out list" where
  "spec_field L f v k = (case f of
      F_DATA \<Rightarrow> spec_data L v k
    | F_EVENT \<Rightarrow> spec_event L v k
    | F_ID \<Rightarrow> spec_id L v k
    | F_RETRY \<Rightarrow> spec_retry v k
    | F_NONE \<Rightarrow> (k, [AError SSE_PARSE_ERR_UNKNOWN_FIELD]))"

section \<open>Lines\<close>

definition strip_space :: "bytes \<Rightarrow> bytes" where
  "strip_space v = (case v of [] \<Rightarrow> [] | b # bs \<Rightarrow> if b = SPACE then bs else v)"

definition line_name :: "bytes \<Rightarrow> bytes" where
  "line_name l = takeWhile (\<lambda>b. b \<noteq> COLON) l"

definition line_value :: "bytes \<Rightarrow> bytes" where
  "line_value l = strip_space (drop (length (line_name l) + 1) l)"

definition spec_line :: "limits \<Rightarrow> bytes \<Rightarrow> block \<Rightarrow> block \<times> sse_out list" where
  "spec_line L l k =
     (if l = [] then spec_dispatch k
      else if hd l = COLON then (k, [])
      else spec_field L (field_of_name (line_name l)) (line_value l) k)"

fun spec_lines :: "limits \<Rightarrow> bytes list \<Rightarrow> block \<Rightarrow> block \<times> sse_out list" where
  "spec_lines L [] k = (k, [])"
| "spec_lines L (l # ls) k =
     (let (k1, o1) = spec_line L l k; (k2, o2) = spec_lines L ls k1 in (k2, o1 @ o2))"

section \<open>Streams\<close>

definition drop_lf :: "bytes \<Rightarrow> bytes" where
  "drop_lf bs = (case bs of [] \<Rightarrow> [] | b # cs \<Rightarrow> if b = LF then cs else bs)"

lemma length_drop_lf [simp]: "length (drop_lf bs) \<le> length bs"
  by (simp add: drop_lf_def split: list.split)

text \<open>
  The complete lines of a stream, each ended by CR, LF or CR LF, and the
  unfinished rest. \<open>cur\<close> is the part of the current line already read.
\<close>

function split_lines :: "bytes \<Rightarrow> bytes \<Rightarrow> bytes list \<times> bytes" where
  "split_lines cur [] = ([], cur)"
| "split_lines cur (b # bs) =
     (if b = LF then (let (ls, r) = split_lines [] bs in (cur # ls, r))
      else if b = CR then (let (ls, r) = split_lines [] (drop_lf bs) in (cur # ls, r))
      else split_lines (cur @ [b]) bs)"
  by pat_completeness auto
termination
  by (relation "measure (\<lambda>(cur, bs). length bs)") (auto simp: le_imp_less_Suc)

definition strip_bom :: "bytes \<Rightarrow> bytes" where
  "strip_bom bs = (if take 3 bs = SSE_BOM then drop 3 bs else bs)"

text \<open>
  The errors an unfinished line has already caused: an overlong name is reported
  at its sixth byte, a value that does not fit at the first byte too many.
\<close>

definition value_errors :: "limits \<Rightarrow> block \<Rightarrow> parser_field \<Rightarrow> bytes \<Rightarrow> sse_out list" where
  "value_errors L k f v = (case f of
      F_DATA \<Rightarrow> if blk_discarded k \<or> length (blk_data k) + length v \<le> data_cap L then []
                else [AError SSE_PARSE_ERR_DATA_TOO_LARGE]
    | F_EVENT \<Rightarrow> if blk_discarded k then []
                else (case type_error L v of None \<Rightarrow> [] | Some e \<Rightarrow> [AError e])
    | F_ID \<Rightarrow> if id_fits L v then [] else [AError SSE_PARSE_ERR_ID_INVALID]
    | F_RETRY \<Rightarrow> []
    | F_NONE \<Rightarrow> [AError SSE_PARSE_ERR_UNKNOWN_FIELD])"

definition partial_errors :: "limits \<Rightarrow> block \<Rightarrow> bytes \<Rightarrow> sse_out list" where
  "partial_errors L k l =
     (if l = [] \<or> hd l = COLON then []
      else if COLON \<in> set l then value_errors L k (field_of_name (line_name l)) (line_value l)
      else if length l \<le> 5 then []
      else [AError SSE_PARSE_ERR_UNKNOWN_FIELD])"

definition spec_stream :: "limits \<Rightarrow> bytes \<Rightarrow> sse_out list" where
  "spec_stream L bs =
     (let (ls, r) = split_lines [] (strip_bom bs); (k, outs) = spec_lines L ls empty_block
      in outs @ partial_errors L k r)"

end
