(* ===== verification/Sse_Parser_Refine.thy ===== *)
theory Sse_Parser_Refine
  imports Sse_Parser_Safety Sse_Spec
begin

text \<open>
  The byte-driven parser implements the line-level specification of \<open>Sse_Spec\<close>:
  for every byte string the recorded outputs of a run are exactly those of
  \<open>spec_stream\<close>. The proof follows the parser through a line, byte by byte, with
  a relation between the parser struct and the block being collected.
\<close>

section \<open>The recording callbacks\<close>

lemma rec_cb_calls [simp]:
  "opt_call (pcb_on_event rec_cb) ev outs = Some (outs @ [OEvent ev])"
  "opt_call (pcb_on_id rec_cb) (m, n) outs = Some (outs @ [OId m n])"
  "opt_call (pcb_on_retry rec_cb) ms outs = Some (outs @ [ORetry ms])"
  "opt_call (pcb_on_error rec_cb) e outs = Some (outs @ [OError e])"
  by (simp_all add: rec_cb_def)

lemma rec_cb_event [simp]: "pcb_on_event rec_cb = Some (\<lambda>outs ev. Some (outs @ [OEvent ev]))"
  by (simp add: rec_cb_def)

lemma emit_perr_rec [simp]: "emit_perr rec_cb e (p, outs) = Some (p, outs @ [OError e])"
  by (simp add: emit_perr_def)

lemma discard_block_rec:
  "\<not> block_discarded p \<Longrightarrow>
   discard_block rec_cb e (p, outs) = Some (p\<lparr>block_discarded := True\<rparr>, outs @ [OError e])"
  by (simp add: discard_block_def)

interpretation recording: parser_callbacks rec_cb "\<lambda>outs. True" n for n
proof
  fix x show "returns (opt_call (pcb_on_id rec_cb) x u) (\<lambda>outs. True)" for u
    by (cases x) simp
qed simp_all

text \<open>
  The invariant under the recording callbacks, from the interpretation above.
\<close>

lemma recording_sys_ok:
  "recording.sys_ok (id_buf_len p) (caps p) (p, outs) = parser_inv p"
  by (auto simp: recording.sys_ok_def caps_def)

lemma recording_sys_okD:
  "recording.sys_ok n K (p, outs) \<Longrightarrow> parser_inv p \<and> caps p = K"
  by (simp add: recording.sys_ok_def)

lemma resolve_inv:
  "parser_inv p \<Longrightarrow> p_state p = PS_FIELD_NAME \<Longrightarrow>
   returns (resolve_field_name rec_cb (p, outs)) (\<lambda>(q, w). parser_inv q \<and> caps q = caps p)"
  using recording.resolve_field_name_ok [of "id_buf_len p" "caps p" p outs]
  by (auto simp: recording_sys_ok dest: recording_sys_okD elim!: returns_mono)

lemma line_byte_inv:
  "parser_inv p \<Longrightarrow> p_state p \<noteq> PS_BOM \<Longrightarrow>
   returns (line_byte rec_cb b (p, outs)) (\<lambda>(q, w). parser_inv q \<and> caps q = caps p \<and> p_state q \<noteq> PS_BOM)"
  using recording.line_byte_ok [of "id_buf_len p" "caps p" p outs b]
  by (auto simp: recording_sys_ok dest: recording_sys_okD elim!: returns_mono)

lemma line_end_inv:
  "parser_inv p \<Longrightarrow> p_state p \<noteq> PS_BOM \<Longrightarrow>
   returns (line_end rec_cb (p, outs)) (\<lambda>(q, w). parser_inv q \<and> caps q = caps p \<and> p_state q = PS_LINE_START)"
  using recording.line_end_ok [of "id_buf_len p" "caps p" p outs]
  by (auto simp: recording_sys_ok dest: recording_sys_okD elim!: returns_mono)

section \<open>Retry values\<close>

lemma unat_digit: "is_digit b \<Longrightarrow> unat (ucast (b - 48) :: u32) = unat b - 48 \<and> unat b - 48 \<le> 9"
proof -
  assume d: "is_digit b"
  then have le: "48 \<le> unat b" "unat b \<le> 57" by (auto simp: is_digit_def word_le_nat_alt)
  have "unat (b - 48) = unat b - 48" using d by (simp add: is_digit_def unat_sub)
  then show ?thesis using le by simp
qed

lemma retry_digit_nat:
  assumes "is_digit b"
  shows "unat (retry_digit acc b) = min (2 ^ 32 - 1) (10 * unat acc + (unat b - 48))"
proof -
  define d :: u32 where "d = ucast (b - 48)"
  have d: "unat d = unat b - 48" "unat d \<le> 9" using unat_digit [OF assms] by (auto simp: d_def)
  have M: "unat UINT32_MAX = 2 ^ 32 - 1" by (simp add: UINT32_MAX_def)
  have le: "d \<le> UINT32_MAX" using d M by (simp add: word_le_nat_alt)
  have q: "unat ((UINT32_MAX - d) div 10) = (2 ^ 32 - 1 - unat d) div 10"
    using le M by (simp add: unat_div unat_sub)
  show ?thesis
  proof (cases "acc > (UINT32_MAX - d) div 10")
    case True
    then have "(2 ^ 32 - 1 - unat d) div 10 < unat acc" using q by (simp add: word_less_nat_alt)
    then have "2 ^ 32 - 1 < 10 * unat acc + unat d" by simp
    then show ?thesis using True d M by (simp add: retry_digit_def d_def Let_def)
  next
    case False
    then have "unat acc \<le> (2 ^ 32 - 1 - unat d) div 10" using q by (simp add: word_less_nat_alt not_less)
    then have le: "10 * unat acc + unat d \<le> 2 ^ 32 - 1" using d by simp
    then have "unat (acc * 10 + d) = 10 * unat acc + unat d"
      by (simp add: unat_word_ariths)
    then show ?thesis using False le d by (simp add: retry_digit_def d_def Let_def)
  qed
qed

lemma decimal_snoc: "decimal (v @ [b]) = 10 * decimal v + (unat b - 48)"
  by (simp add: decimal_def)

section \<open>The parser struct and the block it collects\<close>

definition limits_of :: "sse_parser \<Rightarrow> limits" where
  "limits_of p = \<lparr>data_cap = data_buf_len p, id_cap = id_buf_len p, type_cap = event_buf_len p\<rparr>"

lemma limits_of_caps: "caps q = caps p \<Longrightarrow> limits_of q = limits_of p"
  by (simp add: caps_def limits_of_def)

definition data_rel :: "sse_parser \<Rightarrow> bytes \<Rightarrow> bytes \<Rightarrow> bool" where
  "data_rel p d v \<longleftrightarrow> take (data_len p) (data_buf p) = d @ v \<and> (0 < data_lines p \<longleftrightarrow> d \<noteq> [])"

definition type_rel :: "sse_parser \<Rightarrow> bytes \<Rightarrow> bool" where
  "type_rel p t \<longleftrightarrow> (has_event p \<longleftrightarrow> t \<noteq> []) \<and>
     (has_event p \<longrightarrow> take (event_len p) (event_buf p) = t)"

definition id_rel :: "sse_parser \<Rightarrow> bytes option \<Rightarrow> bool" where
  "id_rel p i \<longleftrightarrow> (has_id p \<longleftrightarrow> i \<noteq> None) \<and> (has_id p \<longrightarrow> i = Some (take (id_len p) (id_buf p)))"

text \<open>Between lines, and inside a line before its field is known.\<close>

definition core_rel :: "sse_parser \<Rightarrow> block \<Rightarrow> bool" where
  "core_rel p k \<longleftrightarrow> block_discarded p = blk_discarded k \<and>
     (\<not> blk_discarded k \<longrightarrow> data_rel p (blk_data k) [] \<and> type_rel p (blk_type k)) \<and>
     id_rel p (blk_id k)"

text \<open>Inside the value \<open>v\<close> of a field \<open>f\<close>; what the other fields hold is unchanged.\<close>

definition spoilt :: "limits \<Rightarrow> block \<Rightarrow> parser_field \<Rightarrow> bytes \<Rightarrow> bool" where
  "spoilt L k f v \<longleftrightarrow> blk_discarded k \<or> (f = F_DATA \<or> f = F_EVENT) \<and> value_errors L k f v \<noteq> []"

definition value_rel :: "sse_parser \<Rightarrow> block \<Rightarrow> parser_field \<Rightarrow> bytes \<Rightarrow> bool" where
  "value_rel p k f v \<longleftrightarrow> p_field p = f \<and> block_discarded p = spoilt (limits_of p) k f v \<and>
     (\<not> block_discarded p \<longrightarrow> data_rel p (blk_data k) (if f = F_DATA then v else []) \<and>
        (if f = F_EVENT then take (event_len p) (event_buf p) = v else type_rel p (blk_type k))) \<and>
     (if f = F_ID then id_invalid p = (\<not> id_fits (limits_of p) v) \<and>
        (id_fits (limits_of p) v \<longrightarrow> take (id_len p) (id_buf p) = v)
      else id_rel p (blk_id k)) \<and>
     (f = F_RETRY \<longrightarrow> retry_invalid p = (\<not> list_all is_digit v) \<and>
        (list_all is_digit v \<longrightarrow> retry_seen_digit p = (v \<noteq> []) \<and>
           unat (retry_acc p) = min (2 ^ 32 - 1) (decimal v)))"

lemmas rel_defs = data_rel_def type_rel_def id_rel_def

lemma limits_of_simps [simp]:
  "data_cap (limits_of p) = data_buf_len p" "id_cap (limits_of p) = id_buf_len p"
  "type_cap (limits_of p) = event_buf_len p"
  by (simp_all add: limits_of_def)

section \<open>One value byte\<close>

lemma data_rel_length:
  assumes "parser_inv p" and "data_rel p d v"
  shows "data_len p = length d + length v"
proof -
  have "data_len p = length (take (data_len p) (data_buf p))"
    using assms(1) by (auto simp: inv_defs)
  also have "\<dots> = length (d @ v)" using assms(2) by (simp only: data_rel_def)
  finally show ?thesis by simp
qed

lemma value_data:
  assumes inv: "parser_inv p" and rel: "value_rel p k F_DATA v"
    and outs: "map abs_out o' = A @ value_errors (limits_of p) k F_DATA v"
  shows "returns (value_byte rec_cb b (p, o')) (\<lambda>(q, w). value_rel q k F_DATA (v @ [b]) \<and>
           map abs_out w = A @ value_errors (limits_of p) k F_DATA (v @ [b]))"
proof (cases "block_discarded p")
  case True
  then show ?thesis
    using rel outs
    by (auto simp: value_byte_def value_rel_def spoilt_def value_errors_def split: if_splits)
next
  case False
  have field: "p_field p = F_DATA" using rel by (simp add: value_rel_def)
  have dr: "data_rel p (blk_data k) v" using rel False by (auto simp: value_rel_def)
  then have len: "data_len p = length (blk_data k) + length v" by (rule data_rel_length [OF inv])
  show ?thesis
  proof (cases "data_len p = data_buf_len p")
    case True
    then show ?thesis
      using rel outs False len field
      by (auto simp: value_byte_def discard_block_rec value_rel_def spoilt_def value_errors_def
          limits_of_def rel_defs split: if_splits)
  next
    case room: False
    let ?q = "p\<lparr>data_buf := (data_buf p)[data_len p := b], data_len := data_len p + 1\<rparr>"
    have i: "data_len p < length (data_buf p)" using inv room by (auto simp: inv_defs)
    have "data_rel ?q (blk_data k) (v @ [b])" using dr i by (simp add: data_rel_def)
    moreover have "value_byte rec_cb b (p, o') = Some (?q, o')"
      using False room i field by (simp add: value_byte_def mem_simps)
    moreover have "length (blk_data k) + length v < data_buf_len p"
      using room len inv by (auto simp: inv_defs)
    ultimately show ?thesis
      using rel outs False
      by (auto simp: value_rel_def spoilt_def value_errors_def limits_of_def rel_defs split: if_splits)
  qed
qed

lemma value_event:
  assumes inv: "parser_inv p" and rel: "value_rel p k F_EVENT v" and cap: "0 < event_buf_len p"
    and outs: "map abs_out o' = A @ value_errors (limits_of p) k F_EVENT v"
  shows "returns (value_byte rec_cb b (p, o')) (\<lambda>(q, w). value_rel q k F_EVENT (v @ [b]) \<and>
           map abs_out w = A @ value_errors (limits_of p) k F_EVENT (v @ [b]))"
proof (cases "block_discarded p")
  case True
  have "type_error (limits_of p) (v @ [b]) = type_error (limits_of p) v"
    if "type_error (limits_of p) v \<noteq> None"
    using that by (auto simp: type_error_def split: if_splits)
  then show ?thesis
    using rel outs True
    by (auto simp: value_byte_def value_rel_def spoilt_def value_errors_def
        split: if_splits option.splits)
next
  case False
  have field: "p_field p = F_EVENT" using rel by (simp add: value_rel_def)
  have v: "take (event_len p) (event_buf p) = v" and none: "type_error (limits_of p) v = None"
    and kd: "\<not> blk_discarded k"
    using rel False by (auto simp: value_rel_def spoilt_def value_errors_def split: option.splits)
  have bound: "event_len p \<le> length (event_buf p)" using inv by (auto simp: inv_defs)
  have len: "event_len p = length v" using v bound by (metis length_take min.absorb2)
  have v0: "0 \<notin> set v" "length v < event_buf_len p"
    using none by (auto simp: type_error_def split: if_splits)
  show ?thesis
  proof (cases "b = 0 \<or> event_buf_len p \<le> event_len p + 1")
    case True
    then have "type_error (limits_of p) (v @ [b]) = Some (if b = 0 then SSE_PARSE_ERR_EVENT_TYPE_INVALID
        else SSE_PARSE_ERR_EVENT_TYPE_TOO_LARGE)"
      using v0 len cap by (auto simp: type_error_def)
    then show ?thesis
      using True False field rel outs kd none
      by (auto simp: value_byte_def discard_block_rec value_rel_def spoilt_def value_errors_def
          limits_of_def rel_defs split: if_splits)
  next
    case room: False
    let ?q = "p\<lparr>event_buf := (event_buf p)[event_len p := b], event_len := event_len p + 1\<rparr>"
    have i: "event_len p < length (event_buf p)" using inv room by (auto simp: inv_defs)
    then have "take (event_len ?q) (event_buf ?q) = v @ [b]" using v by simp
    moreover have "value_byte rec_cb b (p, o') = Some (?q, o')"
      using False room i field by (auto simp: value_byte_def mem_simps)
    moreover have "type_error (limits_of p) (v @ [b]) = None"
      using v0 room len by (auto simp: type_error_def)
    ultimately show ?thesis
      using rel outs False none kd
      by (auto simp: value_rel_def spoilt_def value_errors_def limits_of_def rel_defs split: if_splits)
  qed
qed

lemma value_id:
  assumes inv: "parser_inv p" and rel: "value_rel p k F_ID v"
    and outs: "map abs_out o' = A @ value_errors (limits_of p) k F_ID v"
  shows "returns (value_byte rec_cb b (p, o')) (\<lambda>(q, w). value_rel q k F_ID (v @ [b]) \<and>
           map abs_out w = A @ value_errors (limits_of p) k F_ID (v @ [b]))"
proof (cases "id_invalid p")
  case True
  then show ?thesis
    using rel outs
    by (auto simp: value_byte_def value_rel_def spoilt_def value_errors_def id_fits_def split: if_splits)
next
  case False
  have field: "p_field p = F_ID" using rel by (simp add: value_rel_def)
  have v: "take (id_len p) (id_buf p) = v" and fits: "id_fits (limits_of p) v"
    using rel False by (auto simp: value_rel_def)
  have bound: "id_len p \<le> length (id_buf p)" using inv by (auto simp: inv_defs)
  have len: "id_len p = length v" using v bound by (metis length_take min.absorb2)
  show ?thesis
  proof (cases "b = 0 \<or> id_buf_len p \<le> id_len p + 1")
    case True
    then have "\<not> id_fits (limits_of p) (v @ [b])" using len by (auto simp: id_fits_def)
    then show ?thesis
      using True False field rel outs fits
      by (auto simp: value_byte_def value_rel_def spoilt_def value_errors_def
          limits_of_def rel_defs split: if_splits)
  next
    case room: False
    let ?q = "p\<lparr>id_buf := (id_buf p)[id_len p := b], id_len := id_len p + 1\<rparr>"
    have i: "id_len p < length (id_buf p)" using inv room by (auto simp: inv_defs)
    then have "take (id_len ?q) (id_buf ?q) = v @ [b]" using v by simp
    moreover have "value_byte rec_cb b (p, o') = Some (?q, o')"
      using False room i field by (auto simp: value_byte_def mem_simps)
    moreover have "id_fits (limits_of p) (v @ [b])"
      using fits room len by (auto simp: id_fits_def)
    ultimately show ?thesis
      using rel outs False fits
      by (auto simp: value_rel_def spoilt_def value_errors_def limits_of_def rel_defs split: if_splits)
  qed
qed

lemma value_retry:
  assumes rel: "value_rel p k F_RETRY v" and outs: "map abs_out o' = A"
  shows "returns (value_byte rec_cb b (p, o')) (\<lambda>(q, w). value_rel q k F_RETRY (v @ [b]) \<and>
           map abs_out w = A)"
proof (cases "list_all is_digit (v @ [b])")
  case True
  then have "b \<ge> 48" "b \<le> 57" "is_digit b" "list_all is_digit v" by (auto simp: is_digit_def)
  then show ?thesis
    using rel outs
    by (auto simp: value_byte_def value_rel_def spoilt_def value_errors_def limits_of_def rel_defs
        retry_digit_nat decimal_snoc not_less split: if_splits)
next
  case False
  then show ?thesis
    using rel outs
    by (auto simp: value_byte_def value_rel_def spoilt_def value_errors_def limits_of_def rel_defs
        is_digit_def not_less not_le split: if_splits)
qed

lemma value_step:
  assumes inv: "parser_inv p" and rel: "value_rel p k f v" and "f \<noteq> F_NONE" and cap: "0 < event_buf_len p"
    and outs: "map abs_out o' = A @ value_errors (limits_of p) k f v"
  shows "returns (value_byte rec_cb b (p, o')) (\<lambda>(q, w). value_rel q k f (v @ [b]) \<and>
           map abs_out w = A @ value_errors (limits_of p) k f (v @ [b]))"
  using assms value_data value_event value_id value_retry [of p k v o' A b]
  by (cases f) (auto simp: value_errors_def)

section \<open>The end of a value\<close>

lemma take_fill_event:
  assumes "parser_inv p" and "take (event_len p) (event_buf p) = v"
  shows "event_len p = length v"
  using assms by (metis (no_types, lifting) block_inv_def diff_le_self le_trans length_take mem_inv_def min.absorb2 parser_inv_def)

lemma commit_data:
  assumes inv: "parser_inv p" and rel: "value_rel p k F_DATA v"
    and outs: "map abs_out o' = A @ value_errors (limits_of p) k F_DATA v"
  shows "returns (commit_value rec_cb (p, o')) (\<lambda>(q, w). core_rel q (fst (spec_data (limits_of p) v k)) \<and>
           map abs_out w = A @ snd (spec_data (limits_of p) v k))"
proof (cases "block_discarded p")
  case True
  then show ?thesis
    using rel outs
    by (auto simp: commit_value_def value_rel_def core_rel_def spoilt_def value_errors_def spec_data_def
        data_fits_def rel_defs split: if_splits)
next
  case False
  have field: "p_field p = F_DATA" and dr: "data_rel p (blk_data k) v"
    using rel False by (auto simp: value_rel_def)
  have len: "data_len p = length (blk_data k) + length v" by (rule data_rel_length [OF inv dr])
  show ?thesis
  proof (cases "data_len p = data_buf_len p")
    case True
    then show ?thesis
      using rel outs False len field
      by (auto simp: commit_value_def discard_block_rec value_rel_def core_rel_def spoilt_def
          value_errors_def spec_data_def data_fits_def rel_defs split: if_splits)
  next
    case room: False
    have i: "data_len p < length (data_buf p)" "data_len p < data_buf_len p"
      using inv room by (auto simp: inv_defs)
    let ?q = "p\<lparr>data_buf := (data_buf p)[data_len p := LF], data_len := data_len p + 1,
                data_lines := data_lines p + 1, p_field := F_NONE\<rparr>"
    have "commit_value rec_cb (p, o') = Some (?q, o')"
      using False room i field by (simp add: commit_value_def mem_simps)
    moreover have "data_rel ?q (blk_data k @ v @ [LF]) []" using dr i by (simp add: data_rel_def)
    moreover have "data_fits (limits_of p) k v" using i len by (simp add: data_fits_def)
    ultimately show ?thesis
      using rel outs False
      by (auto simp: value_rel_def core_rel_def spoilt_def value_errors_def spec_data_def
          rel_defs split: if_splits)
  qed
qed

lemma commit_event:
  assumes inv: "parser_inv p" and rel: "value_rel p k F_EVENT v"
    and outs: "map abs_out o' = A @ value_errors (limits_of p) k F_EVENT v"
  shows "returns (commit_value rec_cb (p, o')) (\<lambda>(q, w). core_rel q (fst (spec_event (limits_of p) v k)) \<and>
           map abs_out w = A @ snd (spec_event (limits_of p) v k))"
proof (cases "block_discarded p")
  case True
  then show ?thesis
    using rel outs
    by (auto simp: commit_value_def value_rel_def core_rel_def spoilt_def value_errors_def spec_event_def
        rel_defs split: if_splits option.splits)
next
  case False
  then have v: "take (event_len p) (event_buf p) = v" using rel by (simp add: value_rel_def)
  have "event_len p = length v" by (rule take_fill_event [OF inv v])
  then show ?thesis
    using rel outs False
    by (auto simp: commit_value_def value_rel_def core_rel_def spoilt_def value_errors_def spec_event_def
        rel_defs split: if_splits option.splits)
qed

lemma commit_id:
  assumes inv: "parser_inv p" and rel: "value_rel p k F_ID v"
    and outs: "map abs_out o' = A @ value_errors (limits_of p) k F_ID v"
  shows "returns (commit_value rec_cb (p, o')) (\<lambda>(q, w). core_rel q (fst (spec_id (limits_of p) v k)) \<and>
           map abs_out w = A @ snd (spec_id (limits_of p) v k))"
  using assms
  by (auto simp: commit_value_def value_rel_def core_rel_def spoilt_def value_errors_def spec_id_def
      rel_defs split: if_splits)

lemma commit_retry:
  assumes rel: "value_rel p k F_RETRY v" and outs: "map abs_out o' = A"
  shows "returns (commit_value rec_cb (p, o')) (\<lambda>(q, w). core_rel q (fst (spec_retry v k)) \<and>
           map abs_out w = A @ snd (spec_retry v k))"
  using assms
  by (auto simp: commit_value_def value_rel_def core_rel_def spoilt_def spec_retry_def
      rel_defs split: if_splits)

lemma commit_step:
  assumes "parser_inv p" and "value_rel p k f v" and "f \<noteq> F_NONE"
    and "map abs_out o' = A @ value_errors (limits_of p) k f v"
  shows "returns (commit_value rec_cb (p, o')) (\<lambda>(q, w). core_rel q (fst (spec_field (limits_of p) f v k)) \<and>
           map abs_out w = A @ snd (spec_field (limits_of p) f v k))"
  using assms commit_data commit_event commit_id commit_retry [of p k v o' A]
  by (cases f) (auto simp: spec_field_def value_errors_def)

section \<open>The end of a block\<close>

lemma c_string_update: "n < length m \<Longrightarrow> 0 \<notin> set (take n m) \<Longrightarrow> c_string (m[n := 0]) = take n m"
  using c_str_update [of n m] by (auto simp: c_str_def c_string_def split: if_splits)

lemma core_rel_clear: "core_rel (clear_block p) empty_block"
  by (simp add: core_rel_def rel_defs clear_block_def empty_block_def)

lemma dispatch_id_rel:
  assumes inv: "parser_inv p" and rel: "core_rel p k"
  shows "returns (dispatch_id rec_cb (p, o')) (\<lambda>(q, w). \<exists>m. q = p\<lparr>id_buf := m\<rparr> \<and>
           (has_id p \<longrightarrow> Some (c_string m) = blk_id k) \<and>
           map abs_out w = map abs_out o' @ (case blk_id k of None \<Rightarrow> [] | Some i \<Rightarrow> [AId i]))"
proof (cases "has_id p")
  case True
  have i: "id_len p < length (id_buf p)" "0 \<notin> set (take (id_len p) (id_buf p))"
    using inv by (auto simp: inv_defs text_bytes_def)
  have "blk_id k = Some (take (id_len p) (id_buf p))"
    using rel True by (auto simp: core_rel_def id_rel_def)
  then show ?thesis using True i by (auto simp: dispatch_id_def c_string_update)
next
  case False
  then have "blk_id k = None" using rel by (auto simp: core_rel_def id_rel_def)
  then show ?thesis using False by (auto simp: dispatch_id_def intro!: exI [of _ "id_buf p"])
qed

lemma dispatch_event_rel:
  assumes inv: "parser_inv p" and rel: "core_rel p k" and field: "p_field p = F_NONE"
    and id: "has_id p \<longrightarrow> Some (c_string m) = blk_id k"
  shows "returns (dispatch_event rec_cb (p\<lparr>id_buf := m\<rparr>, o')) (\<lambda>(q, w).
           map abs_out w = map abs_out o' @
             (if blk_discarded k \<or> blk_data k = [] then []
              else [AEvent (if blk_type k = [] then None else Some (blk_type k)) (blk_id k) (butlast (blk_data k))]))"
proof (cases "blk_discarded k \<or> blk_data k = []")
  case True
  then show ?thesis
    using rel by (auto simp: dispatch_event_def core_rel_def data_rel_def)
next
  case False
  have d: "take (data_len p) (data_buf p) = blk_data k" "0 < data_lines p" "\<not> block_discarded p"
    and t: "has_event p \<longleftrightarrow> blk_type k \<noteq> []" "has_event p \<longrightarrow> take (event_len p) (event_buf p) = blk_type k"
    and h: "has_id p \<longleftrightarrow> blk_id k \<noteq> None"
    using rel False by (auto simp: core_rel_def rel_defs)
  have n: "0 < data_len p" "data_len p - 1 < length (data_buf p)"
    using inv d by (auto simp: inv_defs)
  have e: "has_event p \<Longrightarrow> event_len p < length (event_buf p) \<and> 0 \<notin> set (take (event_len p) (event_buf p))"
    using inv field by (auto simp: inv_defs text_bytes_def)
  have payload: "take (data_len p - 1) (data_buf p) = butlast (blk_data k)"
    using n by (simp add: d(1) [symmetric] butlast_take)
  show ?thesis
    using d(2,3) n e t h id payload False
    by (auto simp: dispatch_event_def terminate_event_def Let_def c_string_update)
qed

lemma dispatch_block_rel:
  assumes inv: "parser_inv p" and rel: "core_rel p k" and field: "p_field p = F_NONE"
  shows "returns (dispatch_block rec_cb (p, o')) (\<lambda>(q, w). core_rel q (fst (spec_dispatch k)) \<and>
           map abs_out w = map abs_out o' @ snd (spec_dispatch k))"
proof -
  have "returns (do { (q, v) \<leftarrow> dispatch_event rec_cb (p\<lparr>id_buf := m\<rparr>, w); Some (clear_block q, v) })
     (\<lambda>(q, w). core_rel q (fst (spec_dispatch k)) \<and>
           map abs_out w = map abs_out o' @ snd (spec_dispatch k))"
    if "has_id p \<longrightarrow> Some (c_string m) = blk_id k"
      and "map abs_out w = map abs_out o' @ (case blk_id k of None \<Rightarrow> [] | Some i \<Rightarrow> [AId i])" for m w
    using dispatch_event_rel [OF inv rel field that(1), of w] that(2)
    by (auto simp: spec_dispatch_def core_rel_clear elim!: returns_mono)
  then show ?thesis
    using dispatch_id_rel [OF inv rel, of o'] by (auto simp: dispatch_block_def elim!: returns_mono)
qed

section \<open>Through a line\<close>

definition line_rest :: "bytes \<Rightarrow> bytes" where
  "line_rest l = drop (length (line_name l) + 1) l"

text \<open>The parser after the bytes \<open>cur\<close> of the current line.\<close>

definition line_rel :: "sse_parser \<Rightarrow> block \<Rightarrow> bytes \<Rightarrow> bool" where
  "line_rel p k cur \<longleftrightarrow>
     (if cur = [] then p_state p = PS_LINE_START \<and> core_rel p k
      else if hd cur = COLON then p_state p = PS_SKIP_LINE \<and> core_rel p k
      else if COLON \<in> set cur then
        (if field_of_name (line_name cur) = F_NONE then p_state p = PS_SKIP_LINE \<and> core_rel p k
         else value_rel p k (field_of_name (line_name cur)) (line_value cur) \<and>
              p_state p = (if line_rest cur = [] then PS_AFTER_COLON else PS_VALUE))
      else if length cur \<le> 5 then
        p_state p = PS_FIELD_NAME \<and> core_rel p k \<and> name_len p = length cur \<and>
        take (name_len p) (p_name p) = cur
      else p_state p = PS_SKIP_LINE \<and> core_rel p k)"

lemma core_rel_upd [simp]:
  "core_rel (p\<lparr>p_state := st\<rparr>) k = core_rel p k"
  "core_rel (p\<lparr>name_len := n\<rparr>) k = core_rel p k"
  "core_rel (p\<lparr>p_name := m\<rparr>) k = core_rel p k"
  "core_rel (p\<lparr>p_field := f\<rparr>) k = core_rel p k"
  "core_rel (p\<lparr>swallow_lf := v\<rparr>) k = core_rel p k"
  "core_rel (p\<lparr>bom_n := n\<rparr>) k = core_rel p k"
  by (simp_all add: core_rel_def rel_defs)

lemma value_rel_upd [simp]:
  "value_rel (p\<lparr>p_state := st\<rparr>) k f v = value_rel p k f v"
  "value_rel (p\<lparr>swallow_lf := w\<rparr>) k f v = value_rel p k f v"
  by (simp_all add: value_rel_def rel_defs limits_of_def)

lemma limits_of_upd [simp]:
  "limits_of (p\<lparr>p_state := st\<rparr>) = limits_of p" "limits_of (p\<lparr>swallow_lf := w\<rparr>) = limits_of p"
  "limits_of (p\<lparr>name_len := n\<rparr>) = limits_of p" "limits_of (p\<lparr>p_field := f\<rparr>) = limits_of p"
  by (simp_all add: limits_of_def)

lemma line_name_no_colon: "COLON \<notin> set l \<Longrightarrow> line_name l = l"
  unfolding line_name_def by (subst takeWhile_eq_all_conv) auto

lemma line_name_snoc_colon: "COLON \<in> set l \<Longrightarrow> line_name (l @ [b]) = line_name l"
  unfolding line_name_def by (rule takeWhile_append1) auto

lemma line_name_colon: "COLON \<notin> set l \<Longrightarrow> line_name (l @ [COLON]) = l"
  unfolding line_name_def by (subst takeWhile_append2) auto

lemma length_line_name: "COLON \<in> set l \<Longrightarrow> length (line_name l) < length l"
  unfolding line_name_def by (induction l) auto

lemma line_rest_snoc: "COLON \<in> set l \<Longrightarrow> line_rest (l @ [b]) = line_rest l @ [b]"
  using length_line_name [of l] by (simp add: line_rest_def line_name_snoc_colon)

lemma line_value_rest: "line_value l = strip_space (line_rest l)"
  by (simp add: line_value_def line_rest_def)

lemma strip_space_snoc: "r \<noteq> [] \<Longrightarrow> strip_space (r @ [b]) = strip_space r @ [b]"
  by (cases r) (auto simp: strip_space_def)

lemma line_rest_colon: "COLON \<notin> set l \<Longrightarrow> line_rest (l @ [COLON]) = []"
  by (simp add: line_rest_def line_name_colon)

lemma line_value_no_colon: "COLON \<notin> set l \<Longrightarrow> line_value l = []"
  by (simp add: line_value_def line_name_no_colon strip_space_def)

lemma field_of_name_long: "5 < length l \<Longrightarrow> field_of_name l = F_NONE"
  by (auto simp: field_of_name_def bytes_of_def)

lemma value_errors_start:
  assumes "parser_inv p" "core_rel p k" "f \<noteq> F_NONE" "0 < event_buf_len p"
  shows "value_errors (limits_of p) k f [] = []"
proof -
  have "\<not> blk_discarded k \<Longrightarrow> data_rel p (blk_data k) []" using assms(2) by (simp add: core_rel_def)
  then have "\<not> blk_discarded k \<Longrightarrow> length (blk_data k) \<le> data_buf_len p"
    using data_rel_length [OF assms(1), of "blk_data k" "[]"] assms(1) by (auto simp: inv_defs)
  then show ?thesis
    using assms(1,3,4)
    by (cases f) (auto simp: value_errors_def type_error_def id_fits_def inv_defs)
qed

lemma start_value_rel:
  assumes "parser_inv p" "core_rel p k" "f \<noteq> F_NONE" "0 < event_buf_len p"
  shows "value_rel ((start_value (p\<lparr>p_field := f\<rparr>))\<lparr>p_state := st\<rparr>) k f []"
proof -
  have "value_errors (limits_of p) k f [] = []" by (rule value_errors_start [OF assms])
  then show ?thesis
    using assms
    by (cases f)
       (auto simp: start_value_def value_rel_def core_rel_def spoilt_def rel_defs limits_of_def
          id_fits_def decimal_def inv_defs split: if_splits)
qed

lemma resolve_rel:
  assumes inv: "parser_inv p" and core: "core_rel p k" and cap: "0 < event_buf_len p"
    and name: "take (name_len p) (p_name p) = nm"
  shows "returns (resolve_field_name rec_cb (p, o')) (\<lambda>(q, w).
     if field_of_name nm = F_NONE
     then p_state q = PS_SKIP_LINE \<and> core_rel q k \<and> w = o' @ [OError SSE_PARSE_ERR_UNKNOWN_FIELD]
     else p_state q = PS_AFTER_COLON \<and> value_rel q k (field_of_name nm) [] \<and> w = o')"
proof (cases "field_of_name nm = F_NONE")
  case True
  then show ?thesis using name core by (auto simp: resolve_field_name_def Let_def)
next
  case False
  then show ?thesis
    using name start_value_rel [OF inv core False cap]
    by (auto simp: resolve_field_name_def Let_def)
qed

lemma value_errors_none [simp]: "value_errors L k F_NONE v = [AError SSE_PARSE_ERR_UNKNOWN_FIELD]"
  by (simp add: value_errors_def)

lemma value_byte_state:
  "value_byte cb b (p, u) = Some (q, w) \<Longrightarrow> p_state q = p_state p \<and> swallow_lf q = swallow_lf p"
  by (auto simp: value_byte_def discard_block_def emit_perr_def bind_eq_Some_conv
      split: parser_field.splits if_splits)

lemma name_step:
  assumes inv: "parser_inv p" and core: "core_rel p k" and cap: "0 < event_buf_len p"
    and cur: "COLON \<notin> set cur" "length cur \<le> 5" "cur \<noteq> [] \<or> b \<noteq> COLON"
    and name: "name_len p = length cur" "take (name_len p) (p_name p) = cur"
    and st: "p_state p = PS_FIELD_NAME"
    and outs: "map abs_out o' = A"
  shows "returns (name_byte rec_cb b (p, o')) (\<lambda>(q, w). line_rel q k (cur @ [b]) \<and>
           map abs_out w = A @ partial_errors (limits_of p) k (cur @ [b]))"
proof (cases "b = COLON")
  case True
  with cur have ne: "cur \<noteq> []" by simp
  then have hd: "hd cur \<noteq> COLON" "hd (cur @ [b]) = hd cur" using cur(1) by (cases cur; auto)+
  have "value_errors (limits_of p) k f [] = []" if "f \<noteq> F_NONE" for f
    by (rule value_errors_start [OF inv core that cap])
  then show ?thesis
    using True ne hd resolve_rel [OF inv core cap name(2), of o'] outs cur(1)
    by (auto simp: name_byte_def line_rel_def partial_errors_def line_name_colon line_rest_colon
        line_value_rest strip_space_def elim!: returns_mono split: if_splits)
next
  case False
  have len: "length (p_name p) = 8" using inv by (simp add: inv_defs)
  have hd: "hd (cur @ [b]) \<noteq> COLON" using False cur(1) by (cases cur) auto
  let ?q = "p\<lparr>p_name := (p_name p)[name_len p := b], name_len := name_len p + 1\<rparr>"
  have nm: "take (name_len ?q) (p_name ?q) = cur @ [b]" using name len cur(2) by simp
  show ?thesis
    using False len name cur nm hd outs core st
    by (auto simp: name_byte_def line_rel_def partial_errors_def)
qed

lemma line_step:
  assumes inv: "parser_inv p" and rel: "line_rel p k cur" and cap: "0 < event_buf_len p"
    and b: "b \<noteq> CR" "b \<noteq> LF"
    and outs: "map abs_out o' = A @ partial_errors (limits_of p) k cur"
  shows "returns (line_byte rec_cb b (p, o')) (\<lambda>(q, w). line_rel q k (cur @ [b]) \<and>
           map abs_out w = A @ partial_errors (limits_of p) k (cur @ [b]))"
proof (cases "cur = []")
  case True
  then have st: "p_state p = PS_LINE_START" and core: "core_rel p k" and o: "map abs_out o' = A"
    using rel outs by (auto simp: line_rel_def partial_errors_def)
  show ?thesis
  proof (cases "b = COLON")
    case True
    then show ?thesis
      using st core o \<open>cur = []\<close> by (simp add: line_byte_def line_rel_def partial_errors_def b COLON_def CR_def LF_def)
  next
    case False
    let ?p = "p\<lparr>p_state := PS_FIELD_NAME, name_len := 0\<rparr>"
    have "parser_inv ?p" using inv st by (auto simp: inv_defs)
    then have "returns (name_byte rec_cb b (?p, o')) (\<lambda>(q, w). line_rel q k ([] @ [b]) \<and>
           map abs_out w = A @ partial_errors (limits_of ?p) k ([] @ [b]))"
      using core cap False o by (intro name_step) auto
    then show ?thesis using b st False \<open>cur = []\<close> by (simp add: line_byte_def)
  qed
next
  case ne: False
  then have hd: "hd (cur @ [b]) = hd cur" by simp
  consider (comment) "hd cur = COLON"
    | (unknown) "hd cur \<noteq> COLON" "COLON \<in> set cur" "field_of_name (line_name cur) = F_NONE"
    | (field) "hd cur \<noteq> COLON" "COLON \<in> set cur" "field_of_name (line_name cur) \<noteq> F_NONE"
    | (name) "hd cur \<noteq> COLON" "COLON \<notin> set cur" "length cur \<le> 5"
    | (long) "hd cur \<noteq> COLON" "COLON \<notin> set cur" "5 < length cur"
    using ne by fastforce
  then show ?thesis
  proof cases
    case comment
    then show ?thesis
      using rel outs b ne hd by (simp add: line_byte_def line_rel_def partial_errors_def)
  next
    case unknown
    then show ?thesis
      using rel outs b ne hd
      by (simp add: line_byte_def line_rel_def partial_errors_def line_name_snoc_colon)
  next
    case field
    let ?f = "field_of_name (line_name cur)"
    have vr: "value_rel p k ?f (line_value cur)"
      and st: "p_state p = (if line_rest cur = [] then PS_AFTER_COLON else PS_VALUE)"
      and o: "map abs_out o' = A @ value_errors (limits_of p) k ?f (line_value cur)"
      using rel field ne outs by (auto simp: line_rel_def partial_errors_def)
    have "parser_inv (p\<lparr>p_state := PS_VALUE\<rparr>)"
      using inv st by (auto simp: inv_defs split: if_splits)
    then have vs0: "returns (value_byte rec_cb b (p\<lparr>p_state := PS_VALUE\<rparr>, o')) (\<lambda>(q, w).
        value_rel q k ?f (line_value cur @ [b]) \<and>
        map abs_out w = A @ value_errors (limits_of p) k ?f (line_value cur @ [b]))"
      using value_step [of "p\<lparr>p_state := PS_VALUE\<rparr>" k ?f "line_value cur" o' A b] vr field(3) cap o by simp
    have vs: "returns (value_byte rec_cb b (p\<lparr>p_state := PS_VALUE\<rparr>, o')) (\<lambda>(q, w).
        value_rel q k ?f (line_value cur @ [b]) \<and> p_state q = PS_VALUE \<and>
        map abs_out w = A @ value_errors (limits_of p) k ?f (line_value cur @ [b]))"
      using vs0 value_byte_state [of rec_cb b "p\<lparr>p_state := PS_VALUE\<rparr>" o']
      by (auto elim!: returns_strengthen)
    have next_name: "line_name (cur @ [b]) = line_name cur" "line_rest (cur @ [b]) = line_rest cur @ [b]"
      using field(2) by (simp_all add: line_name_snoc_colon line_rest_snoc)
    show ?thesis
    proof (cases "line_rest cur = [] \<and> b = SPACE")
      case True
      then have "line_value (cur @ [b]) = []" "line_value cur = []"
        using next_name by (simp_all add: line_value_rest strip_space_def)
      then show ?thesis
        using True st b vr o ne hd field next_name
        by (simp add: line_byte_def line_rel_def partial_errors_def)
    next
      case False
      then have "line_value (cur @ [b]) = line_value cur @ [b]"
        using next_name(2) strip_space_snoc [of "line_rest cur" b]
        by (cases "line_rest cur = []") (auto simp: line_value_rest strip_space_def)
      moreover have "line_byte rec_cb b (p, o') = value_byte rec_cb b (p\<lparr>p_state := PS_VALUE\<rparr>, o')"
        using False st b by (auto simp: line_byte_def Let_def set_state_id)
      ultimately show ?thesis
        using vs ne hd field next_name
        by (auto simp: line_rel_def partial_errors_def elim!: returns_mono)
    qed
  next
    case name
    then have st: "p_state p = PS_FIELD_NAME" and core: "core_rel p k" and o: "map abs_out o' = A"
      and nm: "name_len p = length cur" "take (name_len p) (p_name p) = cur"
      using rel outs ne by (auto simp: line_rel_def partial_errors_def)
    have "line_byte rec_cb b (p, o') = name_byte rec_cb b (p, o')"
      using st b by (simp add: line_byte_def)
    then show ?thesis
      using name_step [OF inv core cap name(2,3) _ nm st o, of b] ne by simp
  next
    case long
    then show ?thesis
      using rel outs b ne hd
      by (auto simp: line_byte_def line_rel_def partial_errors_def line_name_colon field_of_name_long)
  qed
qed

lemma core_line_start: "p_state p = PS_LINE_START \<Longrightarrow> core_rel p k \<Longrightarrow> line_rel p k []"
  by (simp add: line_rel_def)

lemma line_finish:
  assumes inv: "parser_inv p" and rel: "line_rel p k cur" and cap: "0 < event_buf_len p"
    and outs: "map abs_out o' = A @ partial_errors (limits_of p) k cur"
  shows "returns (line_end rec_cb (p, o')) (\<lambda>(q, w).
           line_rel q (fst (spec_line (limits_of p) cur k)) [] \<and>
           map abs_out w = A @ snd (spec_line (limits_of p) cur k))"
proof (cases "cur = []")
  case True
  then have st: "p_state p = PS_LINE_START" and core: "core_rel p k" and o: "map abs_out o' = A"
    using rel outs by (auto simp: line_rel_def partial_errors_def)
  moreover have "p_field p = F_NONE" using inv st by (auto simp: inv_defs)
  ultimately show ?thesis
    using dispatch_block_rel [OF inv core, of o'] True
    by (auto simp: line_end_def spec_line_def intro!: core_line_start elim!: returns_mono)
next
  case ne: False
  consider (comment) "hd cur = COLON"
    | (unknown) "hd cur \<noteq> COLON" "COLON \<in> set cur" "field_of_name (line_name cur) = F_NONE"
    | (field) "hd cur \<noteq> COLON" "COLON \<in> set cur" "field_of_name (line_name cur) \<noteq> F_NONE"
    | (name) "hd cur \<noteq> COLON" "COLON \<notin> set cur" "length cur \<le> 5"
    | (long) "hd cur \<noteq> COLON" "COLON \<notin> set cur" "5 < length cur"
    using ne by fastforce
  then show ?thesis
  proof cases
    case comment
    then show ?thesis
      using rel outs ne
      by (auto simp: line_end_def line_rel_def [of p] partial_errors_def spec_line_def intro!: core_line_start)
  next
    case unknown
    then show ?thesis
      using rel outs ne
      by (auto simp: line_end_def line_rel_def [of p] partial_errors_def spec_line_def spec_field_def
          intro!: core_line_start)
  next
    case field
    let ?f = "field_of_name (line_name cur)"
    have vr: "value_rel p k ?f (line_value cur)"
      and st: "p_state p = PS_AFTER_COLON \<or> p_state p = PS_VALUE"
      and o: "map abs_out o' = A @ value_errors (limits_of p) k ?f (line_value cur)"
      using rel field ne outs by (auto simp: line_rel_def partial_errors_def)
    show ?thesis
      using commit_step [OF inv vr field(3) o] st field ne
      by (auto simp: line_end_def spec_line_def intro!: core_line_start elim!: returns_mono)
  next
    case name
    then have st: "p_state p = PS_FIELD_NAME" and core: "core_rel p k" and nm: "take (name_len p) (p_name p) = cur"
      and o: "map abs_out o' = A"
      using rel outs ne by (auto simp: line_rel_def partial_errors_def)
    let ?f = "field_of_name cur"
    let ?m = "resolve_field_name rec_cb (p, o')"
    have res: "returns ?m (\<lambda>x. (case x of (q, w) \<Rightarrow> if ?f = F_NONE
         then p_state q = PS_SKIP_LINE \<and> core_rel q k \<and> w = o' @ [OError SSE_PARSE_ERR_UNKNOWN_FIELD]
         else p_state q = PS_AFTER_COLON \<and> value_rel q k ?f [] \<and> w = o') \<and>
       (case x of (q, w) \<Rightarrow> parser_inv q \<and> caps q = caps p))"
      by (rule returns_conj [OF resolve_rel [OF inv core cap nm] resolve_inv [OF inv st]])
    have sl: "spec_line (limits_of p) cur k = spec_field (limits_of p) ?f [] k"
      using ne name by (simp add: spec_line_def line_name_no_colon line_value_no_colon)
    show ?thesis
    proof (cases "?f = F_NONE")
      case True
      then show ?thesis
        using res st o
        by (auto simp: line_end_def sl spec_field_def intro!: core_line_start elim!: returns_mono)
    next
      case False
      have "returns (do { (p, u) \<leftarrow> commit_value rec_cb (q, o'); Some (p\<lparr>p_state := PS_LINE_START\<rparr>, u) })
        (\<lambda>(q, w). line_rel q (fst (spec_field (limits_of p) ?f [] k)) [] \<and>
          map abs_out w = A @ snd (spec_field (limits_of p) ?f [] k))"
        if "parser_inv q" "caps q = caps p" "value_rel q k ?f []" for q
        using commit_step [OF that(1,3) False, of o' A] value_errors_start [OF inv core False cap] o
        by (auto simp: limits_of_caps [OF that(2)] intro!: core_line_start elim!: returns_mono)
      then show ?thesis
        using res st False by (auto simp: line_end_def sl elim!: returns_mono)
    qed
  next
    case long
    then show ?thesis
      using rel outs ne
      by (auto simp: line_end_def line_rel_def [of p] partial_errors_def spec_line_def spec_field_def
          line_name_no_colon field_of_name_long intro!: core_line_start)
  qed
qed

section \<open>A stream\<close>

text \<open>
  The parser between two bytes, past the byte-order mark: it has read \<open>cur\<close> of
  the current line, and its outputs so far are \<open>A\<close> and what the unfinished line
  has caused.
\<close>

definition stream_rel :: "limits \<Rightarrow> sse_parser \<times> parser_out list \<Rightarrow> block \<Rightarrow> bytes \<Rightarrow> sse_out list \<Rightarrow> bool" where
  "stream_rel L s k cur A \<longleftrightarrow> parser_inv (fst s) \<and> limits_of (fst s) = L \<and> 0 < type_cap L \<and>
     p_state (fst s) \<noteq> PS_BOM \<and> line_rel (fst s) k cur \<and>
     map abs_out (snd s) = A @ partial_errors L k cur"

lemma parser_inv_swallow: "parser_inv p \<Longrightarrow> p_state p \<noteq> PS_BOM \<Longrightarrow> parser_inv (p\<lparr>swallow_lf := v\<rparr>)"
  by (auto simp: inv_defs)

lemma line_rel_swallow [simp]: "line_rel (p\<lparr>swallow_lf := v\<rparr>) k cur = line_rel p k cur"
  by (simp add: line_rel_def)

lemma line_byte_plain:
  assumes "b \<noteq> CR" "b \<noteq> LF" and "p_state p \<noteq> PS_BOM"
  shows "line_byte cb b (p, u) = Some (q, w) \<Longrightarrow> swallow_lf q = swallow_lf p"
  using assms
  by (cases "p_state p")
     (auto simp: line_byte_def name_byte_def resolve_field_name_def emit_perr_def Let_def start_value_def
        bind_eq_Some_conv dest!: value_byte_state split: if_splits parser_field.splits)

lemma stream_plain:
  assumes rel: "stream_rel L (p, o') k cur A" and b: "b \<noteq> CR" "b \<noteq> LF"
  shows "returns (line_byte rec_cb b (p, o')) (\<lambda>s. stream_rel L s k (cur @ [b]) A)"
proof -
  have inv: "parser_inv p" "p_state p \<noteq> PS_BOM" and lr: "line_rel p k cur" and L: "limits_of p = L"
    and cap: "0 < event_buf_len p" and o: "map abs_out o' = A @ partial_errors (limits_of p) k cur"
    using rel by (auto simp: stream_rel_def)
  show ?thesis
    using returns_conj [OF line_step [OF inv(1) lr cap b o] line_byte_inv [OF inv, of b o']] cap L
    by (auto simp: stream_rel_def elim!: returns_mono dest!: limits_of_caps)
qed

lemma stream_line_end:
  assumes rel: "stream_rel L (p, o') k cur A"
  shows "returns (line_end rec_cb (p, o')) (\<lambda>s. p_state (fst s) = PS_LINE_START \<and>
           stream_rel L s (fst (spec_line L cur k)) [] (A @ snd (spec_line L cur k)))"
proof -
  have inv: "parser_inv p" "p_state p \<noteq> PS_BOM" and lr: "line_rel p k cur" and L: "limits_of p = L"
    and cap: "0 < event_buf_len p" and o: "map abs_out o' = A @ partial_errors (limits_of p) k cur"
    using rel by (auto simp: stream_rel_def)
  have pe: "partial_errors L k' [] = []" for k' by (simp add: partial_errors_def)
  show ?thesis
    using returns_conj [OF line_finish [OF inv(1) lr cap o] line_end_inv [OF inv, of o']] cap L
    by (auto simp: stream_rel_def pe elim!: returns_mono dest!: limits_of_caps)
qed

lemma dispatch_id_swallow: "dispatch_id cb (p, u) = Some (q, w) \<Longrightarrow> swallow_lf q = swallow_lf p"
  by (auto simp: dispatch_id_def bind_eq_Some_conv split: if_splits)

lemma terminate_event_swallow: "terminate_event p = Some q \<Longrightarrow> swallow_lf q = swallow_lf p"
  by (auto simp: terminate_event_def bind_eq_Some_conv split: if_splits)

lemma dispatch_event_swallow: "dispatch_event cb (p, u) = Some (q, w) \<Longrightarrow> swallow_lf q = swallow_lf p"
  by (auto simp: dispatch_event_def Let_def bind_eq_Some_conv dest!: terminate_event_swallow
      split: if_splits option.splits)

lemma dispatch_block_swallow:
  assumes "dispatch_block cb (p, u) = Some (q, w)"
  shows "swallow_lf q = swallow_lf p"
proof -
  obtain p1 u1 p2 where "dispatch_id cb (p, u) = Some (p1, u1)" "dispatch_event cb (p1, u1) = Some (p2, w)"
    and q: "q = clear_block p2"
    using assms by (auto simp: dispatch_block_def bind_eq_Some_conv)
  then show ?thesis
    by (auto simp: clear_block_def dest!: dispatch_id_swallow dispatch_event_swallow)
qed

lemma commit_value_swallow:
  "commit_value cb (p, u) = Some (q, w) \<Longrightarrow> swallow_lf q = swallow_lf p"
  by (auto simp: commit_value_def discard_block_def emit_perr_def bind_eq_Some_conv
      split: if_splits parser_field.splits)

lemma resolve_swallow:
  "resolve_field_name cb (p, u) = Some (q, w) \<Longrightarrow> swallow_lf q = swallow_lf p"
  by (auto simp: resolve_field_name_def emit_perr_def Let_def start_value_def bind_eq_Some_conv
      split: if_splits parser_field.splits)

lemma line_end_swallow:
  "line_end cb (p, u) = Some (q, w) \<Longrightarrow> swallow_lf q = swallow_lf p \<and> p_state q = PS_LINE_START"
  by (cases "p_state p")
     (auto simp: line_end_def bind_eq_Some_conv split: if_splits
       dest!: dispatch_block_swallow commit_value_swallow resolve_swallow)

lemma line_byte_not_bom:
  assumes "line_byte cb b (p, u) = Some (q, w)" and "p_state p \<noteq> PS_BOM"
  shows "p_state q \<noteq> PS_BOM"
  using assms
  by (cases "p_state p")
     (auto simp: line_byte_def name_byte_def resolve_field_name_def emit_perr_def Let_def
        bind_eq_Some_conv dest!: value_byte_state line_end_swallow split: if_splits)

lemma process_byte_plain:
  assumes "p_state p \<noteq> PS_BOM" and "\<not> (swallow_lf p \<and> b = LF)"
  shows "process_byte cb b (p, u) = line_byte cb b (p\<lparr>swallow_lf := False\<rparr>, u)"
  using assms by (auto simp: process_byte_def Let_def)

lemma set_swallow_id: "\<not> swallow_lf p \<Longrightarrow> p\<lparr>swallow_lf := False\<rparr> = p"
  by simp

lemma foldM_line_byte:
  assumes "p_state p \<noteq> PS_BOM" and "\<not> swallow_lf p" and "CR \<notin> set bs" "LF \<notin> set bs"
  shows "foldM (line_byte cb) bs (p, u) = foldM (process_byte cb) bs (p, u)"
  using assms
proof (induction bs arbitrary: p u)
  case Nil
  then show ?case by simp
next
  case (Cons b bs)
  have "process_byte cb b (p, u) = line_byte cb b (p, u)"
    using Cons.prems process_byte_plain [of p b cb u] by (simp add: set_swallow_id)
  moreover have "foldM (line_byte cb) bs s = foldM (process_byte cb) bs s"
    if "line_byte cb b (p, u) = Some s" for s
    using that Cons.IH [of "fst s" "snd s"] Cons.prems line_byte_not_bom [of cb b p u "fst s" "snd s"]
      line_byte_plain [of b p cb u "fst s" "snd s"] by auto
  ultimately show ?case by (cases "line_byte cb b (p, u)") simp_all
qed

text \<open>
  The equation of the source for the byte-order-mark section, with \<open>process_byte\<close>
  calling itself on the replayed bytes.
\<close>

lemma process_byte_recursive:
  assumes "p_state p = PS_BOM" and "\<not> swallow_lf p" and "bom_n p < 3" and "b \<noteq> SSE_BOM ! bom_n p"
  shows "process_byte cb b (p, u) =
    do { s \<leftarrow> foldM (process_byte cb) (take (bom_n p) SSE_BOM) (p\<lparr>bom_n := 0, p_state := PS_LINE_START\<rparr>, u);
         line_byte cb b s }"
proof -
  have len: "length SSE_BOM = 3" by (simp add: SSE_BOM_def)
  have "CR \<notin> set (take n SSE_BOM)" "LF \<notin> set (take n SSE_BOM)" for n
    by (auto simp: SSE_BOM_def CR_def LF_def dest!: in_set_takeD)
  then have replayed: "foldM (line_byte cb) (take n SSE_BOM) (p\<lparr>bom_n := 0, p_state := PS_LINE_START\<rparr>, u) =
      foldM (process_byte cb) (take n SSE_BOM) (p\<lparr>bom_n := 0, p_state := PS_LINE_START\<rparr>, u)" for n
    using assms(2) by (intro foldM_line_byte) auto
  have "process_byte cb b (p, u) =
    do { s \<leftarrow> foldM (line_byte cb) (take (bom_n p) SSE_BOM)
             ((p\<lparr>swallow_lf := False\<rparr>)\<lparr>bom_n := 0, p_state := PS_LINE_START\<rparr>, u);
         line_byte cb b s }"
    using assms len by (simp add: process_byte_def Let_def buf_read_def)
  then show ?thesis unfolding set_swallow_id [OF assms(2)] replayed .
qed

lemma run_stream:
  assumes "stream_rel L (p, o') k cur A"
  shows "returns (foldM (process_byte rec_cb) bs (p, o')) (\<lambda>s.
     case split_lines cur (if swallow_lf p then drop_lf bs else bs) of (ls, r) \<Rightarrow>
       case spec_lines L ls k of (k', outs) \<Rightarrow> stream_rel L s k' r (A @ outs))"
  using assms
proof (induction bs arbitrary: p o' k cur A)
  case Nil
  then show ?case by (simp add: drop_lf_def)
next
  case (Cons b bs)
  have nb: "p_state p \<noteq> PS_BOM" using Cons.prems by (simp add: stream_rel_def)
  have rel': "stream_rel L (p\<lparr>swallow_lf := False\<rparr>, o') k cur A"
    using Cons.prems by (auto simp: stream_rel_def intro: parser_inv_swallow)
  show ?case
  proof (cases "swallow_lf p \<and> b = LF")
    case True
    then have "process_byte rec_cb b (p, o') = Some (p\<lparr>swallow_lf := False\<rparr>, o')"
      by (simp add: process_byte_def)
    then show ?thesis using True Cons.IH [OF rel'] by (simp add: drop_lf_def)
  next
    case False
    then have pb: "process_byte rec_cb b (p, o') = line_byte rec_cb b (p\<lparr>swallow_lf := False\<rparr>, o')"
      by (rule process_byte_plain [OF nb])
    have in_bs: "(if swallow_lf p then drop_lf (b # bs) else b # bs) = b # bs"
      using False by (auto simp: drop_lf_def)
    consider (lf) "b = LF" | (cr) "b = CR" | (plain) "b \<noteq> LF" "b \<noteq> CR" by blast
    then show ?thesis
    proof cases
      case lf
      have "returns (line_end rec_cb (p\<lparr>swallow_lf := False\<rparr>, o')) (\<lambda>s. \<not> swallow_lf (fst s) \<and>
              stream_rel L s (fst (spec_line L cur k)) [] (A @ snd (spec_line L cur k)))"
        by (rule returns_strengthen [OF stream_line_end [OF rel']]) (auto dest!: line_end_swallow)
      then have "returns (line_end rec_cb (p\<lparr>swallow_lf := False\<rparr>, o')) (\<lambda>s.
          returns (foldM (process_byte rec_cb) bs s) (\<lambda>s. case split_lines [] bs of (ls, r) \<Rightarrow>
            case spec_lines L ls (fst (spec_line L cur k)) of (k', outs) \<Rightarrow>
              stream_rel L s k' r (A @ snd (spec_line L cur k) @ outs)))"
        by (rule returns_mono) (use Cons.IH in \<open>fastforce\<close>)
      then show ?thesis
        using lf pb in_bs by (auto simp: line_byte_def CR_def LF_def split_beta Let_def)
    next
      case cr
      have "returns (line_end rec_cb (p\<lparr>swallow_lf := False\<rparr>, o')) (\<lambda>s.
          stream_rel L ((fst s)\<lparr>swallow_lf := True\<rparr>, snd s) (fst (spec_line L cur k)) [] (A @ snd (spec_line L cur k)))"
        by (rule returns_mono [OF stream_line_end [OF rel']])
           (auto simp: stream_rel_def intro: parser_inv_swallow)
      then have "returns (line_byte rec_cb b (p\<lparr>swallow_lf := False\<rparr>, o')) (\<lambda>s. swallow_lf (fst s) \<and>
          stream_rel L s (fst (spec_line L cur k)) [] (A @ snd (spec_line L cur k)))"
        using cr by (auto simp: line_byte_def elim!: returns_mono)
      then have "returns (line_byte rec_cb b (p\<lparr>swallow_lf := False\<rparr>, o')) (\<lambda>s.
          returns (foldM (process_byte rec_cb) bs s) (\<lambda>s. case split_lines [] (drop_lf bs) of (ls, r) \<Rightarrow>
            case spec_lines L ls (fst (spec_line L cur k)) of (k', outs) \<Rightarrow>
              stream_rel L s k' r (A @ snd (spec_line L cur k) @ outs)))"
        by (rule returns_mono) (use Cons.IH in \<open>fastforce\<close>)
      then show ?thesis
        using cr pb in_bs by (auto simp: CR_def LF_def split_beta Let_def)
    next
      case plain
      have "returns (line_byte rec_cb b (p\<lparr>swallow_lf := False\<rparr>, o')) (\<lambda>s. \<not> swallow_lf (fst s) \<and>
          stream_rel L s k (cur @ [b]) A)"
        by (rule returns_strengthen [OF stream_plain [OF rel' plain(2,1)]])
           (use nb plain in \<open>auto dest!: line_byte_plain [rotated 3]\<close>)
      then have "returns (line_byte rec_cb b (p\<lparr>swallow_lf := False\<rparr>, o')) (\<lambda>s.
          returns (foldM (process_byte rec_cb) bs s) (\<lambda>s. case split_lines (cur @ [b]) bs of (ls, r) \<Rightarrow>
            case spec_lines L ls k of (k', outs) \<Rightarrow> stream_rel L s k' r (A @ outs)))"
        by (rule returns_mono) (use Cons.IH in \<open>fastforce\<close>)
      then show ?thesis using plain pb in_bs by simp
    qed
  qed
qed

section \<open>From the initial parser\<close>

text \<open>
  The byte-order-mark section as a whole: after \<open>n\<close> matching bytes, the parser
  either completes the mark, or is still inside it, or goes on as if it had seen
  the matched bytes as ordinary ones.
\<close>

lemma bom_length: "length SSE_BOM = 3"
  by (simp add: SSE_BOM_def)

lemma drop_bom: "n < 3 \<Longrightarrow> drop n SSE_BOM = SSE_BOM ! n # drop (Suc n) SSE_BOM"
  by (simp add: Cons_nth_drop_Suc bom_length)

definition after_bom :: "sse_parser_buffers \<Rightarrow> sse_parser" where
  "after_bom B = (sse_parser_init B)\<lparr>p_state := PS_LINE_START\<rparr>"

definition in_bom :: "sse_parser_buffers \<Rightarrow> nat \<Rightarrow> sse_parser" where
  "in_bom B n = (sse_parser_init B)\<lparr>bom_n := n\<rparr>"

lemma in_bom_simps [simp]:
  "p_state (in_bom B n) = PS_BOM" "swallow_lf (in_bom B n) = False" "bom_n (in_bom B n) = n"
  "(in_bom B n)\<lparr>bom_n := m\<rparr> = in_bom B m"
  "(in_bom B 0)\<lparr>p_state := PS_LINE_START\<rparr> = after_bom B"
  "(in_bom B n)\<lparr>p_state := PS_LINE_START, bom_n := 0\<rparr> = after_bom B"
  by (simp_all add: in_bom_def after_bom_def sse_parser_init_def)

lemma after_bom_simps [simp]:
  "p_state (after_bom B) = PS_LINE_START" "swallow_lf (after_bom B) = False"
  by (simp_all add: after_bom_def sse_parser_init_def)

lemma bom_match:
  assumes "n < 3"
  shows "process_byte cb (SSE_BOM ! n) (in_bom B n, u) =
           Some (if n = 2 then after_bom B else in_bom B (Suc n), u)"
  using assms by (simp add: process_byte_def Let_def set_swallow_id buf_read_def bom_length)

lemma init_in_bom: "sse_parser_init B = in_bom B 0"
  by (simp add: in_bom_def sse_parser_init_def)

lemma plain_run_state:
  assumes "foldM (process_byte cb) bs (p, u) = Some (q, w)"
    and "p_state p \<noteq> PS_BOM" "\<not> swallow_lf p" "CR \<notin> set bs" "LF \<notin> set bs"
  shows "p_state q \<noteq> PS_BOM \<and> \<not> swallow_lf q"
  using assms
proof (induction bs arbitrary: p u)
  case Nil
  then show ?case by simp
next
  case (Cons b bs)
  obtain p1 u1 where step: "line_byte cb b (p, u) = Some (p1, u1)"
    and rest: "foldM (process_byte cb) bs (p1, u1) = Some (q, w)"
    using Cons.prems process_byte_plain [of p b cb u] by (auto simp: set_swallow_id bind_eq_Some_conv)
  have "p_state p1 \<noteq> PS_BOM" "\<not> swallow_lf p1"
    using line_byte_not_bom [OF step] line_byte_plain [OF _ _ _ step] Cons.prems by auto
  then show ?case using Cons.IH [OF rest] Cons.prems by simp
qed

lemma bom_mismatch:
  assumes "n < 3" and "b \<noteq> SSE_BOM ! n"
  shows "process_byte cb b (in_bom B n, u) = foldM (process_byte cb) (take n SSE_BOM @ [b]) (after_bom B, u)"
proof -
  have "process_byte cb b (in_bom B n, u) =
      do { s \<leftarrow> foldM (process_byte cb) (take n SSE_BOM) (after_bom B, u); line_byte cb b s }"
    using process_byte_recursive [of "in_bom B n" b cb u] assms by simp
  moreover have no: "CR \<notin> set (take n SSE_BOM)" "LF \<notin> set (take n SSE_BOM)"
    by (auto simp: SSE_BOM_def CR_def LF_def dest!: in_set_takeD)
  moreover have "line_byte cb b s = process_byte cb b s"
    if "foldM (process_byte cb) (take n SSE_BOM) (after_bom B, u) = Some s" for s
    using that plain_run_state [of cb "take n SSE_BOM" "after_bom B" u "fst s" "snd s"] no
      process_byte_plain [of "fst s" b cb "snd s"]
    by (auto simp: set_swallow_id)
  ultimately show ?thesis
    by (cases "foldM (process_byte cb) (take n SSE_BOM) (after_bom B, u)") (auto simp: foldM_append)
qed

lemma bom_run:
  assumes "n < 3"
  shows "foldM (process_byte cb) bs (in_bom B n, u) =
     (if take (3 - n) bs = drop n SSE_BOM then foldM (process_byte cb) (drop (3 - n) bs) (after_bom B, u)
      else if bs = take (length bs) (drop n SSE_BOM) then Some (in_bom B (n + length bs), u)
      else foldM (process_byte cb) (take n SSE_BOM @ bs) (after_bom B, u))"
  using assms
proof (induction bs arbitrary: n)
  case Nil
  then show ?case by (simp add: drop_bom)
next
  case (Cons b bs)
  show ?case
  proof (cases "b = SSE_BOM ! n")
    case True
    show ?thesis
    proof (cases "n = 2")
      case n2: True
      have "drop 2 SSE_BOM = [SSE_BOM ! 2]" by (simp add: SSE_BOM_def)
      then show ?thesis using True n2 bom_match [OF Cons.prems, of cb B u] by simp
    next
      case False
      then have n: "Suc n < 3" "3 - n = Suc (3 - Suc n)" using Cons.prems by simp_all
      have "take (Suc n) SSE_BOM = take n SSE_BOM @ [b]"
        using True Cons.prems by (simp add: take_Suc_conv_app_nth bom_length)
      then show ?thesis
        using True False Cons.prems n Cons.IH [OF n(1)] bom_match [OF Cons.prems, of cb B u]
        by (auto simp: drop_bom [OF Cons.prems])
    qed
  next
    case False
    then show ?thesis
      using Cons.prems bom_mismatch [OF Cons.prems False, of cb B u]
      by (auto simp: drop_bom [OF Cons.prems] foldM_append take_Cons')
  qed
qed

definition buffer_limits :: "sse_parser_buffers \<Rightarrow> limits" where
  "buffer_limits B = \<lparr>data_cap = buf_data_len B, id_cap = buf_id_len B, type_cap = buf_event_len B\<rparr>"

lemma stream_rel_after_bom:
  assumes "buffers_ok B" and "0 < buf_event_len B"
  shows "stream_rel (buffer_limits B) (after_bom B, []) empty_block [] []"
proof -
  have "parser_inv (after_bom B)"
    using parser_inv_init [OF assms(1)] by (auto simp: after_bom_def sse_parser_init_def inv_defs)
  then show ?thesis
    using assms(2)
    by (simp add: stream_rel_def buffer_limits_def limits_of_def line_rel_def core_rel_def rel_defs
        partial_errors_def empty_block_def after_bom_def sse_parser_init_def)
qed

lemma spec_stream_inside_bom:
  assumes "bs = take (length bs) SSE_BOM" and "take 3 bs \<noteq> SSE_BOM"
  shows "spec_stream L bs = []"
proof -
  have "length bs < 3"
    using assms by (metis bom_length not_le take_all_iff)
  then have "bs = [] \<or> bs = [0xEF] \<or> bs = [0xEF, 0xBB]"
    using assms(1) by (cases bs rule: list.exhaust; cases "tl bs") (auto simp: SSE_BOM_def)
  then show ?thesis
    by (auto simp: spec_stream_def strip_bom_def SSE_BOM_def partial_errors_def LF_def CR_def COLON_def)
qed

text \<open>
  The result for one run over a byte string. \<open>Sse_Parser_Trace.feed_replay\<close> carries it to
  any other callbacks.
\<close>

lemma run_refines_spec:
  assumes "buffers_ok B" and "0 < buf_event_len B"
  shows "returns (foldM (process_byte rec_cb) bs (sse_parser_init B, []))
           (\<lambda>(p, outs). map abs_out outs = spec_stream (buffer_limits B) bs)"
proof -
  have run: "returns (foldM (process_byte rec_cb) cs (after_bom B, []))
      (\<lambda>(p, outs). map abs_out outs = (let (ls, r) = split_lines [] cs;
         (k, outs) = spec_lines (buffer_limits B) ls empty_block
         in outs @ partial_errors (buffer_limits B) k r))" for cs
    using run_stream [OF stream_rel_after_bom [OF assms], of cs]
    by (auto simp: stream_rel_def Let_def split_beta elim!: returns_mono)
  have bom: "foldM (process_byte rec_cb) bs (sse_parser_init B, []) =
     (if take 3 bs = SSE_BOM then foldM (process_byte rec_cb) (drop 3 bs) (after_bom B, [])
      else if bs = take (length bs) SSE_BOM then Some (in_bom B (length bs), [])
      else foldM (process_byte rec_cb) bs (after_bom B, []))"
    using bom_run [of 0 rec_cb bs B "[]"] by (simp add: init_in_bom)
  show ?thesis
  proof (cases "take 3 bs \<noteq> SSE_BOM \<and> bs = take (length bs) SSE_BOM")
    case True
    then show ?thesis using bom spec_stream_inside_bom [of bs] by auto
  next
    case False
    then show ?thesis
      using run [of "if take 3 bs = SSE_BOM then drop 3 bs else bs"] bom
      by (auto simp: spec_stream_def strip_bom_def split: if_splits)
  qed
qed

section \<open>The ids of a stream\<close>

definition clean_line :: "bytes \<Rightarrow> bool" where
  "clean_line l \<longleftrightarrow> CR \<notin> set l \<and> LF \<notin> set l"

lemma split_lines_clean:
  "clean_line cur \<Longrightarrow> list_all clean_line (fst (split_lines cur bs))"
proof (induction cur bs rule: split_lines.induct)
  case (2 cur b bs)
  have "clean_line []" by (simp add: clean_line_def)
  moreover have "clean_line (cur @ [b])" if "b \<noteq> CR" "b \<noteq> LF"
    using that 2(4) by (simp add: clean_line_def)
  ultimately show ?case using 2 by (auto simp: Let_def split_beta)
qed simp

definition clean_id :: "block \<Rightarrow> bool" where
  "clean_id k \<longleftrightarrow> (\<forall>i. blk_id k = Some i \<longrightarrow> text_bytes i)"

lemma line_value_clean:
  assumes "clean_line l"
  shows "clean_line (line_value l)"
proof -
  have "set (strip_space v) \<subseteq> set v" for v by (cases v) (auto simp: strip_space_def)
  then show ?thesis
    using assms set_drop_subset by (fastforce simp: clean_line_def line_value_def)
qed

lemma spec_line_clean:
  assumes "clean_line l" and "clean_id k"
  shows "clean_id (fst (spec_line L l k)) \<and> (\<forall>i. AId i \<in> set (snd (spec_line L l k)) \<longrightarrow> text_bytes i)"
proof -
  note v = line_value_clean [OF assms(1)]
  show ?thesis
    using assms(2) v
    by (cases "field_of_name (line_name l)")
      (auto simp: spec_line_def spec_dispatch_def spec_field_def spec_data_def spec_event_def spec_id_def
        spec_retry_def clean_id_def empty_block_def id_fits_def text_bytes_def clean_line_def
        split: option.splits if_splits)
qed

lemma spec_lines_clean:
  "list_all clean_line ls \<Longrightarrow> clean_id k \<Longrightarrow>
   \<forall>i. AId i \<in> set (snd (spec_lines L ls k)) \<longrightarrow> text_bytes i"
proof (induction ls arbitrary: k)
  case (Cons l ls)
  have "clean_id (fst (spec_line L l k)) \<and> (\<forall>i. AId i \<in> set (snd (spec_line L l k)) \<longrightarrow> text_bytes i)"
    using Cons.prems by (intro spec_line_clean) auto
  then show ?case using Cons.IH [of "fst (spec_line L l k)"] Cons.prems by (auto simp: Let_def split_beta)
qed simp

lemma spec_stream_clean: "AId i \<in> set (spec_stream L bs) \<Longrightarrow> text_bytes i"
proof -
  assume "AId i \<in> set (spec_stream L bs)"
  moreover have "AId i \<notin> set (partial_errors L k r)" for k r
    by (auto simp: partial_errors_def value_errors_def split: parser_field.splits option.splits if_splits)
  moreover have "clean_line []" "clean_id empty_block" by (simp_all add: clean_line_def clean_id_def empty_block_def)
  ultimately show "text_bytes i"
    using spec_lines_clean [OF split_lines_clean [of "[]" "strip_bom bs"]]
    by (auto simp: spec_stream_def Let_def split_beta)
qed

end
