(* ===== verification/Sse_Client_Stream.thy ===== *)
theory Sse_Client_Stream
  imports Sse_Client_Reach Sse_Parser_Refine
begin

text \<open>
  From bytes to messages: what the user's callbacks receive over the life of a
  client is a function of the bytes the transport delivered, connection by
  connection, and so is the id each reconnect sends.
\<close>

section \<open>What the user should see\<close>

datatype notice =
  NMessage bytes bytes bytes  \<comment> \<open>type, data, last event id\<close>
| NError sse_error_reason     \<comment> \<open>an event was dropped, the stream goes on\<close>

text \<open>The messages and reports of one connection that starts with the id \<open>i\<close>.\<close>

fun notices :: "bytes \<Rightarrow> sse_out list \<Rightarrow> notice list" where
  "notices i [] = []"
| "notices i (AEvent ty ident d # os) =
     NMessage (case ty of None \<Rightarrow> bytes_of ''message'' | Some b \<Rightarrow> b) d i # notices i os"
| "notices i (AId j # os) = notices j os"
| "notices i (ARetry ms # os) = notices i os"
| "notices i (AError e # os) =
     (case perr_reason e of None \<Rightarrow> [] | Some r \<Rightarrow> [NError r]) @ notices i os"

fun last_id :: "bytes \<Rightarrow> sse_out list \<Rightarrow> bytes" where
  "last_id i [] = i"
| "last_id i (AId j # os) = last_id j os"
| "last_id i (_ # os) = last_id i os"

text \<open>Several connections, each resuming with the id the previous one ended with.\<close>

fun resume :: "limits \<Rightarrow> bytes \<Rightarrow> bytes list \<Rightarrow> notice list \<times> bytes" where
  "resume L i [] = ([], i)"
| "resume L i (bs # cs) =
     (let os = spec_stream L bs; (ns, j) = resume L (last_id i os) cs in (notices i os @ ns, j))"

lemma notices_append: "notices i (xs @ ys) = notices i xs @ notices (last_id i xs) ys"
  by (induction i xs rule: notices.induct) (auto split: option.splits)

lemma last_id_append: "last_id i (xs @ ys) = last_id (last_id i xs) ys"
  by (induction i xs rule: last_id.induct) auto

lemma resume_snoc:
  "resume L i (cs @ [bs]) = (let (ns, j) = resume L i cs in
     (ns @ notices j (spec_stream L bs), last_id j (spec_stream L bs)))"
  by (induction cs arbitrary: i) (auto simp: Let_def split_beta)

section \<open>What a history shows\<close>

fun conn_step :: "bytes list \<Rightarrow> obs \<Rightarrow> bytes list" where
  "conn_step cs (TOpen req ok) = cs @ [[]]"
| "conn_step cs (TRead r bs) = butlast cs @ [last cs @ bs]"
| "conn_step cs _ = cs"

text \<open>The bytes received so far, connection by connection.\<close>

definition conn_bytes :: "obs list \<Rightarrow> bytes list" where
  "conn_bytes tr = foldl conn_step [] tr"

fun obs_notices :: "obs \<Rightarrow> notice list" where
  "obs_notices (CbMessage m) =
     [NMessage (c_string (msg_event m)) (take (msg_data_len m) (msg_data m)) (c_string (msg_last_event_id m))]"
| "obs_notices (CbError e) =
     (if err_reason e \<in> {SSE_ERR_MESSAGE_TOO_LARGE, SSE_ERR_EVENT_TYPE_INVALID}
      then [NError (err_reason e)] else [])"
| "obs_notices _ = []"

definition delivered :: "obs list \<Rightarrow> notice list" where
  "delivered tr = concat (map obs_notices tr)"

text \<open>A notice reaches the user only through a callback that is set.\<close>

definition wanted :: "'w sse_client_config \<Rightarrow> notice \<Rightarrow> bool" where
  "wanted g n = (case n of
      NMessage ty d i \<Rightarrow> on_message (callbacks g) \<noteq> None
    | NError r \<Rightarrow> on_error (callbacks g) \<noteq> None)"

definition request_headers :: "'w sse_client_config \<Rightarrow> bytes \<Rightarrow> bytes list" where
  "request_headers g i =
     [bytes_of ''Accept: text/event-stream'', bytes_of ''Cache-Control: no-store''] @
     (if i = [] then [] else [bytes_of ''Last-Event-ID: '' @ i]) @ extra_list g"

text \<open>Every request in a history carries the id the bytes received before it amount to.\<close>

definition opens_ok :: "'w sse_client_config \<Rightarrow> limits \<Rightarrow> obs list \<Rightarrow> bool" where
  "opens_ok g L tr \<longleftrightarrow> (\<forall>xs req ok ys. tr = xs @ TOpen req ok # ys \<longrightarrow>
     null_terminated (req_headers req) (request_headers g (snd (resume L [] (conn_bytes xs)))))"

definition id_bytes :: "'w sse_client \<Rightarrow> bytes" where
  "id_bytes c = take (last_event_id_len c) (last_event_id c)"

lemma conn_bytes_simps [simp]:
  "conn_bytes [] = []"
  "conn_bytes (tr @ [ob]) = conn_step (conn_bytes tr) ob"
  by (simp_all add: conn_bytes_def)

lemma conn_bytes_append: "conn_bytes (xs @ ys) = foldl conn_step (conn_bytes xs) ys"
  by (simp add: conn_bytes_def)

lemma delivered_simps [simp]:
  "delivered [] = []"
  "delivered (xs @ ys) = delivered xs @ delivered ys"
  "delivered (ob # xs) = obs_notices ob @ delivered xs"
  by (simp_all add: delivered_def)

text \<open>Observations that are neither stream content nor reads nor the start of a connection.\<close>

definition silent :: "obs \<Rightarrow> bool" where
  "silent ob = (case ob of TOpen req ok \<Rightarrow> False | TRead r bs \<Rightarrow> False | _ \<Rightarrow> obs_notices ob = [])"

lemma silent_append:
  assumes "list_all silent ys"
  shows "conn_bytes (xs @ ys) = conn_bytes xs" "delivered (xs @ ys) = delivered xs"
proof -
  show "delivered (xs @ ys) = delivered xs"
    using assms by (induction ys) (auto simp: silent_def split: obs.splits)
  have "foldl conn_step cs ys = cs" for cs
    using assms by (induction ys) (auto simp: silent_def split: obs.splits)
  then show "conn_bytes (xs @ ys) = conn_bytes xs" by (simp add: conn_bytes_append)
qed

definition stream_obs :: "obs \<Rightarrow> bool" where
  "stream_obs ob = (case ob of CbMessage m \<Rightarrow> True | CbError e \<Rightarrow> True | _ \<Rightarrow> False)"

lemma stream_append:
  assumes "list_all stream_obs ys"
  shows "conn_bytes (xs @ ys) = conn_bytes xs"
proof -
  have "foldl conn_step cs ys = cs" for cs
    using assms by (induction ys) (auto simp: stream_obs_def split: obs.splits)
  then show ?thesis by (simp add: conn_bytes_append)
qed

lemma opens_ok_append:
  assumes "opens_ok g L tr" and "\<forall>req ok. TOpen req ok \<notin> set new"
  shows "opens_ok g L (tr @ new)"
  unfolding opens_ok_def
proof (intro allI impI)
  fix xs req ok ys assume "tr @ new = xs @ TOpen req ok # ys"
  moreover have "TOpen req ok \<notin> set new" using assms(2) by blast
  ultimately have "\<exists>zs. tr = xs @ TOpen req ok # zs"
    by (auto simp: append_eq_append_conv2 append_eq_Cons_conv Cons_eq_append_conv)
  then show "null_terminated (req_headers req) (request_headers g (snd (resume L [] (conn_bytes xs))))"
    using assms(1) unfolding opens_ok_def by blast
qed

lemma opens_ok_snoc:
  assumes "opens_ok g L tr"
    and "null_terminated (req_headers req) (request_headers g (snd (resume L [] (conn_bytes tr))))"
  shows "opens_ok g L (tr @ [TOpen req ok])"
  unfolding opens_ok_def
proof (intro allI impI)
  fix xs req' ok' ys assume "tr @ [TOpen req ok] = xs @ TOpen req' ok' # ys"
  then have "(tr = xs \<and> req = req') \<or> (\<exists>zs. tr = xs @ TOpen req' ok' # zs)"
    by (auto simp: append_eq_append_conv2 append_eq_Cons_conv Cons_eq_append_conv)
  then show "null_terminated (req_headers req') (request_headers g (snd (resume L [] (conn_bytes xs))))"
    using assms unfolding opens_ok_def by blast
qed

section \<open>Relaying one parser call\<close>

text \<open>What a parser callback does to an open client, before the user's own moves.\<close>

fun relay :: "parser_out \<Rightarrow> 'w sys \<Rightarrow> 'w sys" where
  "relay (OEvent ev) s =
     (let s = upd (\<lambda>c. c\<lparr>attempts := 0\<rparr>) s in
      noted (on_message (callbacks (cfg (cl s)))) (CbMessage (message_of s ev)) s)"
| "relay (OId m n) s =
     (if n \<le> SSE_CLIENT_ID_MAX
      then upd (\<lambda>c. c\<lparr>last_event_id := take (n + 1) m @ drop (n + 1) (last_event_id (cl s)), last_event_id_len := n\<rparr>) s
      else s)"
| "relay (ORetry ms) s = upd (\<lambda>c. c\<lparr>base_retry_ms := ms\<rparr>) s"
| "relay (OError e) s =
     (case perr_reason e of None \<Rightarrow> s
      | Some r \<Rightarrow> noted (on_error (callbacks (cfg (cl s)))) (CbError (error_of r 0 True 0)) s)"

definition out_wf :: "parser_out \<Rightarrow> bool" where
  "out_wf x = (case x of OEvent ev \<Rightarrow> event_wf ev | OId m n \<Rightarrow> id_wf (SSE_CLIENT_ID_MAX + 1) (m, n) | _ \<Rightarrow> True)"

interpretation recording_wf: parser_callbacks rec_cb "list_all out_wf" "SSE_CLIENT_ID_MAX + 1"
  by unfold_locales (auto simp: rec_cb_def out_wf_def)

definition relay_all :: "parser_out list \<Rightarrow> 'w sys \<Rightarrow> 'w sys" where
  "relay_all outs s = foldl (\<lambda>s x. relay x s) s outs"

lemma relay_all_simps [simp]:
  "relay_all [] s = s" "relay_all (x # xs) s = relay_all xs (relay x s)"
  by (simp_all add: relay_all_def)

lemma asked_simps [simp]:
  "cfg (asked c) = cfg c" "last_event_id (asked c) = last_event_id c"
  "last_event_id_len (asked c) = last_event_id_len c" "parser (asked c) = parser c"
  by (simp_all add: asked_def)

lemma kept_relay:
  assumes "kept s t"
  shows "kept (relay x s) (relay x t)"
proof (cases x)
  case (OEvent ev)
  have "message_of (upd (\<lambda>c. c\<lparr>attempts := 0\<rparr>) t) ev = message_of (upd (\<lambda>c. c\<lparr>attempts := 0\<rparr>) s) ev"
    using assms by (auto simp: kept_def message_of_def asked_def)
  then show ?thesis
    using assms OEvent by (auto simp: kept_def Let_def noted_def asked_def)
next
  case (OError e)
  then show ?thesis using assms by (auto simp: kept_def noted_def split: option.split)
qed (use assms in \<open>auto simp: kept_def asked_def\<close>)

lemma kept_relay_all: "kept s t \<Longrightarrow> kept (relay_all outs s) (relay_all outs t)"
  by (induction outs arbitrary: s t) (auto intro: kept_relay)

lemma relay_keeps [simp]:
  "state (cl (relay x s)) = state (cl s)" "transport_open (cl (relay x s)) = transport_open (cl s)"
  "cfg (cl (relay x s)) = cfg (cl s)" "parser (cl (relay x s)) = parser (cl s)" "env (relay x s) = env s"
  by (cases x; simp add: Let_def split: option.split)+

definition replayed :: "parser_out list \<Rightarrow> 'w sys \<Rightarrow> 'w sys \<Rightarrow> bool" where
  "replayed outs s s' \<longleftrightarrow> kept (relay_all outs s) s' \<or>
     (\<exists>n \<le> length outs. 0 < n \<and> shut (relay_all (take n outs) s) s')"

lemma replayed_Cons:
  assumes k: "kept (relay x s) u" and r: "replayed outs u s'"
  shows "replayed (x # outs) s s'"
  using r unfolding replayed_def
proof (elim disjE exE conjE)
  assume "kept (relay_all outs u) s'"
  then show "kept (relay_all (x # outs) s) s' \<or> (\<exists>n \<le> length (x # outs). 0 < n \<and> shut (relay_all (take n (x # outs)) s) s')"
    using kept_trans [OF kept_relay_all [OF k]] by simp
next
  fix n assume "n \<le> length outs" "0 < n" "shut (relay_all (take n outs) u) s'"
  then show "kept (relay_all (x # outs) s) s' \<or> (\<exists>n \<le> length (x # outs). 0 < n \<and> shut (relay_all (take n (x # outs)) s) s')"
    using kept_shut [OF kept_relay_all [OF k]] by (intro disjI2 exI [of _ "Suc n"]) simp
qed

context client_env
begin

lemma relay_event_ok:
  assumes "settled T g s" and st: "state (cl s) = SSE_STATE_OPEN" and ev: "event_wf ev"
  shows "returns (bridge_on_event s ev) (\<lambda>s'. settled T g s' \<and> ran (relay (OEvent ev) s) s')"
proof -
  let ?s = "upd (\<lambda>c. c\<lparr>attempts := 0\<rparr>) s"
  have s: "settled T g ?s" using assms by (intro settled_upd) (auto simp: settled_base)
  have "returns (call_user to_closed (on_message (callbacks g)) (message_of ?s ev) (CbMessage (message_of ?s ev)) ?s)
      (\<lambda>s'. settled T g s' \<and> ran (noted (on_message (callbacks g)) (CbMessage (message_of ?s ev)) ?s) s')"
    using s st callbacks message_of_wf [OF s ev] by (intro call_user_settled) (auto simp: callbacks_ok_def)
  then show ?thesis
    using st settled_base [OF assms(1)]
    by (auto simp: bridge_on_event_def Let_def cfg_simps elim!: returns_mono)
qed

lemma relay_perr_ok:
  assumes "settled T g s" and st: "state (cl s) = SSE_STATE_OPEN"
  shows "returns (bridge_on_perr s e) (\<lambda>s'. settled T g s' \<and> ran (relay (OError e) s) s')"
proof (cases "perr_reason e")
  case None
  then show ?thesis using assms by (simp add: bridge_on_perr_def)
next
  case (Some r)
  let ?e = "error_of r 0 True 0"
  have "returns (call_user to_closed (on_error (callbacks g)) ?e (CbError ?e) s)
      (\<lambda>s'. settled T g s' \<and> ran (noted (on_error (callbacks g)) (CbError ?e) s) s')"
    using assms callbacks by (intro call_user_settled) (auto simp: callbacks_ok_def callback_ok_def)
  then show ?thesis
    using Some st settled_base [OF assms(1)]
    by (auto simp: bridge_on_perr_def Let_def cfg_simps error_of_def elim!: returns_mono)
qed

lemma relay_ok:
  assumes "settled T g s" and "state (cl s) = SSE_STATE_OPEN" and "out_wf x"
  shows "returns (apply_out bridge x s) (\<lambda>s'. settled T g s' \<and> ran (relay x s) s')"
proof (cases x)
  case (OEvent ev)
  then show ?thesis using relay_event_ok [OF assms(1,2)] assms(3) by (simp add: bridge_def out_wf_def)
next
  case (OId m n)
  then have "id_wf (SSE_CLIENT_ID_MAX + 1) (m, n)" using assms(3) by (simp add: out_wf_def)
  from bridge_on_id_ok [OF assms(1) this] this show ?thesis
    using assms(2) OId
    by (auto simp: bridge_def bridge_on_id_def id_wf_def elim!: returns_strengthen
        split: if_splits option.splits)
next
  case (ORetry ms)
  then show ?thesis
    using bridge_on_retry_ok [OF assms(1), of ms] assms(2) by (simp add: bridge_def bridge_on_retry_def)
next
  case (OError e)
  then show ?thesis using relay_perr_ok [OF assms(1,2)] by (simp add: bridge_def)
qed

lemma replay_closed:
  "state (cl s) = SSE_STATE_CLOSED \<Longrightarrow> replay bridge outs s = Some s"
proof (induction outs)
  case (Cons x outs)
  then show ?case
    by (cases x) (auto simp: bridge_def bridge_on_event_def bridge_on_id_def bridge_on_retry_def bridge_on_perr_def)
qed simp

text \<open>
  A run of recorded calls: all of them are relayed, or a user callback closed the
  client and everything after that call was dropped.
\<close>

lemma replay_ok:
  assumes "settled T g s" and "state (cl s) = SSE_STATE_OPEN" and "list_all out_wf outs"
  shows "returns (replay bridge outs s) (\<lambda>s'. settled T g s' \<and> replayed outs s s')"
  using assms
proof (induction outs arbitrary: s)
  case Nil
  then show ?case by (simp add: replayed_def)
next
  case (Cons x outs)
  have step: "returns (apply_out bridge x s) (\<lambda>s'. settled T g s' \<and> ran (relay x s) s')"
    using Cons.prems by (intro relay_ok) auto
  have "returns (replay bridge outs u) (\<lambda>s'. settled T g s' \<and> replayed (x # outs) s s')"
    if u: "settled T g u" "ran (relay x s) u" for u
  proof (cases "kept (relay x s) u")
    case True
    then have "state (cl u) = SSE_STATE_OPEN"
      using Cons.prems(2) by (auto simp: kept_def asked_def)
    then have "returns (replay bridge outs u) (\<lambda>s'. settled T g s' \<and> replayed outs u s')"
      using Cons.IH [OF u(1)] Cons.prems(3) by simp
    then show ?thesis using replayed_Cons [OF True] by (auto elim!: returns_mono)
  next
    case False
    then have sh: "shut (relay x s) u" using u(2) by (simp add: ran_def)
    then have "state (cl u) = SSE_STATE_CLOSED" by (auto simp: shut_def)
    moreover have "replayed (x # outs) s u"
      using sh unfolding replayed_def by (intro disjI2 exI [of _ 1]) simp
    ultimately show ?thesis using u(1) replay_closed [of u outs] by simp
  qed
  then show ?case using step by (auto elim!: returns_mono)
qed

end

section \<open>What relayed calls show\<close>

lemma c_string_c_str: "c_str m = Some x \<Longrightarrow> c_string m = x"
  by (auto simp: c_str_def c_string_def split: if_splits)

lemma last_id_c_string: "id_inv c \<Longrightarrow> c_string (last_event_id c) = id_bytes c"
  using last_id_str [of c] c_string_c_str by (auto simp: id_bytes_def)

lemma message_notice:
  assumes "id_inv (cl s)"
  shows "obs_notices (CbMessage (message_of s ev)) = notices (id_bytes (cl s)) [abs_out (OEvent ev)]"
proof -
  have "c_string (bytes_of ''message'' @ [0]) = bytes_of ''message''" by code_simp
  then show ?thesis
    using assms by (simp add: message_of_def last_id_c_string split: option.split)
qed

lemma id_bytes_upd [simp]: "id_bytes (c\<lparr>attempts := n\<rparr>) = id_bytes c" "id_bytes (c\<lparr>base_retry_ms := ms\<rparr>) = id_bytes c"
  by (simp_all add: id_bytes_def)

definition relays :: "'w sse_client_config \<Rightarrow> sse_out list \<Rightarrow> 'w sys \<Rightarrow> 'w sys \<Rightarrow> bool" where
  "relays g outs s s' \<longleftrightarrow> (\<exists>new. trace s' = trace s @ new \<and> list_all stream_obs new \<and>
     delivered new = filter (wanted g) (notices (id_bytes (cl s)) outs)) \<and>
   id_bytes (cl s') = last_id (id_bytes (cl s)) outs"

lemma relay_id_base:
  assumes "base_inv g (cl s)" and "out_wf x"
  shows "base_inv g (cl (relay x s))"
proof (cases x)
  case (OId m n)
  then have "n < SSE_CLIENT_ID_MAX + 1" "n < length m" "m ! n = 0" "text_bytes (take n m)"
    using assms(2) by (auto simp: id_wf_def terminated_def out_wf_def)
  then show ?thesis
    using assms(1) OId
    by (auto simp: base_inv_def config_inv_def id_inv_def terminated_def nth_append)
qed (use assms in \<open>auto simp: Let_def split: option.split\<close>)

lemma relay_relays:
  assumes "base_inv g (cl s)" and "out_wf x"
  shows "relays g [abs_out x] s (relay x s)"
proof (cases x)
  case (OEvent ev)
  let ?s = "upd (\<lambda>c. c\<lparr>attempts := 0\<rparr>) s"
  have "id_inv (cl ?s)" using assms(1) by (simp add: base_inv_def id_inv_def)
  from message_notice [OF this, of ev]
  have "obs_notices (CbMessage (message_of ?s ev)) = notices (id_bytes (cl s)) [abs_out (OEvent ev)]" by simp
  then show ?thesis
    using OEvent assms(1)
    by (auto simp: relays_def noted_def stream_obs_def wanted_def Let_def base_inv_config(3))
next
  case (OId m n)
  then have "n \<le> SSE_CLIENT_ID_MAX" "n < length m"
    using assms(2) by (auto simp: id_wf_def terminated_def out_wf_def)
  then show ?thesis using OId by (simp add: relays_def id_bytes_def min_def)
next
  case (OError e)
  then show ?thesis
    using assms(1)
    by (auto simp: relays_def noted_def stream_obs_def wanted_def base_inv_config(3) error_of_def
        perr_reason_def split: option.split)
qed (simp add: relays_def)

lemma relays_trans:
  "relays g xs s t \<Longrightarrow> relays g ys t u \<Longrightarrow> relays g (xs @ ys) s u"
  by (auto simp: relays_def notices_append last_id_append)

lemma relay_all_relays:
  "base_inv g (cl s) \<Longrightarrow> list_all out_wf outs \<Longrightarrow> relays g (map abs_out outs) s (relay_all outs s)"
proof (induction outs arbitrary: s)
  case Nil
  then show ?case by (simp add: relays_def)
next
  case (Cons x outs)
  then have "relays g [abs_out x] s (relay x s)" "relays g (map abs_out outs) (relay x s) (relay_all outs (relay x s))"
    by (auto intro: relay_relays relay_id_base)
  then show ?case using relays_trans by fastforce
qed

section \<open>The history of a client\<close>

abbreviation limits_for :: "'w sse_client_config \<Rightarrow> limits" where
  "limits_for g \<equiv> buffer_limits (buffers g)"

text \<open>The parser of an open client has read the bytes of the current connection, from its start.\<close>

definition in_stream :: "'w sse_client_config \<Rightarrow> bytes \<Rightarrow> sse_parser \<Rightarrow> parser_out list \<Rightarrow> bool" where
  "in_stream g bs p outs \<longleftrightarrow> (\<exists>B. buffers_ok B \<and> 0 < buf_event_len B \<and> buffer_limits B = limits_for g \<and>
     foldM (process_byte rec_cb) bs (sse_parser_init B, []) = Some (p, outs))"

lemma in_stream_spec: "in_stream g bs p outs \<Longrightarrow> map abs_out outs = spec_stream (limits_for g) bs"
  unfolding in_stream_def by (auto dest: run_refines_spec [of _ bs])

lemma rec_cb_append:
  "foldM (process_byte rec_cb) bs (p, o0) =
     do { (p', outs) \<leftarrow> foldM (process_byte rec_cb) bs (p, []); Some (p', o0 @ outs) }"
proof -
  have "rec_of rec_cb = rec_cb" by (rule rec_of_all_set) (simp add: all_set_def rec_cb_def)
  then show ?thesis using traced_appendD [OF run_traced, of rec_cb bs p o0] by simp
qed

lemma in_stream_append:
  assumes "in_stream g bs p outs" and "foldM (process_byte rec_cb) new (p, []) = Some (p', outs')"
  shows "in_stream g (bs @ new) p' (outs @ outs')"
  using assms rec_cb_append [of new p outs] by (auto simp: in_stream_def foldM_append)

lemma in_stream_reset:
  assumes "config_inv g c" and "client_config_valid g"
  shows "in_stream g [] (sse_parser_reset (parser c)) []"
proof -
  let ?B = "parser_buffers (parser c)"
  have inv: "mem_inv (parser c)"
    and caps: "caps (parser c) = (buf_data_len (buffers g), buf_id_len (buffers g), buf_event_len (buffers g))"
    using assms(1) by (simp_all add: config_inv_def parser_inv_def)
  have "buffers_ok ?B" using inv by (simp add: buffers_ok_def parser_buffers_def mem_inv_def)
  moreover have "0 < buf_event_len ?B" "buffer_limits ?B = limits_for g"
    using caps assms(2)
    by (simp_all add: parser_buffers_def caps_def buffer_limits_def client_config_valid_def)
  ultimately show ?thesis unfolding in_stream_def sse_parser_reset_def by auto
qed

definition caught_up :: "'w sse_client_config \<Rightarrow> 'w sys \<Rightarrow> bool" where
  "caught_up g s \<longleftrightarrow> (case resume (limits_for g) [] (conn_bytes (trace s)) of (ns, i) \<Rightarrow>
     delivered (trace s) = filter (wanted g) ns \<and> id_bytes (cl s) = i)"

definition history_inv :: "'w sse_client_config \<Rightarrow> 'w sys \<Rightarrow> bool" where
  "history_inv g s \<longleftrightarrow> opens_ok g (limits_for g) (trace s) \<and>
     (state (cl s) \<noteq> SSE_STATE_CLOSED \<longrightarrow> caught_up g s) \<and>
     (state (cl s) = SSE_STATE_OPEN \<longrightarrow> conn_bytes (trace s) \<noteq> [] \<and>
        (\<exists>outs. in_stream g (last (conn_bytes (trace s))) (parser (cl s)) outs))"

text \<open>Moves that touch neither the stream nor the id nor the parser.\<close>

definition quiet :: "'w sys \<Rightarrow> 'w sys \<Rightarrow> bool" where
  "quiet s s' \<longleftrightarrow> (\<exists>new. trace s' = trace s @ new \<and> list_all silent new) \<and>
     id_bytes (cl s') = id_bytes (cl s) \<and> parser (cl s') = parser (cl s)"

lemma quiet_refl [simp]: "quiet s s"
  by (simp add: quiet_def)

lemma quiet_trans: "quiet s t \<Longrightarrow> quiet t u \<Longrightarrow> quiet s u"
  by (auto simp: quiet_def)

lemma ran_quiet: "ran s s' \<Longrightarrow> quiet s s'"
  by (auto simp: ran_def kept_def shut_def quiet_def closing_obs_def silent_def asked_def ended_def id_bytes_def)

lemma noted_quiet: "silent ob \<Longrightarrow> quiet s (noted f ob s)"
  by (auto simp: noted_def quiet_def)

lemma failed_quiet:
  assumes "failed reason status ra s s'"
    and "reason \<notin> {SSE_ERR_MESSAGE_TOO_LARGE, SSE_ERR_EVENT_TYPE_INVALID}"
  shows "quiet s s'"
proof -
  have silent_err: "silent (CbError (error_of reason status b d))" for b d
    using assms(2) by (simp add: silent_def error_of_def)
  from assms(1) obtain retry u where u: "decided reason status ra (dropped s) retry u"
    and res: "if state (cl u) = SSE_STATE_CLOSED then s' = u
      else if \<not> retry then gave_up reason status u s' else will_retry reason status ra u s'"
    unfolding failed_def by blast
  have "quiet s (dropped s)" by (simp add: quiet_def dropped_def silent_def id_bytes_def)
  moreover have "quiet (dropped s) u"
  proof (cases "reconnect_policy (cfg (cl s))")
    case None
    then show ?thesis using u by (simp add: decided_def same_but_env_def quiet_def Let_def)
  next
    case (Some f)
    have "quiet (dropped s) (note_obs (CbPolicy e) (dropped s))" for e
      by (simp add: quiet_def silent_def)
    then show ?thesis using u Some by (auto simp: decided_def Let_def intro: quiet_trans ran_quiet)
  qed
  moreover have "quiet u s'"
  proof -
    have "quiet u (noted f (CbError (error_of reason status b d)) u)" for f :: "('a \<Rightarrow> sse_error \<Rightarrow> ('a, unit) script) option" and b d
      by (rule noted_quiet) (rule silent_err)
    moreover have "quiet u (noted f (CbError (error_of reason status b d)) (u\<lparr>cl := waiting_client ra now (cl u)\<rparr>))"
      for f :: "('a \<Rightarrow> sse_error \<Rightarrow> ('a, unit) script) option" and b d now
      using silent_err by (auto simp: noted_def quiet_def waiting_client_def id_bytes_def)
    ultimately show ?thesis
      using res unfolding gave_up_def will_retry_def
      by (metis quiet_refl quiet_trans ran_quiet shut_ran)
  qed
  ultimately show ?thesis by (blast intro: quiet_trans)
qed

lemma shut_state: "shut s s' \<Longrightarrow> state (cl s') = SSE_STATE_CLOSED"
  by (auto simp: shut_def)

lemma ran_state: "ran s s' \<Longrightarrow> state (cl s') = state (cl s) \<or> state (cl s') = SSE_STATE_CLOSED"
  by (auto simp: ran_def kept_def shut_def)

lemma failed_state:
  assumes "failed reason status ra s s'"
  shows "state (cl s') = SSE_STATE_CLOSED \<or> state (cl s') = SSE_STATE_WAITING_RETRY"
  using assms
  by (auto simp: failed_def gave_up_def will_retry_def dest!: shut_state ran_state split: if_splits)

lemma history_quiet:
  assumes "history_inv g s" and "quiet s s'"
    and "state (cl s) = SSE_STATE_CLOSED \<Longrightarrow> state (cl s') = SSE_STATE_CLOSED"
    and "state (cl s') = SSE_STATE_OPEN \<Longrightarrow> state (cl s) = SSE_STATE_OPEN"
  shows "history_inv g s'"
proof -
  obtain new where new: "trace s' = trace s @ new" "list_all silent new"
    and id: "id_bytes (cl s') = id_bytes (cl s)" and par: "parser (cl s') = parser (cl s)"
    using assms(2) by (auto simp: quiet_def)
  note same = silent_append [OF new(2), of "trace s"]
  have "\<forall>req ok. TOpen req ok \<notin> set new" using new(2) by (fastforce simp: silent_def list_all_iff)
  then have "opens_ok g (limits_for g) (trace s')"
    using assms(1) new(1) by (auto simp: history_inv_def intro: opens_ok_append)
  then show ?thesis
    using assms(1,3,4) id par same by (auto simp: history_inv_def caught_up_def new(1))
qed

lemma bridge_rec: "rec_of bridge = rec_cb"
  by (rule rec_of_all_set) (simp add: all_set_def bridge_def)

lemma client_feed_run:
  assumes "client_feed chunk len s = Some s'"
  shows "len \<le> length chunk \<and> (\<exists>p outs u. foldM (process_byte rec_cb) (take len chunk) (parser (cl s), []) = Some (p, outs) \<and>
     replay bridge outs s = Some u \<and> s' = upd (\<lambda>c. c\<lparr>parser := p\<rparr>) u)"
  using assms feed_replay [of bridge chunk len "parser (cl s)" s]
  by (auto simp: client_feed_def bridge_rec sse_parser_feed_def split: bind_splits if_splits)

context client_env
begin

lemma recorded_wf:
  assumes "settled T g s" and "foldM (process_byte rec_cb) bs (parser (cl s), []) = Some (p, outs)"
  shows "list_all out_wf outs"
proof -
  let ?K = "(buf_data_len (buffers g), buf_id_len (buffers g), buf_event_len (buffers g))"
  have ok: "recording_wf.sys_ok ?K (parser (cl s), [])"
    unfolding recording_wf.sys_ok_def using settled_base [OF assms(1)] config_valid
    by (auto simp: base_inv_def config_inv_def client_config_valid_def)
  from recording_wf.feed_ok [OF ok, of "length bs" bs] show ?thesis
    unfolding recording_wf.sys_ok_def using assms(2) by (auto simp: sse_parser_feed_def)
qed

lemma fed_content:
  assumes "settled T g s" and "state (cl s) = SSE_STATE_OPEN" and "client_feed chunk len s = Some s'"
  shows "\<exists>p outs u. foldM (process_byte rec_cb) (take len chunk) (parser (cl s), []) = Some (p, outs) \<and>
     s' = upd (\<lambda>c. c\<lparr>parser := p\<rparr>) u \<and> replayed outs s u \<and> list_all out_wf outs"
proof -
  from client_feed_run [OF assms(3)] obtain p outs u where
    run: "foldM (process_byte rec_cb) (take len chunk) (parser (cl s), []) = Some (p, outs)"
      "replay bridge outs s = Some u" "s' = upd (\<lambda>c. c\<lparr>parser := p\<rparr>) u" by blast
  have wf: "list_all out_wf outs" using recorded_wf [OF assms(1) run(1)] .
  have "replayed outs s u" using returns_Some [OF replay_ok [OF assms(1,2) wf] run(2)] by simp
  then show ?thesis using run wf by blast
qed

end

lemma spec_stream_Nil [simp]: "spec_stream L [] = []"
  by (simp add: spec_stream_def strip_bom_def partial_errors_def SSE_BOM_def)

lemma caught_up_open:
  assumes "caught_up g s" and "trace s' = trace s @ [TOpen req ok]" and "id_bytes (cl s') = id_bytes (cl s)"
  shows "caught_up g s'"
  using assms by (auto simp: caught_up_def resume_snoc split_beta)

text \<open>Feeding the bytes \<open>new\<close>, all of whose outputs were relayed.\<close>

lemma caught_up_fed:
  assumes up: "caught_up g s" and cs: "conn_bytes (trace s) \<noteq> []"
    and str: "in_stream g (last (conn_bytes (trace s))) p outs"
    and run: "foldM (process_byte rec_cb) new (p, []) = Some (p', outs')"
    and rel: "relays g (map abs_out outs') u s'"
    and u: "trace u = trace s @ [TRead r new]" "id_bytes (cl u) = id_bytes (cl s)"
  shows "caught_up g s'" "conn_bytes (trace s') \<noteq> []"
    "in_stream g (last (conn_bytes (trace s'))) p' (outs @ outs')"
proof -
  let ?cs = "conn_bytes (trace s)"
  let ?R = "resume (limits_for g) [] (butlast ?cs)"
  let ?o = "map abs_out outs" and ?n = "map abs_out outs'"
  have now: "spec_stream (limits_for g) (last ?cs) = ?o" using in_stream_spec [OF str] by simp
  have ext: "in_stream g (last ?cs @ new) p' (outs @ outs')" using in_stream_append [OF str run] .
  have next': "spec_stream (limits_for g) (last ?cs @ new) = ?o @ ?n" using in_stream_spec [OF ext] by simp
  have split: "?cs = butlast ?cs @ [last ?cs]" using cs by simp
  obtain obs where obs: "trace s' = trace u @ obs" "list_all stream_obs obs"
    "delivered obs = filter (wanted g) (notices (id_bytes (cl u)) ?n)" "id_bytes (cl s') = last_id (id_bytes (cl u)) ?n"
    using rel by (auto simp: relays_def)
  have cb: "conn_bytes (trace s') = butlast ?cs @ [last ?cs @ new]"
    using stream_append [of obs "trace u"] obs(1,2) u(1) by simp
  have old: "delivered (trace s) = filter (wanted g) (fst ?R @ notices (snd ?R) ?o)"
    "id_bytes (cl s) = last_id (snd ?R) ?o"
    using up unfolding caught_up_def by (subst (asm) split, simp add: resume_snoc now split_beta)+
  have now': "resume (limits_for g) [] (conn_bytes (trace s')) =
      (fst ?R @ notices (snd ?R) (?o @ ?n), last_id (snd ?R) (?o @ ?n))"
    unfolding cb by (simp add: resume_snoc next' split_beta)
  have "delivered (trace s') = filter (wanted g) (fst ?R @ notices (snd ?R) (?o @ ?n))"
    using old obs(1,3) u by (simp add: notices_append)
  moreover have "id_bytes (cl s') = last_id (snd ?R) (?o @ ?n)"
    using old(2) obs(4) u(2) by (simp add: last_id_append)
  ultimately show "caught_up g s'" unfolding caught_up_def now' by simp
  show "conn_bytes (trace s') \<noteq> []" "in_stream g (last (conn_bytes (trace s'))) p' (outs @ outs')"
    using cb ext by simp_all
qed

section \<open>Every step keeps the history\<close>

lemma history_attempt:
  assumes hist: "history_inv g s" and st: "state (cl s) \<noteq> SSE_STATE_CLOSED"
    and base: "base_inv g (cl s)" and valid: "client_config_valid g" and att: "attempted s s'"
  shows "history_inv g s'"
proof -
  obtain req m ok i where req: "null_terminated (req_headers req) (header_list (cl s))"
    and res: "if ok then responded i (after_open req m True s) s'
              else failed SSE_ERR_TRANSPORT 0 (-1) (after_open req m False s) s'"
    using att by (auto simp: attempted_def)
  let ?u = "after_open req m ok s"
  have tr: "trace ?u = trace s @ [TOpen req ok]" and id: "id_bytes (cl ?u) = id_bytes (cl s)"
    by (simp_all add: after_open_def id_bytes_def)
  have up: "caught_up g s" using hist st by (simp add: history_inv_def)
  have ids: "id_inv (cl s)" "extra_headers (cfg (cl s)) = extra_headers g"
    using base valid extra_facts(1) by (auto simp: base_inv_def)
  have "header_list (cl s) = request_headers g (id_bytes (cl s))"
    using ids by (auto simp: header_list_def request_headers_def id_bytes_def extra_list_def
        id_inv_def terminated_def)
  then have "opens_ok g (limits_for g) (trace ?u)"
    using hist req up tr by (auto simp: history_inv_def caught_up_def split_beta intro: opens_ok_snoc)
  moreover have "caught_up g ?u" using caught_up_open [OF up tr id] .
  ultimately have u: "history_inv g ?u" by (simp add: history_inv_def after_open_def)
  have fail: "history_inv g s'"
    if "failed reason status ra ?u s'" "reason \<notin> {SSE_ERR_MESSAGE_TOO_LARGE, SSE_ERR_EVENT_TYPE_INVALID}" for reason status ra
    using history_quiet [OF u failed_quiet [OF that]] failed_state [OF that(1)] by (auto simp: after_open_def)
  show ?thesis
  proof (cases "ok \<and> accepts (cfg (cl ?u)) i")
    case True
    then obtain now where r: "ran (noted (on_open (callbacks (cfg (cl ?u)))) (CbOpen (attempts (cl ?u)))
        (?u\<lparr>cl := open_client now (cl ?u)\<rparr>)) s'"
      using res by (auto simp: responded_def opened_def)
    let ?v = "?u\<lparr>cl := open_client now (cl ?u)\<rparr>"
    have "config_inv g (cl ?u)" using base by (simp add: base_inv_def config_inv_def after_open_def)
    then have "in_stream g [] (parser (cl ?v)) []" using in_stream_reset valid by (simp add: open_client_def)
    moreover have "caught_up g ?v" using u by (simp add: history_inv_def caught_up_def after_open_def open_client_def id_bytes_def)
    ultimately have v: "history_inv g ?v" using u tr by (auto simp: history_inv_def)
    have "quiet ?v s'" using quiet_trans [OF noted_quiet ran_quiet [OF r]] by (simp add: silent_def)
    then show ?thesis using history_quiet [OF v] by simp
  next
    case False
    then show ?thesis
      using res fail by (auto simp: responded_def refusal_def split: if_splits)
  qed
qed

lemma opens_ok_relays:
  assumes "opens_ok g L (trace s)" and "relays h outs s s'"
  shows "opens_ok g L (trace s')"
proof -
  obtain new where new: "trace s' = trace s @ new" "list_all stream_obs new" using assms(2) by (auto simp: relays_def)
  then have "\<forall>req ok. TOpen req ok \<notin> set new" by (fastforce simp: stream_obs_def list_all_iff)
  then show ?thesis using opens_ok_append [OF assms(1)] new(1) by simp
qed

lemma opens_ok_shut: "opens_ok g L (trace s) \<Longrightarrow> shut s s' \<Longrightarrow> opens_ok g L (trace s')"
  by (auto simp: shut_def closing_obs_def intro!: opens_ok_append)

lemma history_closed: "opens_ok g (limits_for g) (trace s) \<Longrightarrow> state (cl s) = SSE_STATE_CLOSED \<Longrightarrow> history_inv g s"
  by (simp add: history_inv_def)

lemma history_shut: "history_inv g s \<Longrightarrow> shut s s' \<Longrightarrow> history_inv g s'"
  using opens_ok_shut [of g "limits_for g" s s'] shut_state [of s s']
  by (auto simp: history_inv_def)

context client_env
begin

lemma history_fed:
  assumes hist: "history_inv g s" and s: "settled T g u" and st: "state (cl s) = SSE_STATE_OPEN"
    and u: "trace u = trace s @ [TRead r (take n m)]" "id_bytes (cl u) = id_bytes (cl s)"
      "parser (cl u) = parser (cl s)" "state (cl u) = SSE_STATE_OPEN"
    and fed: "client_feed m n u = Some s'"
  shows "history_inv g s'"
proof -
  obtain p outs' v where run: "foldM (process_byte rec_cb) (take n m) (parser (cl u), []) = Some (p, outs')"
    and s': "s' = upd (\<lambda>c. c\<lparr>parser := p\<rparr>) v" and rep: "replayed outs' u v" and wf: "list_all out_wf outs'"
    using fed_content [OF s u(4) fed] by blast
  obtain outs where str: "in_stream g (last (conn_bytes (trace s))) (parser (cl s)) outs"
    and cs: "conn_bytes (trace s) \<noteq> []" and up: "caught_up g s"
    using hist st by (auto simp: history_inv_def)
  have opens: "opens_ok g (limits_for g) (trace u)"
    using hist u(1) by (auto simp: history_inv_def intro!: opens_ok_append)
  have rel: "relays g (map abs_out (take k outs')) u (relay_all (take k outs') u)" for k
  proof (rule relay_all_relays [OF settled_base [OF s]])
    have "list_all out_wf (take k outs' @ drop k outs')" using wf by simp
    then show "list_all out_wf (take k outs')" unfolding list_all_append by (rule conjunct1)
  qed
  have run': "foldM (process_byte rec_cb) (take n m) (parser (cl s), []) = Some (p, outs')"
    using run u(3) by simp
  show ?thesis
    using rep unfolding replayed_def
  proof (elim disjE exE conjE)
    assume k: "kept (relay_all outs' u) v"
    have "id_bytes (cl v) = id_bytes (cl (relay_all outs' u))" "trace v = trace (relay_all outs' u)"
      using k by (auto simp: kept_def id_bytes_def)
    then have rel': "relays g (map abs_out outs') u s'"
      using rel [of "length outs'"] s' by (simp add: relays_def id_bytes_def)
    note up' = caught_up_fed [OF up cs str run' rel' u(1,2)]
    show ?thesis
      using up' opens_ok_relays [OF opens rel'] s' by (auto simp: history_inv_def)
  next
    fix k assume "shut (relay_all (take k outs') u) v"
    then have "opens_ok g (limits_for g) (trace v)" "state (cl v) = SSE_STATE_CLOSED"
      using opens_ok_shut [OF opens_ok_relays [OF opens rel]] shut_state by blast+
    then show ?thesis using s' by (intro history_closed) simp_all
  qed
qed

lemma history_idle_read:
  assumes hist: "history_inv g s" and st: "state (cl s) = SSE_STATE_OPEN"
    and none: "rx_bytes (rx_buf_len (cfg (cl s))) r m = []"
  shows "history_inv g (after_read r m stopped s)"
proof -
  let ?u = "after_read r m stopped s"
  have cs: "conn_bytes (trace s) \<noteq> []" using hist st by (simp add: history_inv_def)
  then have "conn_bytes (trace ?u) = conn_bytes (trace s)" by (simp add: after_read_def none)
  moreover have "delivered (trace ?u) = delivered (trace s)" "id_bytes (cl ?u) = id_bytes (cl s)"
    "parser (cl ?u) = parser (cl s)" "state (cl ?u) = state (cl s)"
    by (simp_all add: after_read_def id_bytes_def)
  moreover have "opens_ok g (limits_for g) (trace ?u)"
    using hist by (auto simp: history_inv_def after_read_def intro!: opens_ok_append)
  ultimately show ?thesis using hist by (simp add: history_inv_def caught_up_def)
qed

lemma history_read:
  assumes hist: "history_inv g s" and s: "settled T g s" and st: "state (cl s) = SSE_STATE_OPEN"
    and poll: "read_poll (settled T g) s h s'"
  shows "history_inv g s'"
proof -
  obtain r m stopped where res: "let u = after_read r m stopped s in
      if stop_requested (cl u) then shut u s' \<and> h = UINT32_MAX else received (settled T g) r m u h s'"
    using poll unfolding read_poll_def by blast
  let ?u = "after_read r m stopped s"
  have st_u: "state (cl ?u) = SSE_STATE_OPEN" using st by (simp add: after_read_def)
  have opens: "opens_ok g (limits_for g) (trace ?u)"
    using hist by (auto simp: history_inv_def after_read_def intro!: opens_ok_append)
  have failed: "history_inv g s'"
    if "failed reason status ra ?u s'" "reason \<notin> {SSE_ERR_MESSAGE_TOO_LARGE, SSE_ERR_EVENT_TYPE_INVALID}"
      "rx_bytes (rx_buf_len (cfg (cl s))) r m = []" for reason status ra
    using history_quiet [OF history_idle_read [OF hist st that(3)] failed_quiet [OF that(1,2)]]
      failed_state [OF that(1)] st_u by auto
  show ?thesis
  proof (cases "stop_requested (cl ?u)")
    case True
    then have "shut ?u s'" using res by (simp add: Let_def)
    then show ?thesis using history_closed opens_ok_shut [OF opens] shut_state by blast
  next
    case False
    then have rec: "received (settled T g) r m ?u h s'" using res by (simp add: Let_def)
    have len: "rx_buf_len (cfg (cl ?u)) = rx_buf_len (cfg (cl s))" by (simp add: after_read_def)
    show ?thesis
    proof (cases "0 < sint r \<and> unat r \<le> rx_buf_len (cfg (cl s))")
      case True
      then obtain now w where v: "settled T g (?u\<lparr>cl := (cl ?u)\<lparr>last_rx_ms := now\<rparr>, env := w\<rparr>)"
        "client_feed m (unat r) (?u\<lparr>cl := (cl ?u)\<lparr>last_rx_ms := now\<rparr>, env := w\<rparr>) = Some s'"
        using rec len by (auto simp: received_def fed_def Let_def)
      have "rx_bytes (rx_buf_len (cfg (cl s))) r m = take (unat r) m" using True by (simp add: rx_bytes_def)
      then show ?thesis
        using v st by (intro history_fed [OF hist v(1) st _ _ _ _ v(2)]) (simp_all add: after_read_def id_bytes_def)
    next
      case no: False
      then have none: "rx_bytes (rx_buf_len (cfg (cl s))) r m = []" by (auto simp: rx_bytes_def)
      have same: "history_inv g s'" if "same_but_env ?u s'"
        using history_idle_read [OF hist st none, of stopped] that
        by (simp add: same_but_env_def history_inv_def caught_up_def)
      show ?thesis
        using rec no len failed [OF _ _ none] same
        by (auto simp: received_def idled_def Let_def split: if_splits)
    qed
  qed
qed

lemma history_polled:
  assumes hist: "history_inv g s" and s: "settled T g s" and poll: "polled (settled T g) s h s'"
  shows "history_inv g s'"
proof (cases "state (cl s) = SSE_STATE_CLOSED \<or> stop_requested (cl s)")
  case True
  then show ?thesis
    using hist poll history_shut [OF hist] by (auto simp: polled_def split: if_splits)
next
  case False
  then have att: "history_inv g s'" if "attempted s s'"
    using history_attempt [OF hist _ settled_base [OF s] config_valid that] by blast
  have wait: "history_inv g s'" if "waited now s h s'" "state (cl s) = SSE_STATE_WAITING_RETRY" for now
    using that hist
    by (auto simp: waited_def Let_def history_inv_def caught_up_def same_but_env_def id_bytes_def split: if_splits)
  show ?thesis
    using False poll att wait history_read [OF hist s]
    by (cases "state (cl s)") (auto simp: polled_def)
qed

lemma history_step:
  assumes hist: "history_inv g s" and s: "settled T g s" and step: "client_step a s s'"
  shows "history_inv g s'"
  using step
proof (cases rule: client_step.cases)
  case (poll h)
  have "polled (settled T g) s h s'" using returns_Some [OF poll_ok [OF s] poll(2)] by simp
  then show ?thesis by (rule history_polled [OF hist s])
next
  case close
  have "if state (cl s) = SSE_STATE_CLOSED then s' = s else shut s s'"
    using returns_Some [OF close_call_ok [OF s] close(2)] by simp
  then show ?thesis
    using hist history_shut [OF hist] by (auto split: if_splits)
next
  case stop
  have "quiet s s'" using stop by (simp add: quiet_def sse_client_request_stop_def id_bytes_def)
  moreover have "state (cl s') = state (cl s)" using stop by (simp add: sse_client_request_stop_def)
  ultimately show ?thesis by (intro history_quiet [OF hist]) simp_all
qed

lemma history_init:
  assumes "sse_client_init (Some c0) (Some g) w = Some (0, Some c, w')"
  shows "history_inv g (started c w')"
proof -
  have "\<exists>now. c = init_client g now"
    using assms by (auto simp: sse_client_init_def split_beta split: if_splits bind_splits)
  then show ?thesis
    by (auto simp: history_inv_def caught_up_def started_def opens_ok_def init_client_def Let_def id_bytes_def)
qed

lemma reachable_history: "reachable g (T False) s \<Longrightarrow> history_inv g s"
proof (induction rule: reachable.induct)
  case (init w c0 c w')
  then show ?case by (intro history_init)
next
  case (step s a s')
  then show ?case using history_step [OF step.IH reachable_settled [OF step.hyps(1)]] by blast
qed

end

end
