(* ===== verification/Sse_Client_Delay.thy ===== *)
theory Sse_Client_Delay
  imports Sse_Client_Reach
begin

text \<open>
  The reconnect delay as arithmetic on natural numbers: no step of the code's
  64-bit computation wraps, the clamp makes the signed comparison of the waiting
  state sound, and a retry never fires early.
\<close>

section \<open>The delay as a natural number\<close>

definition delay_base :: "nat \<Rightarrow> nat \<Rightarrow> nat \<Rightarrow> int \<Rightarrow> nat" where
  "delay_base base cap fails ra =
     (if 0 \<le> ra then nat ra * 1000
      else if cap = 0 then base
      else min cap (base * 2 ^ min 15 fails))"

definition delay_jitter :: "nat \<Rightarrow> nat \<Rightarrow> nat \<Rightarrow> nat" where
  "delay_jitter pct x d = (if pct = 0 then d else d + d * (x mod (pct + 1)) div 100)"

definition delay_ms :: "'w sse_client \<Rightarrow> i32 \<Rightarrow> nat" where
  "delay_ms c ra = min (2 ^ 31 - 1)
     (delay_jitter (unat (jitter_pct (cfg c))) (unat (prng_next (prng c)))
       (delay_base (unat (base_retry_ms c)) (unat (max_retry_ms (cfg c))) (unat (attempts c)) (sint ra)))"

lemma unat_ucast_32_64 [simp]: "unat (ucast (x :: u32) :: u64) = unat x"
  by transfer simp

lemma unat_scast_32_64:
  assumes "0 \<le> sint (x :: i32)"
  shows "unat (scast x :: u64) = nat (sint x)"
proof -
  have b: "sint x < 2 ^ 31" using sint_lt [of x] by simp
  have "uint (word_of_int (sint x) :: u64) = take_bit 64 (sint x)" by (simp add: unsigned_of_int del: of_int_sint)
  also have "\<dots> = sint x" using assms b by (intro take_bit_int_eq_self) auto
  finally show ?thesis unfolding of_int_sint by (metis nat_uint_eq)
qed

lemma unat_u32_less: "unat (x :: u32) < 2 ^ 32"
  using unsigned_less [of x] by simp

lemma unat_u8_less: "unat (x :: u8) < 2 ^ 8"
  using unsigned_less [of x] by simp

lemma unat_u64_mult:
  fixes a b :: u64
  shows "unat a * unat b < 2 ^ 64 \<Longrightarrow> unat (a * b) = unat a * unat b"
  by (simp add: unat_word_ariths(2))

lemma unat_u64_add:
  fixes a b :: u64
  shows "unat a + unat b < 2 ^ 64 \<Longrightarrow> unat (a + b) = unat a + unat b"
  by (simp add: unat_word_ariths(1))

lemma unat_push_bit:
  assumes "k \<le> 15"
  shows "unat (push_bit k (ucast (x :: u32)) :: u64) = unat x * 2 ^ k"
proof -
  have "(2 :: nat) ^ k \<le> 2 ^ 15" using assms by (rule power_increasing) simp
  then have "unat x * 2 ^ k < 2 ^ 32 * 2 ^ 15"
    using unat_u32_less [of x] by (intro mult_less_le_imp_less) simp_all
  then have small: "take_bit 64 (unat x * 2 ^ k) = unat x * 2 ^ k" by (intro take_bit_nat_eq_self) simp
  have "unat (push_bit k (ucast x) :: u64) = take_bit 64 (push_bit k (unat (ucast x :: u64)))"
    by (subst unsigned_push_bit_eq) simp
  also have "\<dots> = unat x * 2 ^ k" using small by (simp add: push_bit_eq_mult)
  finally show ?thesis .
qed

lemma unat_base_delay:
  "unat (base_delay c ra) =
     delay_base (unat (base_retry_ms c)) (unat (max_retry_ms (cfg c))) (unat (attempts c)) (sint ra)"
  "unat (base_delay c ra) < 2 ^ 47"
proof -
  have ra: "nat (sint ra) < 2 ^ 31" using sint_lt [of ra] by simp
  have b: "unat (base_retry_ms c) < 2 ^ 32" "unat (max_retry_ms (cfg c)) < 2 ^ 32" by (simp_all only: unat_u32_less)
  show eq: "unat (base_delay c ra) =
     delay_base (unat (base_retry_ms c)) (unat (max_retry_ms (cfg c))) (unat (attempts c)) (sint ra)"
  proof (cases "0 \<le> sint ra")
    case True
    then show ?thesis
      using ra unat_scast_32_64 [of ra] unat_u64_mult [of "scast ra" 1000]
      by (simp add: base_delay_def delay_base_def)
  next
    case False
    have sh: "(if attempts c > 15 then 15 else unat (attempts c)) = min 15 (unat (attempts c))"
      by (simp add: word_less_nat_alt min_def)
    then show ?thesis
      using False unat_push_bit [of "min 15 (unat (attempts c))" "base_retry_ms c"]
      by (auto simp: base_delay_def delay_base_def Let_def word_less_nat_alt min_def unat_eq_0)
  qed
  show "unat (base_delay c ra) < 2 ^ 47"
    unfolding eq delay_base_def using ra b by auto
qed

lemma unat_add_jitter:
  assumes "unat d < 2 ^ 47" and "pct \<noteq> 0"
  shows "unat (add_jitter pct x d) = delay_jitter (unat pct) (unat x) (unat d)"
proof -
  have pct: "unat (ucast pct + 1 :: u32) = unat pct + 1"
    using unat_u8_less [of pct] by (simp add: unat_word_ariths)
  let ?m = "x mod (ucast pct + 1)"
  have m: "unat ?m = unat x mod (unat pct + 1)" by (simp add: unat_mod pct)
  have "unat x mod (unat pct + 1) \<le> unat pct" by (simp add: less_Suc_eq_le [symmetric])
  then have small: "unat ?m < 2 ^ 8" using m unat_u8_less [of pct] by linarith
  then have prod: "unat d * unat ?m < 2 ^ 47 * 2 ^ 8"
    using assms(1) by (intro mult_strict_mono) auto
  then have mul: "unat (d * ucast ?m) = unat d * unat ?m"
    using unat_u64_mult [of d "ucast ?m"] by simp
  have "unat (d * ucast ?m div 100) = unat d * unat ?m div 100"
    by (simp add: unat_div mul)
  moreover have "unat d * unat ?m div 100 \<le> unat d * unat ?m" by (rule div_le_dividend)
  then have "unat d + unat d * unat ?m div 100 < 2 ^ 64" using assms(1) prod by simp
  ultimately have "unat (add_jitter pct x d) = unat d + unat d * unat ?m div 100"
    using unat_u64_add [of d "d * ucast ?m div 100"] by (simp add: add_jitter_def)
  then show ?thesis using assms(2) by (simp add: delay_jitter_def m unat_eq_0)
qed

lemma unat_clamp_delay: "unat (clamp_delay d) = min (2 ^ 31 - 1) (unat d)"
proof (cases "d > ucast INT32_MAX")
  case True
  then show ?thesis by (simp add: clamp_delay_def INT32_MAX_def word_less_nat_alt)
next
  case False
  then have "unat d \<le> 2 ^ 31 - 1" by (simp add: INT32_MAX_def word_less_nat_alt)
  then show ?thesis using False by (simp add: clamp_delay_def unsigned_ucast_eq take_bit_nat_eq_self)
qed

lemma unat_retry_delay: "unat (fst (retry_delay c ra)) = delay_ms c ra"
proof (cases "jitter_pct (cfg c) = 0")
  case True
  then show ?thesis
    by (simp add: retry_delay_def delay_ms_def Let_def unat_clamp_delay unat_base_delay(1) delay_jitter_def)
next
  case False
  then show ?thesis
    using unat_add_jitter [OF unat_base_delay(2) [of c ra] False, of "prng_next (prng c)"]
    by (simp add: retry_delay_def delay_ms_def Let_def unat_clamp_delay unat_base_delay(1))
qed

lemma delay_ms_less: "delay_ms c ra < 2 ^ 31"
  by (simp add: delay_ms_def)

lemma delay_jitter_bounds:
  "d \<le> delay_jitter pct x d" "100 * delay_jitter pct x d \<le> d * (100 + pct)"
proof -
  show "d \<le> delay_jitter pct x d" by (simp add: delay_jitter_def)
  define m where "m = x mod (pct + 1)"
  have "m \<le> pct" by (simp add: m_def less_Suc_eq_le [symmetric])
  then have "d * m \<le> d * pct" by (rule mult_le_mono2)
  then have "100 * (d * m div 100) \<le> d * pct"
    by (rule le_trans [OF times_div_less_eq_dividend])
  then show "100 * delay_jitter pct x d \<le> d * (100 + pct)"
    unfolding delay_jitter_def m_def [symmetric] by (simp add: distrib_left)
qed

section \<open>Waiting\<close>

text \<open>
  \<open>t0\<close> is the time the retry was scheduled, \<open>now\<close> the time of the poll; clocks wrap.
\<close>

lemma remaining:
  fixes t0 now delay :: u32
  assumes "unat delay < 2 ^ 31" and "unat (now - t0) \<le> 2 ^ 31"
  shows "sint (t0 + delay - now) = int (unat delay) - int (unat (now - t0))"
proof -
  have split: "t0 + delay - now = delay - (now - t0)" by simp
  have "sint (delay - e) = int (unat delay) - int (unat e)" if e: "unat e \<le> 2 ^ 31" for e :: u32
  proof -
    have "sint (word_of_int k :: u32) = signed_take_bit 31 k" for k
      by (simp add: signed_of_int)
    from this [of "int (unat delay) - int (unat e)"]
    have "sint (delay - e) = signed_take_bit 31 (int (unat delay) - int (unat e))" by simp
    moreover have "signed_take_bit 31 (int (unat delay) - int (unat e)) = int (unat delay) - int (unat e)"
    proof (intro signed_take_bit_int_eq_self)
      have bounds: "int (unat e) \<le> int (2 ^ 31)" "int (unat delay) < int (2 ^ 31)"
        using e assms(1) by (simp_all only: of_nat_le_iff of_nat_less_iff)
      have unat_lt: "0 \<le> int (unat e)" "0 \<le> int (unat delay)" by (simp_all only: of_nat_0_le_iff)
      show "- (2 ^ 31) \<le> int (unat delay) - int (unat e)" "int (unat delay) - int (unat e) < 2 ^ 31"
        using bounds unat_lt unfolding of_nat_power of_nat_numeral by linarith+
    qed
    ultimately show ?thesis by simp
  qed
  then show ?thesis unfolding split using assms(2) by blast
qed

end
