(* ===== verification/Demo.thy ===== *)
theory Demo
  imports Sse_Client_Stream Sse_Client_Delay
begin

text \<open>
  A small concrete environment on which the examples that accompany the client's
  properties run: a transport that plays prepared connections, a clock that
  advances by ten milliseconds per reading, and callbacks that keep a log.
\<close>

datatype log_entry = LOpen u32 | LMessage sse_message | LError sse_error | LClosed

text \<open>A prepared connection: the result of \<open>open\<close>, the response, and the reads.\<close>

record demo_conn =
  dc_code :: i32
  dc_info :: sse_response_info
  dc_reads :: "bytes list"

record demo =
  d_ms :: u32
  d_open :: bool
  d_conns :: "demo_conn list"
  d_log :: "log_entry list"

definition demo_open :: "demo \<Rightarrow> sse_request \<Rightarrow> sse_response_info \<Rightarrow> (i32 \<times> sse_response_info \<times> demo) option" where
  "demo_open w req i = (case d_conns w of
      [] \<Rightarrow> Some (-1, i, w)
    | c # cs \<Rightarrow>
        if dc_code c = 0 then Some (0, dc_info c, w\<lparr>d_open := True\<rparr>)
        else Some (-1, i, w\<lparr>d_conns := cs\<rparr>))"

definition demo_read :: "demo \<Rightarrow> bytes \<Rightarrow> nat \<Rightarrow> u32 \<Rightarrow> (i32 \<times> bytes \<times> bool \<times> demo) option" where
  "demo_read w m n tmo = (case d_conns w of
      [] \<Rightarrow> Some (SSE_READ_ERROR, m, False, w)
    | c # cs \<Rightarrow>
        (case dc_reads c of
           [] \<Rightarrow> Some (SSE_READ_EOF, m, False, w)
         | bs # rs \<Rightarrow>
             Some (of_nat (length bs), take (length m) (bs @ drop (length bs) m), False,
                   w\<lparr>d_conns := c\<lparr>dc_reads := rs\<rparr> # cs\<rparr>)))"

definition demo_close :: "demo \<Rightarrow> demo option" where
  "demo_close w = Some (w\<lparr>d_open := False, d_conns := tl (d_conns w)\<rparr>)"

definition demo_transport :: "demo sse_transport" where
  "demo_transport = \<lparr>tr_open = Some demo_open, tr_read = Some demo_read, tr_close = Some demo_close\<rparr>"

definition log_with :: "('a \<Rightarrow> log_entry) \<Rightarrow> demo \<Rightarrow> 'a \<Rightarrow> (demo, unit) script" where
  "log_with f w x = Return () (w\<lparr>d_log := d_log w @ [f x]\<rparr>)"

definition demo_callbacks :: "demo sse_client_callbacks" where
  "demo_callbacks = \<lparr>on_open = Some (log_with LOpen), on_message = Some (log_with LMessage),
     on_error = Some (log_with LError), on_closed = Some (log_with (\<lambda>_. LClosed))\<rparr>"

definition demo_config :: "demo sse_client_config" where
  "demo_config =
     \<lparr>url = Some (bytes_of ''http://h/''), extra_headers = None, default_retry_ms = 5, max_retry_ms = 30000,
      jitter_pct = 10, idle_timeout_ms = 0, read_timeout_ms = 0, skip_content_type_check = False,
      buffers = \<lparr>buf_data = Some (replicate 16 0), buf_data_len = 16, buf_id = Some (replicate 4 0), buf_id_len = 4,
                 buf_event = Some (replicate 4 0), buf_event_len = 4\<rparr>,
      rx_buf = Some (replicate 32 0), rx_buf_len = 32, transport = Some demo_transport,
      now_ms = Some (\<lambda>w. (d_ms w, w\<lparr>d_ms := d_ms w + 10\<rparr>)), callbacks = demo_callbacks,
      reconnect_policy = None\<rparr>"

definition demo_info :: "i32 \<Rightarrow> sse_response_info" where
  "demo_info status =
     \<lparr>status_code = status, content_type = bytes_of ''text/event-stream'' @ replicate 47 0, retry_after_s = -1\<rparr>"

text \<open>A stream that drops after one event, then one that answers 204.\<close>

definition demo_conns :: "demo_conn list" where
  "demo_conns =
     [\<lparr>dc_code = 0, dc_info = demo_info 200,
       dc_reads = [bytes_of ''id: 7'' @ [LF] @ bytes_of ''data: hi'' @ [LF, LF]]\<rparr>,
      \<lparr>dc_code = 0, dc_info = demo_info 204, dc_reads = []\<rparr>]"

definition demo_world :: demo where
  "demo_world = \<lparr>d_ms = 5000, d_open = False, d_conns = demo_conns, d_log = []\<rparr>"

definition demo_T :: "bool \<Rightarrow> demo \<Rightarrow> bool" where
  "demo_T b w \<longleftrightarrow> d_open w = b \<and> list_all (\<lambda>c. info_wf (dc_info c)) (d_conns w)"

definition demo_start :: "demo sys" where
  "demo_start = started (init_client demo_config 5000) (demo_world\<lparr>d_ms := 5010\<rparr>)"

primrec demo_run :: "nat \<Rightarrow> demo sys" where
  "demo_run 0 = demo_start"
| "demo_run (Suc n) = snd (the (sse_client_poll (demo_run n)))"

lemma in_set_tl: "x \<in> set (tl xs) \<Longrightarrow> x \<in> set xs"
  by (cases xs) auto

interpretation demo: client_env demo_transport demo_T demo_config
proof
  show "callbacks_ok demo_T demo_config"
    by (simp add: callbacks_ok_def callback_ok_def callback_at_def demo_config_def demo_callbacks_def log_with_def demo_T_def)
qed (auto simp: demo_config_def client_config_valid_def demo_transport_def SSE_CLIENT_MAX_HEADERS_def
    SSE_CLIENT_ID_MAX_def memory_ok_def buffers_ok_def demo_T_def demo_open_def demo_read_def demo_close_def
    list.pred_set dest: in_set_tl split: list.split)

lemma demo_world_ok: "demo_T False demo_world"
  by (simp add: demo_T_def demo_world_def demo_conns_def info_wf_def demo_info_def bytes_of_def)

lemma demo_reachable: "reachable demo_config (demo_T False) (demo_run n)"
proof (induction n)
  case 0
  have "now_ms demo_config = Some (\<lambda>w. (d_ms w, w\<lparr>d_ms := d_ms w + 10\<rparr>))" by (simp add: demo_config_def)
  then have init: "sse_client_init (Some c0) (Some demo_config) demo_world =
      Some (0, Some (init_client demo_config 5000), demo_world\<lparr>d_ms := 5010\<rparr>)" for c0
    using demo.config_valid by (simp add: sse_client_init_def demo_world_def)
  show ?case
    unfolding demo_run.simps demo_start_def
    by (rule reachable.init [where W = "demo_T False", OF demo_world_ok init])
next
  case (Suc n)
  have "returns (sse_client_poll (demo_run n)) (\<lambda>_. True)"
    using returns_mono [OF demo.poll_ok [OF demo.reachable_settled [OF Suc]]] by simp
  then obtain h s where "sse_client_poll (demo_run n) = Some (h, s)" by (auto simp: returns_iff)
  then show ?case using client_step_trans_reachable [OF Suc] by simp
qed

text \<open>The run: connect, one message, end of stream, wait, wake up, connect and get a 204.\<close>

lemma demo_states:
  "state (cl (demo_run 1)) = SSE_STATE_OPEN" "state (cl (demo_run 2)) = SSE_STATE_OPEN"
  "state (cl (demo_run 3)) = SSE_STATE_WAITING_RETRY" "state (cl (demo_run 5)) = SSE_STATE_CLOSED"
  by code_simp+

lemma demo_bytes:
  "conn_bytes (trace (demo_run 2)) = [bytes_of ''id: 7'' @ [LF] @ bytes_of ''data: hi'' @ [LF, LF]]"
  by code_simp

lemma demo_poll: "\<exists>h. sse_client_poll (demo_run n) = Some (h, demo_run (Suc n))"
  using demo.poll_ok [OF demo.reachable_settled [OF demo_reachable], of n] by (auto simp: returns_iff)

text \<open>The request of the second connection.\<close>

definition demo_request :: sse_request where
  "demo_request = (case trace (demo_run 5) ! 7 of TOpen r ok \<Rightarrow> r | _ \<Rightarrow> \<lparr>req_url = [], req_headers = []\<rparr>)"

lemma demo_second_open:
  "trace (demo_run 5) = take 7 (trace (demo_run 5)) @ TOpen demo_request True # drop 8 (trace (demo_run 5))"
proof -
  have "7 < length (trace (demo_run 5))" "trace (demo_run 5) ! 7 = TOpen demo_request True"
    unfolding demo_request_def by code_simp+
  then show ?thesis using id_take_nth_drop [of 7 "trace (demo_run 5)"] by simp
qed

end
