(* ===== verification/Sse_Client_Properties.thy ===== *)
theory Sse_Client_Properties
  imports Demo
begin

text \<open>
  The properties of the client: its safety, its call discipline, what it delivers
  and resumes with, and its reconnect policy. Each is followed by an instance on
  the environment of \<open>Demo\<close>.
\<close>

lemmas reach_settled = client_env.reachable_settled
lemmas reach_history = client_env.reachable_history

lemma reach_base: "client_env t T g \<Longrightarrow> reachable g (T False) s \<Longrightarrow> base_inv g (cl s)"
  using reach_settled by (fastforce simp: settled_def client_inv_def)

lemma reach_polled:
  assumes "client_env t T g" and "reachable g (T False) s" and "sse_client_poll s = Some (h, s')"
  shows "polled (settled T g) s h s'" "settled T g s'"
  using returns_Some [OF client_env.poll_ok [OF assms(1) reach_settled [OF assms(1,2)]] assms(3)] by simp_all

lemma demo_T_reach: "client_env demo_transport demo_T demo_config" "reachable demo_config (demo_T False) (demo_run n)"
  by (rule demo.client_env_axioms, rule demo_reachable)

section \<open>Safety and refinement\<close>

text \<open>C3: In every state a program can reach by polling, closing and requesting stops, with any transport, clock and user callbacks that honour their contracts, a poll and a close run to completion without undefined behaviour, and the client's invariant holds: buffers within bounds, a NUL-terminated id free of CR, LF and NUL, and a transport that is open exactly while the state is OPEN.\<close>

theorem client_never_stuck:
  assumes "client_env t T g" and "reachable g (T False) s"
  shows "(\<exists>h s'. sse_client_poll s = Some (h, s')) \<and> (\<exists>s'. sse_client_close s = Some s') \<and> settled T g s"
  using client_env.poll_ok [OF assms(1) reach_settled [OF assms]]
    client_env.close_call_ok [OF assms(1) reach_settled [OF assms]] reach_settled [OF assms]
  by (auto simp: returns_iff)

theorem client_never_stuck_witness:
  "(\<exists>h s'. sse_client_poll (demo_run 2) = Some (h, s')) \<and> state (cl (demo_run 2)) = SSE_STATE_OPEN"
  using client_never_stuck [OF demo_T_reach, of 2] demo_states(2) by blast



section \<open>The order of calls\<close>

text \<open>C11: The history of a client is accepted by the call protocol: open only while the transport is closed, read and close only while it is open, messages and on_open only on an open transport, the policy hook only on a closed one, and nothing after on_closed. The transport is open at the end of the history exactly when the client says so, and only a CLOSED client has called on_closed.\<close>

theorem calls_follow_protocol:
  assumes "client_env t T g" and "reachable g (T False) s"
  shows "\<exists>dead. foldM obs_step (trace s) (False, False) = Some (transport_open (cl s), dead) \<and>
     (dead \<longrightarrow> state (cl s) = SSE_STATE_CLOSED) \<and> (transport_open (cl s) \<longleftrightarrow> state (cl s) = SSE_STATE_OPEN)"
  using reach_settled [OF assms] by (auto simp: settled_def client_inv_def obs_ok_def)

theorem calls_follow_protocol_witness:
  "state (cl (demo_run 5)) = SSE_STATE_CLOSED \<and>
   (\<exists>dead. foldM obs_step (trace (demo_run 5)) (False, False) = Some (False, dead))"
  using calls_follow_protocol [OF demo_T_reach, of 5] demo_states(4) by auto

lemma obs_message_wf: "foldM obs_step (as @ CbMessage m # bs) st = Some r \<Longrightarrow> message_wf m"
  by (cases "foldM obs_step as st") (auto simp: foldM_append split: if_splits)

text \<open>C8: Every message handed to the user is well formed: its event type is a non-empty NUL-terminated line of text, its id a NUL-terminated line of text, and its payload is followed by a NUL inside its array, whatever bytes the server sent.\<close>

theorem messages_well_formed:
  assumes "client_env t T g" and "reachable g (T False) s" and "CbMessage m \<in> set (trace s)"
  shows "\<exists>ev ident. c_str (msg_event m) = Some ev \<and> ev \<noteq> [] \<and> text_bytes ev \<and>
    c_str (msg_last_event_id m) = Some ident \<and> text_bytes ident \<and>
    msg_data_len m < length (msg_data m) \<and> msg_data m ! msg_data_len m = 0"
proof -
  obtain as bs where "trace s = as @ CbMessage m # bs" using assms(3) by (meson split_list)
  then have "message_wf m"
    using reach_settled [OF assms(1,2)] obs_message_wf by (fastforce simp: settled_def client_inv_def obs_ok_def)
  then show ?thesis by (auto simp: message_wf_def returns_iff terminated_def)
qed

theorem messages_well_formed_witness:
  "\<exists>m ident. CbMessage m \<in> set (trace (demo_run 2)) \<and> c_str (msg_last_event_id m) = Some ident \<and> text_bytes ident"
proof -
  have some: "list_ex (\<lambda>ob. case ob of CbMessage m \<Rightarrow> True | _ \<Rightarrow> False) xs \<Longrightarrow> \<exists>m. CbMessage m \<in> set xs" for xs
    by (induction xs) (auto split: obs.splits)
  have "list_ex (\<lambda>ob. case ob of CbMessage m \<Rightarrow> True | _ \<Rightarrow> False) (trace (demo_run 2))" by code_simp
  from some [OF this] obtain m where m: "CbMessage m \<in> set (trace (demo_run 2))" by blast
  from messages_well_formed [OF demo_T_reach this] m show ?thesis by blast
qed

lemma obs_closed_last:
  "foldM obs_step (as @ CbClosed # bs) st = Some (b, d) \<Longrightarrow> bs = [] \<and> d"
proof (induction as arbitrary: st)
  case Nil
  then show ?case by (cases st; cases bs) (auto split: if_splits)
next
  case (Cons ob as)
  then show ?case by (auto simp del: obs_step.simps split: bind_splits)
qed

text \<open>on_closed fires at most once, and it is the last call the client ever makes: nothing follows it in any history, be it to the user or to the transport.\<close>

theorem closed_is_last_call:
  assumes "client_env t T g" and "reachable g (T False) s" and "trace s = xs @ CbClosed # ys"
  shows "ys = [] \<and> CbClosed \<notin> set xs \<and> state (cl s) = SSE_STATE_CLOSED"
proof -
  obtain d where run: "foldM obs_step (trace s) (False, False) = Some (transport_open (cl s), d)"
    and d: "d \<longrightarrow> state (cl s) = SSE_STATE_CLOSED"
    using reach_settled [OF assms(1,2)] by (auto simp: settled_def client_inv_def obs_ok_def)
  have split: "bs = [] \<and> d" if "trace s = as @ CbClosed # bs" for as bs
    using run obs_closed_last unfolding that by blast
  have "CbClosed \<notin> set xs"
  proof
    assume "CbClosed \<in> set xs"
    then obtain as bs where "xs = as @ CbClosed # bs" by (meson split_list)
    then show False using split [of as "bs @ CbClosed # ys"] assms(3) by simp
  qed
  then show ?thesis using split [of xs ys] assms(3) d by simp
qed

theorem closed_is_last_call_witness:
  "\<exists>xs. trace (demo_run 5) = xs @ [CbClosed] \<and> CbClosed \<notin> set xs"
proof -
  have "trace (demo_run 5) = butlast (trace (demo_run 5)) @ CbClosed # []" by code_simp
  from closed_is_last_call [OF demo_T_reach this] this show ?thesis by metis
qed

text \<open>C15: CLOSED is final: whatever a program does next, the client stays CLOSED, calls nobody, and a poll returns UINT32_MAX.\<close>

theorem closed_is_final:
  assumes "client_env t T g" and "reachable g (T False) s" and "state (cl s) = SSE_STATE_CLOSED"
    and "client_step a s s'"
  shows "state (cl s') = SSE_STATE_CLOSED \<and> trace s' = trace s \<and> env s' = env s \<and>
     (\<forall>h. a = Poll h \<longrightarrow> h = UINT32_MAX)"
proof -
  have "\<not> transport_open (cl s)" using reach_settled [OF assms(1,2)] assms(3) by (simp add: settled_def)
  then have "sse_client_close s = Some s"
    using assms(3) by (simp add: sse_client_close_def to_closed_def close_transport_def)
  moreover have "sse_client_poll s = Some (UINT32_MAX, s)" using assms(3) by (simp add: sse_client_poll_def)
  ultimately show ?thesis
    using assms(3,4) by (cases a) (auto simp: client_step_simps sse_client_request_stop_def)
qed

theorem closed_is_final_witness:
  "client_step (Poll UINT32_MAX) (demo_run 5) (demo_run 6) \<and> trace (demo_run 6) = trace (demo_run 5)"
proof -
  obtain h where h: "sse_client_poll (demo_run 5) = Some (h, demo_run 6)"
    using demo_poll [of 5] by (auto simp: eval_nat_numeral)
  from closed_is_final [OF demo_T_reach demo_states(4) client_step.poll [OF h]]
  show ?thesis using client_step.poll [OF h] by auto
qed

section \<open>What a poll returns\<close>

lemma hint_fst: "fst (hint n s) = UINT32_MAX \<longleftrightarrow> n = UINT32_MAX \<or> state (cl s) = SSE_STATE_CLOSED"
  by (simp add: hint_def)

lemma zero_not_max: "0 \<noteq> UINT32_MAX" "UINT32_MAX \<noteq> 0"
  by (simp_all add: UINT32_MAX_def)

lemma max_negative: "sint UINT32_MAX \<le> 0"
  by (simp add: UINT32_MAX_def)

lemma read_poll_hint:
  assumes "read_poll P s h s'" and "state (cl s) = SSE_STATE_OPEN" and "read_timeout_ms (cfg (cl s)) \<noteq> UINT32_MAX"
  shows "h = UINT32_MAX \<longleftrightarrow> state (cl s') = SSE_STATE_CLOSED"
  using assms
  by (auto simp: read_poll_def received_def idled_def Let_def hint_fst zero_not_max after_read_def
      same_but_env_def dest: shut_state split: if_splits)

lemma polled_max_iff:
  assumes "client_env t T g" and "settled T g s" and "sse_client_poll s = Some (h, s')"
    and "read_timeout_ms g \<noteq> UINT32_MAX"
  shows "h = UINT32_MAX \<longleftrightarrow> state (cl s') = SSE_STATE_CLOSED"
proof -
  have poll: "polled (settled T g) s h s'"
    using returns_Some [OF client_env.poll_ok [OF assms(1,2)] assms(3)] by simp
  have "base_inv g (cl s)" using assms(2) by (simp add: settled_def client_inv_def)
  from base_inv_config(12) [OF this] have tmo: "read_timeout_ms (cfg (cl s)) \<noteq> UINT32_MAX"
    using assms(4) by (simp add: UINT32_MAX_def)
  show ?thesis
    using poll read_poll_hint [OF _ _ tmo]
    by (cases "state (cl s)")
      (auto simp: polled_def waited_def Let_def hint_fst zero_not_max same_but_env_def
        max_negative dest: shut_state split: if_splits)
qed

text \<open>C16: As the header promises, a poll returns UINT32_MAX exactly when it leaves the client CLOSED, on every path including a close from within a callback, provided the configured read timeout is not itself UINT32_MAX.\<close>

theorem poll_result_means_closed:
  assumes "client_env t T g" and "reachable g (T False) s" and "sse_client_poll s = Some (h, s')"
    and "read_timeout_ms g \<noteq> UINT32_MAX"
  shows "h = UINT32_MAX \<longleftrightarrow> state (cl s') = SSE_STATE_CLOSED"
  by (rule polled_max_iff [OF assms(1) reach_settled [OF assms(1,2)] assms(3,4)])

theorem poll_result_means_closed_witness:
  "\<exists>h. sse_client_poll (demo_run 4) = Some (h, demo_run 5) \<and> h = UINT32_MAX"
proof -
  obtain h where h: "sse_client_poll (demo_run 4) = Some (h, demo_run 5)"
    using demo_poll [of 4] by (auto simp: eval_nat_numeral)
  have "read_timeout_ms demo_config \<noteq> UINT32_MAX" by (simp add: demo_config_def UINT32_MAX_def)
  from poll_result_means_closed [OF demo_T_reach h this] show ?thesis using h demo_states(4) by blast
qed

text \<open>C17: A requested stop takes effect in the next poll, whatever the state: the poll returns UINT32_MAX, the client is CLOSED, and besides closing the transport and calling on_closed it calls nobody.\<close>

theorem stop_takes_effect:
  assumes "client_env t T g" and "reachable g (T False) s"
  shows "\<exists>s'. sse_client_poll (sse_client_request_stop s) = Some (UINT32_MAX, s') \<and>
    state (cl s') = SSE_STATE_CLOSED \<and> trace s' = trace s @ closing_obs (cl s)"
proof -
  let ?r = "sse_client_request_stop s"
  have r: "reachable g (T False) ?r" using assms(2) client_step.stop by (rule reachable.step)
  obtain h s' where p: "sse_client_poll ?r = Some (h, s')"
    using client_env.poll_ok [OF assms(1) reach_settled [OF assms(1) r]] by (auto simp: returns_iff)
  have facts: "stop_requested (cl ?r)" "closing_obs (cl ?r) = closing_obs (cl s)" "trace ?r = trace s" "state (cl ?r) = state (cl s)"
    by (simp_all add: sse_client_request_stop_def closing_obs_def)
  have "\<not> transport_open (cl s)" if "state (cl s) = SSE_STATE_CLOSED"
    using reach_settled [OF assms] that by (simp add: settled_def)
  then show ?thesis
    using reach_polled(1) [OF assms(1) r p] facts p
    by (auto simp: polled_def closing_obs_def shut_def split: if_splits)
qed

theorem stop_takes_effect_witness:
  "\<exists>s'. sse_client_poll (sse_client_request_stop (demo_run 2)) = Some (UINT32_MAX, s') \<and>
    trace s' = trace (demo_run 2) @ [TClose, CbClosed]"
proof -
  have "closing_obs (cl (demo_run 2)) = [TClose, CbClosed]" by code_simp
  then show ?thesis using stop_takes_effect [OF demo_T_reach, of 2] by auto
qed

section \<open>What is delivered, and what a reconnect resumes from\<close>

text \<open>C1: End to end, over any number of connections: while the client is not CLOSED, the messages and informational errors the user has received, in order, are exactly those the stream specification assigns to the bytes the transport delivered, connection by connection, with each message carrying the last event id in force; and the id the client holds is the one those bytes committed. Nothing is lost, duplicated or reordered, no matter how the bytes were split into reads.\<close>

theorem delivers_what_the_bytes_say:
  assumes "client_env t T g" and "reachable g (T False) s" and "state (cl s) \<noteq> SSE_STATE_CLOSED"
  shows "case resume (buffer_limits (buffers g)) [] (conn_bytes (trace s)) of (ns, i) \<Rightarrow>
    delivered (trace s) = filter (wanted g) ns \<and> id_bytes (cl s) = i"
  using reach_history [OF assms(1,2)] assms(3) by (simp add: history_inv_def caught_up_def)

theorem delivers_what_the_bytes_say_witness:
  "delivered (trace (demo_run 2)) = [NMessage (bytes_of ''message'') (bytes_of ''hi'') (bytes_of ''7'')] \<and>
   id_bytes (cl (demo_run 2)) = bytes_of ''7''"
proof -
  have open_st: "state (cl (demo_run 2)) \<noteq> SSE_STATE_CLOSED" using demo_states(2) by simp
  have spec: "resume (buffer_limits (buffers demo_config)) []
      [bytes_of ''id: 7'' @ [LF] @ bytes_of ''data: hi'' @ [LF, LF]] =
      ([NMessage (bytes_of ''message'') (bytes_of ''hi'') (bytes_of ''7'')], bytes_of ''7'')"
    by code_simp
  have "wanted demo_config n" for n
    by (simp add: wanted_def demo_config_def demo_callbacks_def split: notice.split)
  then show ?thesis
    using delivers_what_the_bytes_say [OF demo_T_reach open_st] unfolding demo_bytes spec by simp
qed

text \<open>C4: Every request in the history of a client carries the Accept and Cache-Control headers, the user's own headers, and a Last-Event-ID header with exactly the id that the bytes received before it amount to (none when that id is empty), in a NULL-terminated array.\<close>

theorem requests_resume_from_last_id:
  assumes "client_env t T g" and "reachable g (T False) s" and "trace s = xs @ TOpen req ok # ys"
  shows "null_terminated (req_headers req)
    (request_headers g (snd (resume (buffer_limits (buffers g)) [] (conn_bytes xs))))"
  using reach_history [OF assms(1,2)] assms(3) by (simp add: history_inv_def opens_ok_def)

theorem requests_resume_from_last_id_witness:
  "null_terminated (req_headers demo_request)
     [bytes_of ''Accept: text/event-stream'', bytes_of ''Cache-Control: no-store'', bytes_of ''Last-Event-ID: 7'']"
proof -
  have spec: "request_headers demo_config
      (snd (resume (buffer_limits (buffers demo_config)) [] (conn_bytes (take 7 (trace (demo_run 5)))))) =
    [bytes_of ''Accept: text/event-stream'', bytes_of ''Cache-Control: no-store'', bytes_of ''Last-Event-ID: 7'']"
    by code_simp
  show ?thesis
    using requests_resume_from_last_id [OF demo_T_reach demo_second_open] unfolding spec .
qed

lemma resume_text:
  "text_bytes i \<Longrightarrow> text_bytes (snd (resume L i cs))"
proof (induction cs arbitrary: i)
  case (Cons bs cs)
  have "text_bytes (last_id i os)" if "text_bytes i" "\<And>j. AId j \<in> set os \<Longrightarrow> text_bytes j" for i os
    using that by (induction i os rule: last_id.induct) auto
  then have "text_bytes (last_id i (spec_stream L bs))" using Cons.prems spec_stream_clean by blast
  from Cons.IH [OF this] show ?case by (simp add: Let_def split_beta)
qed simp

text \<open>C9: A server cannot inject headers through event ids: if the user's own extra headers are free of CR, LF and NUL, then so is every header line of every request, whatever bytes the server sent.\<close>

theorem no_header_injection:
  assumes "client_env t T g" and "reachable g (T False) s" and "TOpen req ok \<in> set (trace s)"
    and "list_all text_bytes (extra_list g)"
  shows "\<exists>hs. null_terminated (req_headers req) hs \<and> list_all text_bytes hs"
proof -
  obtain xs ys where "trace s = xs @ TOpen req ok # ys" using assms(3) by (meson split_list)
  then have "null_terminated (req_headers req)
      (request_headers g (snd (resume (buffer_limits (buffers g)) [] (conn_bytes xs))))"
    using reach_history [OF assms(1,2)] by (simp add: history_inv_def opens_ok_def)
  moreover have "text_bytes (bytes_of ''Accept: text/event-stream'')"
    "text_bytes (bytes_of ''Cache-Control: no-store'')" "text_bytes (bytes_of ''Last-Event-ID: '')"
    by code_simp+
  then have "list_all text_bytes (request_headers g i)" if "text_bytes i" for i
    using that assms(4) by (simp add: request_headers_def)
  ultimately show ?thesis using resume_text by (metis text_bytes_simps(1))
qed

theorem no_header_injection_witness:
  "\<exists>hs. null_terminated (req_headers demo_request) hs \<and> list_all text_bytes hs"
proof -
  have "TOpen demo_request True \<in> set (trace (demo_run 5))" by (subst demo_second_open) simp
  moreover have "list_all text_bytes (extra_list demo_config)" by (simp add: extra_list_def demo_config_def)
  ultimately show ?thesis by (rule no_header_injection [OF demo_T_reach])
qed

end
