(* ===== verification/Sse_Encode.thy ===== *)
theory Sse_Encode
  imports Sse_Parser_Refine
begin

text \<open>
  The inverse of the parser: an encoder of events into an event stream, as a server
  would write it, and the three line endings. What the stream specification assigns to
  an encoded stream is computed here; the round trip itself is a property of the parser.
\<close>

section \<open>Lines and their endings\<close>

definition join_lines :: "bytes \<Rightarrow> bytes list \<Rightarrow> bytes" where
  "join_lines eol ls = concat (map (\<lambda>l. l @ eol) ls)"

definition line_endings :: "bytes list" where
  "line_endings = [[LF], [CR], [CR, LF]]"

lemma join_lines_simps [simp]:
  "join_lines eol [] = []" "join_lines eol (l # ls) = l @ eol @ join_lines eol ls"
  by (simp_all add: join_lines_def)

lemma split_lines_run:
  "clean_line l \<Longrightarrow> split_lines cur (l @ rest) = split_lines (cur @ l) rest"
proof (induction l arbitrary: cur)
  case (Cons b l)
  then have "clean_line l" "b \<noteq> LF" "b \<noteq> CR" by (auto simp: clean_line_def)
  then show ?case using Cons.IH [of "cur @ [b]"] by simp
qed simp

lemma drop_lf_join: "list_all clean_line ls \<Longrightarrow> drop_lf (join_lines [CR] ls) = join_lines [CR] ls"
proof (cases ls)
  case (Cons l ls')
  assume "list_all clean_line ls"
  then have "LF \<notin> set l" using Cons by (simp add: clean_line_def)
  then show ?thesis using Cons by (cases l) (auto simp: drop_lf_def CR_def LF_def)
qed (simp add: drop_lf_def)

lemma split_join:
  assumes "eol \<in> set line_endings"
  shows "list_all clean_line ls \<Longrightarrow> split_lines [] (join_lines eol ls) = (ls, [])"
proof (induction ls)
  case (Cons l ls)
  then show ?case
    using assms drop_lf_join [of ls] split_lines_run [of l "[]"]
    by (auto simp: line_endings_def drop_lf_def CR_def LF_def)
qed simp

lemma strip_bom_line:
  assumes "e \<in> {CR, LF}"
  shows "strip_bom (l @ e # rest) = strip_bom l @ e # rest"
proof (cases "3 \<le> length l")
  case True
  then show ?thesis by (simp add: strip_bom_def)
next
  case False
  then obtain k where "3 - length l = Suc k" by (cases "3 - length l") auto
  then have "e \<in> set (take 3 (l @ e # rest))" by simp
  moreover have "e \<notin> set SSE_BOM" using assms by (auto simp: SSE_BOM_def CR_def LF_def)
  ultimately have "take 3 (l @ e # rest) \<noteq> SSE_BOM" by metis
  moreover have "length (take 3 l) \<noteq> length SSE_BOM" using False by (simp add: bom_length)
  then have "take 3 l \<noteq> SSE_BOM" by metis
  ultimately show ?thesis by (simp add: strip_bom_def)
qed

fun strip_first :: "bytes list \<Rightarrow> bytes list" where
  "strip_first [] = []"
| "strip_first (l # ls) = strip_bom l # ls"

lemma strip_bom_join:
  assumes "eol \<in> set line_endings"
  shows "strip_bom (join_lines eol ls) = join_lines eol (strip_first ls)"
proof (cases ls)
  case (Cons l ls')
  then show ?thesis
    using assms strip_bom_line [of "hd eol" l "tl eol @ join_lines eol ls'"] by (auto simp: line_endings_def)
qed (simp add: strip_bom_def SSE_BOM_def)

lemma strip_first_clean: "list_all clean_line ls \<Longrightarrow> list_all clean_line (strip_first ls)"
  by (cases ls) (auto simp: clean_line_def strip_bom_def dest: in_set_dropD)

text \<open>A stream of complete lines means the same with each of the three line endings.\<close>

lemma spec_stream_join:
  assumes "eol \<in> set line_endings" and "list_all clean_line ls"
  shows "spec_stream L (join_lines eol ls) = snd (spec_lines L (strip_first ls) empty_block)"
  using split_join [OF assms(1) strip_first_clean [OF assms(2)]]
  by (simp add: spec_stream_def strip_bom_join [OF assms(1)] partial_errors_def split_beta)

section \<open>Encoding events\<close>

datatype sent_event = Sent (sent_type: "bytes option") (sent_id: "bytes option") (sent_data: bytes)

fun lf_lines :: "bytes \<Rightarrow> bytes list" where
  "lf_lines [] = [[]]"
| "lf_lines (b # bs) = (if b = LF then [] # lf_lines bs else (b # hd (lf_lines bs)) # tl (lf_lines bs))"

definition field_line :: "string \<Rightarrow> bytes \<Rightarrow> bytes" where
  "field_line nm v = bytes_of nm @ [COLON, SPACE] @ v"

definition event_lines :: "sent_event \<Rightarrow> bytes list" where
  "event_lines e =
     (case sent_type e of None \<Rightarrow> [] | Some t \<Rightarrow> [field_line ''event'' t]) @
     (case sent_id e of None \<Rightarrow> [] | Some i \<Rightarrow> [field_line ''id'' i]) @
     map (field_line ''data'') (lf_lines (sent_data e)) @ [[]]"

definition encode :: "bytes \<Rightarrow> sent_event list \<Rightarrow> bytes" where
  "encode eol evs = join_lines eol (concat (map event_lines evs))"

text \<open>What can be sent through buffers of the given limits.\<close>

definition sendable :: "limits \<Rightarrow> sent_event \<Rightarrow> bool" where
  "sendable L e \<longleftrightarrow>
     (\<forall>t. sent_type e = Some t \<longrightarrow> t \<noteq> [] \<and> text_bytes t \<and> length t < type_cap L) \<and>
     (\<forall>i. sent_id e = Some i \<longrightarrow> text_bytes i \<and> length i < id_cap L) \<and>
     CR \<notin> set (sent_data e) \<and> length (sent_data e) < data_cap L"

definition received :: "sent_event \<Rightarrow> sse_out list" where
  "received e = (case sent_id e of None \<Rightarrow> [] | Some i \<Rightarrow> [AId i]) @
     [AEvent (sent_type e) (sent_id e) (sent_data e)]"

lemma lf_lines_not_Nil [simp]: "lf_lines d \<noteq> []"
  by (induction d) auto

lemma lf_lines_join: "concat (map (\<lambda>l. l @ [LF]) (lf_lines d)) = d @ [LF]"
proof (induction d)
  case (Cons b d)
  then show ?case by (cases "lf_lines d") (auto split: if_splits)
qed simp

lemma lf_lines_clean: "CR \<notin> set d \<Longrightarrow> list_all clean_line (lf_lines d)"
proof (induction d)
  case (Cons b d)
  then show ?case by (cases "lf_lines d") (auto simp: clean_line_def)
qed (simp add: clean_line_def)

lemma clean_line_append [simp]: "clean_line (xs @ ys) \<longleftrightarrow> clean_line xs \<and> clean_line ys"
  "clean_line (b # xs) \<longleftrightarrow> b \<noteq> CR \<and> b \<noteq> LF \<and> clean_line xs" "clean_line []"
  by (auto simp: clean_line_def)

lemma text_clean: "text_bytes v \<Longrightarrow> clean_line v"
  by (simp add: text_bytes_def clean_line_def)

lemma field_line_clean:
  "clean_line v \<Longrightarrow> nm \<in> {''event'', ''id'', ''data''} \<Longrightarrow> clean_line (field_line nm v)"
  by (auto simp: field_line_def bytes_of_def CR_def LF_def COLON_def SPACE_def)

lemma event_lines_clean: "sendable L e \<Longrightarrow> list_all clean_line (event_lines e)"
  using lf_lines_clean [of "sent_data e"]
  by (auto simp: event_lines_def sendable_def list.pred_map list_all_iff
      intro!: field_line_clean dest!: sym [of "Some _"] intro: text_clean split: option.split)

text \<open>How the specification reads one encoded line.\<close>

lemma spec_line_field:
  assumes "nm \<in> {''event'', ''id'', ''data''}"
  shows "spec_line L (field_line nm v) k = spec_field L (field_of_name (bytes_of nm)) v k"
proof -
  have nm: "COLON \<notin> set (bytes_of nm)" "bytes_of nm \<noteq> []" using assms by (auto simp: bytes_of_def COLON_def)
  then have "line_name (field_line nm v) = bytes_of nm"
    by (auto simp: line_name_def field_line_def takeWhile_tail)
  moreover have "hd (field_line nm v) \<noteq> COLON" using nm by (cases "bytes_of nm") (auto simp: field_line_def)
  moreover have "field_line nm v \<noteq> []" by (simp add: field_line_def)
  moreover have "drop (length (bytes_of nm) + 1) (field_line nm v) = SPACE # v"
    by (simp add: field_line_def)
  ultimately show ?thesis by (simp add: spec_line_def line_value_def strip_space_def)
qed

lemma spec_line_blank: "spec_line L [] k = spec_dispatch k"
  by (simp add: spec_line_def)

lemma field_names:
  "field_of_name (bytes_of ''event'') = F_EVENT" "field_of_name (bytes_of ''id'') = F_ID"
  "field_of_name (bytes_of ''data'') = F_DATA"
  by (simp_all add: field_of_name_def bytes_of_def)

lemma spec_lines_append:
  "spec_lines L (xs @ ys) k =
     (let (k1, o1) = spec_lines L xs k; (k2, o2) = spec_lines L ys k1 in (k2, o1 @ o2))"
  by (induction xs arbitrary: k) (auto simp: Let_def split_beta)

lemma spec_data_lines:
  "\<not> blk_discarded k \<Longrightarrow> length (blk_data k) + length (concat (map (\<lambda>l. l @ [LF]) ls)) \<le> data_cap L \<Longrightarrow>
   spec_lines L (map (field_line ''data'') ls) k =
     (k\<lparr>blk_data := blk_data k @ concat (map (\<lambda>l. l @ [LF]) ls)\<rparr>, [])"
proof (induction ls arbitrary: k)
  case (Cons l ls)
  then have "spec_line L (field_line ''data'' l) k = (k\<lparr>blk_data := blk_data k @ l @ [LF]\<rparr>, [])"
    by (simp add: spec_line_field field_names spec_field_def spec_data_def data_fits_def)
  then show ?case using Cons by simp
qed simp

lemma spec_event_lines:
  assumes "sendable L e"
  shows "spec_lines L (event_lines e) empty_block = (empty_block, received e)"
proof -
  let ?k = "empty_block\<lparr>blk_type := (case sent_type e of None \<Rightarrow> [] | Some t \<Rightarrow> t), blk_id := sent_id e\<rparr>"
  have "set (take n t) \<subseteq> set t" for n and t :: bytes by (rule set_take_subset)
  then have type_ok: "type_error L t = None" if "text_bytes t" "length t < type_cap L" for t
    using that by (auto simp: type_error_def text_bytes_def)
  have head: "spec_lines L ((case sent_type e of None \<Rightarrow> [] | Some t \<Rightarrow> [field_line ''event'' t]) @
       (case sent_id e of None \<Rightarrow> [] | Some i \<Rightarrow> [field_line ''id'' i])) empty_block = (?k, [])"
    using assms type_ok
    by (auto simp: spec_line_field field_names spec_field_def spec_event_def spec_id_def sendable_def
        id_fits_def empty_block_def text_bytes_def split: option.split)
  have data: "spec_lines L (map (field_line ''data'') (lf_lines (sent_data e))) ?k =
      (?k\<lparr>blk_data := sent_data e @ [LF]\<rparr>, [])"
    using spec_data_lines [of ?k "lf_lines (sent_data e)" L] assms
    by (simp add: lf_lines_join empty_block_def sendable_def)
  show ?thesis
    using head data assms
    by (auto simp: event_lines_def spec_lines_append spec_line_def spec_dispatch_def received_def
        empty_block_def sendable_def Let_def split_beta split: option.split simp flip: append_assoc)
qed

lemma strip_first_events: "strip_first (concat (map event_lines evs)) = concat (map event_lines evs)"
proof -
  have "strip_bom (field_line nm v) = field_line nm v" if "nm \<in> {''event'', ''id'', ''data''}" for nm v
    using that by (auto simp: strip_bom_def field_line_def bytes_of_def SSE_BOM_def)
  then have "strip_first (event_lines e @ ls) = event_lines e @ ls" for e ls
    by (cases "lf_lines (sent_data e)") (auto simp: event_lines_def split: option.split)
  then show ?thesis by (cases evs) simp_all
qed

lemma spec_stream_encode:
  assumes "eol \<in> set line_endings" and "list_all (sendable L) evs"
  shows "spec_stream L (encode eol evs) = concat (map received evs)"
proof -
  have clean: "list_all clean_line (concat (map event_lines evs))"
    using assms(2) event_lines_clean by (induction evs) (auto simp: list_all_append)
  have "spec_lines L (concat (map event_lines evs)) empty_block = (empty_block, concat (map received evs))"
    using assms(2) by (induction evs) (auto simp: spec_lines_append spec_event_lines)
  then show ?thesis
    using spec_stream_join [OF assms(1) clean] strip_first_events by (simp add: encode_def)
qed

end
