(* ===== verification/Sse_Parser_Properties.thy ===== *)
theory Sse_Parser_Properties
  imports Sse_Encode
begin

text \<open>
  The properties of the parser: it implements the event-stream specification for any
  split of the stream into chunks, inverts the encoder, stays within its buffers, keeps
  nothing across a reset, and where its memory contract is needed.
\<close>

section \<open>Feeding a stream in chunks\<close>

definition feed_all :: "'u sse_parser_callbacks \<Rightarrow> bytes list \<Rightarrow> 'u pstep" where
  "feed_all cb chunks = foldM (\<lambda>c. sse_parser_feed cb c (length c)) chunks"

lemma feed_all_concat: "feed_all cb chunks s = foldM (process_byte cb) (concat chunks) s"
proof (induction chunks arbitrary: s)
  case (Cons c chunks)
  then show ?case
    by (cases "foldM (process_byte cb) c s") (simp_all add: feed_all_def sse_parser_feed_def foldM_append)
qed (simp add: feed_all_def)

text \<open>What the user sees of a stream, given whole to a new parser: all calls, in order.\<close>

definition parse :: "sse_parser_buffers \<Rightarrow> bytes \<Rightarrow> sse_out list option" where
  "parse B bs = do { (p, outs) \<leftarrow> sse_parser_feed rec_cb bs (length bs) (sse_parser_init B, []); Some (map abs_out outs) }"

lemma parse_spec:
  assumes "buffers_ok B" and "0 < buf_event_len B"
  shows "parse B bs = Some (spec_stream (buffer_limits B) bs)"
  using run_refines_spec [OF assms, of bs]
  by (auto simp: parse_def sse_parser_feed_def returns_iff split_beta)

definition small_buffers :: sse_parser_buffers where
  "small_buffers = \<lparr>buf_data = Some (replicate 6 0), buf_data_len = 6, buf_id = Some (replicate 4 0), buf_id_len = 4,
     buf_event = Some (replicate 4 0), buf_event_len = 4\<rparr>"

lemma small_buffers_ok: "buffers_ok small_buffers" "0 < buf_event_len small_buffers"
  by (simp_all add: small_buffers_def buffers_ok_def)

section \<open>Refinement of the specification\<close>

text \<open>C2: Fed a stream in any chunks, the parser runs without undefined behaviour and calls the user back exactly as the event-stream specification says of the whole stream: the same events, ids, retry times and errors, in the same order, with the buffer sizes as the only limits.\<close>

theorem parser_implements_event_stream:
  assumes "buffers_ok B" and "0 < buf_event_len B"
  shows "\<exists>p outs. feed_all rec_cb chunks (sse_parser_init B, []) = Some (p, outs) \<and>
    map abs_out outs = spec_stream (buffer_limits B) (concat chunks)"
  using run_refines_spec [OF assms, of "concat chunks"] by (auto simp: feed_all_concat returns_iff)

theorem parser_implements_event_stream_witness:
  "\<exists>p outs. feed_all rec_cb [bytes_of ''id: 7'' @ [CR], [LF] @ bytes_of ''dat'', bytes_of ''a:hi'' @ [LF, LF]]
      (sse_parser_init small_buffers, []) = Some (p, outs) \<and>
    map abs_out outs = [AId (bytes_of ''7''), AEvent None (Some (bytes_of ''7'')) (bytes_of ''hi'')]"
proof -
  have spec: "spec_stream (buffer_limits small_buffers)
      (concat [bytes_of ''id: 7'' @ [CR], [LF] @ bytes_of ''dat'', bytes_of ''a:hi'' @ [LF, LF]]) =
    [AId (bytes_of ''7''), AEvent None (Some (bytes_of ''7'')) (bytes_of ''hi'')]"
    by code_simp
  show ?thesis
    using parser_implements_event_stream [OF small_buffers_ok,
        of "[bytes_of ''id: 7'' @ [CR], [LF] @ bytes_of ''dat'', bytes_of ''a:hi'' @ [LF, LF]]"]
    unfolding spec .
qed

text \<open>Any other callbacks see the same calls: feeding the parser with callbacks of any kind, some of them NULL, is feeding it with recording callbacks and then making the recorded calls, in order, on the user's object. The parser's own state does not depend on what the callbacks do.\<close>

theorem any_callbacks_see_the_recorded_calls:
  "feed_all cb chunks (p, u) =
     do { (p', outs) \<leftarrow> feed_all (rec_of cb) chunks (p, []); u' \<leftarrow> replay cb outs u; Some (p', u') }"
  unfolding feed_all_concat by (rule tracedD [OF run_traced])

section \<open>Memory safety\<close>

text \<open>C7: For any callbacks that accept well-formed arguments and keep their own invariant, feeding any chunks stays within the caller's buffers, keeps the parser's invariant and the callbacks' invariant, and never changes the buffer sizes. Well-formed means: NUL-terminated payload and type, and an id free of CR, LF and NUL that is shorter than the id buffer.\<close>

theorem parser_memory_safe:
  assumes "parser_callbacks cb I n" and "buffers_ok B" and "buf_id_len B \<le> n" and "I u"
  shows "\<exists>p u'. feed_all cb chunks (sse_parser_init B, u) = Some (p, u') \<and>
    parser_inv p \<and> I u' \<and> caps p = (buf_data_len B, buf_id_len B, buf_event_len B)"
proof -
  let ?ok = "parser_callbacks.sys_ok I n (caps (sse_parser_init B))"
  have feed: "?ok s \<Longrightarrow> returns (sse_parser_feed cb c (length c) s) ?ok" for c s
    by (rule parser_callbacks.feed_ok [OF assms(1)]) simp_all
  have "?ok (sse_parser_init B, u)"
    using assms by (simp add: parser_callbacks.sys_ok_def [OF assms(1)] parser_inv_init)
  then have "returns (feed_all cb chunks (sse_parser_init B, u)) ?ok"
    unfolding feed_all_def using feed by (intro returns_foldM)
  then show ?thesis by (auto simp: returns_iff parser_callbacks.sys_ok_def [OF assms(1)])
qed

text \<open>The strictest callbacks: undefined behaviour unless every argument is well-formed.\<close>

definition picky_cb :: "nat sse_parser_callbacks" where
  "picky_cb = \<lparr>pcb_on_event = Some (\<lambda>n ev. if event_wf ev then Some (n + 1) else None),
     pcb_on_id = Some (\<lambda>n x. if id_wf 4 x then Some (n + 1) else None),
     pcb_on_retry = Some (\<lambda>n ms. Some (n + 1)), pcb_on_error = None\<rparr>"

interpretation picky: parser_callbacks picky_cb "\<lambda>n. True" 4
  by unfold_locales (auto simp: picky_cb_def)

theorem parser_memory_safe_witness:
  "\<exists>p n. feed_all picky_cb [bytes_of ''id: 123456'' @ [LF, LF]] (sse_parser_init small_buffers, 0) = Some (p, n) \<and> parser_inv p"
proof -
  have "buf_id_len small_buffers \<le> 4" by (simp add: small_buffers_def)
  from parser_memory_safe [OF picky.parser_callbacks_axioms small_buffers_ok(1) this] show ?thesis by blast
qed

text \<open>The memory contract is needed: an id buffer of length 0 passes \<open>sse_parser_init\<close>, and the first block with an empty id then writes one byte past it.\<close>

theorem empty_id_buffer_overruns:
  assumes "buf_id B = Some []"
  shows "sse_parser_feed cb (bytes_of ''id'' @ [LF, LF]) 4 (sse_parser_init B, u) = None"
proof -
  define p where "p = (sse_parser_init B)\<lparr>p_state := PS_FIELD_NAME, name_len := 2,
      p_name := (replicate 8 0)[0 := 105, 1 := 100]\<rparr>"
  have id: "bytes_of ''id'' = [105, 100]" by (simp add: bytes_of_def)
  have "process_byte cb 105 (sse_parser_init B, u) =
      Some ((sse_parser_init B)\<lparr>p_state := PS_FIELD_NAME, name_len := 1, p_name := (replicate 8 0)[0 := 105]\<rparr>, u)"
    by (simp add: process_byte_def sse_parser_init_def buf_read_def SSE_BOM_def line_byte_def
        name_byte_def buf_write_def CR_def LF_def COLON_def)
  moreover have "process_byte cb 100 ((sse_parser_init B)\<lparr>p_state := PS_FIELD_NAME, name_len := 1,
      p_name := (replicate 8 0)[0 := 105]\<rparr>, u) = Some (p, u)"
    by (simp add: p_def process_byte_def sse_parser_init_def line_byte_def name_byte_def buf_write_def
        CR_def LF_def COLON_def)
  ultimately have name: "foldM (process_byte cb) (bytes_of ''id'') (sse_parser_init B, u) = Some (p, u)"
    by (simp add: id)
  have "field_of_name (take 2 ((replicate 8 0)[0 := 105, 1 := 100])) = F_ID" by code_simp
  then have line: "process_byte cb LF (p, u) = Some (p\<lparr>has_id := True, p_state := PS_LINE_START\<rparr>, u)"
    by (simp add: p_def process_byte_def sse_parser_init_def line_byte_def line_end_def resolve_field_name_def
        start_value_def commit_value_def CR_def LF_def)
  have "process_byte cb LF (p\<lparr>has_id := True, p_state := PS_LINE_START\<rparr>, u) = None"
    using assms by (simp add: p_def process_byte_def line_byte_def line_end_def dispatch_block_def dispatch_id_def
        sse_parser_init_def buf_write_def CR_def LF_def)
  moreover have "length (bytes_of ''id'') = 2" by (simp add: id)
  ultimately show ?thesis using name line by (simp add: sse_parser_feed_def foldM_append)
qed

theorem empty_id_buffer_overruns_witness:
  "sse_parser_feed rec_cb (bytes_of ''id'' @ [LF, LF]) 4
     (sse_parser_init \<lparr>buf_data = Some [0], buf_data_len = 1, buf_id = Some [], buf_id_len = 0,
        buf_event = Some [0], buf_event_len = 1\<rparr>, []) = None"
  by (rule empty_id_buffer_overruns) simp

section \<open>Reset and the byte-order mark\<close>

text \<open>C19: After a reset, whatever was fed before, the parser treats the next stream as a new parser does: nothing of the old connection, be it a half-read line, a block, a pending CR or a partial byte-order mark, reaches the new one.\<close>

theorem reset_forgets_everything:
  assumes "buffers_ok B" and "0 < buf_event_len B"
    and "feed_all rec_cb old (sse_parser_init B, []) = Some (p, outs)"
  shows "\<exists>p' outs'. feed_all rec_cb new (sse_parser_reset p, []) = Some (p', outs') \<and>
    map abs_out outs' = spec_stream (buffer_limits B) (concat new)"
proof -
  have "returns (feed_all rec_cb old (sse_parser_init B, [])) (recording.sys_ok (buf_id_len B) (caps (sse_parser_init B)))"
    unfolding feed_all_def
    by (rule returns_foldM) (auto intro: recording.feed_ok simp: recording.sys_ok_def parser_inv_init assms(1))
  then have p: "parser_inv p" "caps p = caps (sse_parser_init B)"
    using assms(3) by (auto simp: recording.sys_ok_def)
  have "buffers_ok (parser_buffers p)"
    using p(1) by (auto simp: buffers_ok_def parser_buffers_def inv_defs)
  moreover have "buffer_limits (parser_buffers p) = buffer_limits B" "buf_event_len (parser_buffers p) = buf_event_len B"
    using p(2) by (simp_all add: caps_def parser_buffers_def buffer_limits_def sse_parser_init_def)
  ultimately show ?thesis
    using run_refines_spec [of "parser_buffers p" "concat new"] assms(2)
    by (auto simp: sse_parser_reset_def feed_all_concat returns_iff)
qed

theorem reset_forgets_everything_witness:
  "\<exists>p outs p' outs'. feed_all rec_cb [bytes_of ''id: 1'' @ [CR]] (sse_parser_init small_buffers, []) = Some (p, outs) \<and>
    feed_all rec_cb [[LF] @ bytes_of ''data: x'' @ [LF, LF]] (sse_parser_reset p, []) = Some (p', outs') \<and>
    map abs_out outs' = [AEvent None None (bytes_of ''x'')]"
proof -
  obtain p outs where p: "feed_all rec_cb [bytes_of ''id: 1'' @ [CR]] (sse_parser_init small_buffers, []) = Some (p, outs)"
    using run_refines_spec [OF small_buffers_ok, of "concat [bytes_of ''id: 1'' @ [CR]]"]
    by (auto simp: feed_all_concat returns_iff)
  have "spec_stream (buffer_limits small_buffers) (concat [[LF] @ bytes_of ''data: x'' @ [LF, LF]]) =
    [AEvent None None (bytes_of ''x'')]" by code_simp
  then show ?thesis using reset_forgets_everything [OF small_buffers_ok p, of "[[LF] @ bytes_of ''data: x'' @ [LF, LF]]"] p
    by metis
qed

text \<open>\<open>process_byte\<close> satisfies the source's own equation, in which a rejected byte-order-mark prefix is replayed by recursive calls of \<open>process_byte\<close> itself; the recursion ends because the replayed calls no longer see the byte-order-mark state.\<close>

theorem process_byte_recursion:
  assumes "bom_n p < 3"
  shows "process_byte cb b (p, u) =
    (if swallow_lf p \<and> b = LF then Some (p\<lparr>swallow_lf := False\<rparr>, u)
     else
       let p = p\<lparr>swallow_lf := False\<rparr> in
       if p_state p = PS_BOM then
         (if b = SSE_BOM ! bom_n p then
            (let p = p\<lparr>bom_n := bom_n p + 1\<rparr> in
             Some (if bom_n p = 3 then p\<lparr>p_state := PS_LINE_START, bom_n := 0\<rparr> else p, u))
          else do {
            s \<leftarrow> foldM (process_byte cb) (take (bom_n p) SSE_BOM) (p\<lparr>bom_n := 0, p_state := PS_LINE_START\<rparr>, u);
            line_byte cb b s
          })
       else line_byte cb b (p, u))"
proof (cases "p_state p = PS_BOM \<and> b \<noteq> SSE_BOM ! bom_n p \<and> \<not> (swallow_lf p \<and> b = LF)")
  case True
  let ?q = "p\<lparr>swallow_lf := False\<rparr>"
  have "process_byte cb b (p, u) = process_byte cb b (?q, u)"
    using True by (auto simp: process_byte_def)
  also have "\<dots> = do { s \<leftarrow> foldM (process_byte cb) (take (bom_n ?q) SSE_BOM) (?q\<lparr>bom_n := 0, p_state := PS_LINE_START\<rparr>, u);
         line_byte cb b s }"
    using True assms by (intro process_byte_recursive) auto
  finally show ?thesis using True by (auto simp: Let_def)
next
  case False
  have "buf_read SSE_BOM (bom_n p) = Some (SSE_BOM ! bom_n p)" using assms by (simp add: buf_read_def bom_length)
  then show ?thesis using False assms by (auto simp: process_byte_def Let_def)
qed

theorem process_byte_recursion_witness:
  "process_byte rec_cb 65 ((sse_parser_init small_buffers)\<lparr>bom_n := 2\<rparr>, []) =
    do { s \<leftarrow> foldM (process_byte rec_cb) [0xEF, 0xBB] ((sse_parser_init small_buffers)\<lparr>p_state := PS_LINE_START\<rparr>, []);
         line_byte rec_cb 65 s }"
proof -
  have "bom_n ((sse_parser_init small_buffers)\<lparr>bom_n := 2\<rparr>) < 3" by simp
  from process_byte_recursion [OF this, of rec_cb 65 "[]"] show ?thesis
    by (simp add: sse_parser_init_def SSE_BOM_def LF_def)
qed

section \<open>Round trip and line endings\<close>

text \<open>C6: Parsing inverts encoding: a list of events that fit the buffers, written as an event stream with any of the three line endings, comes back as exactly these events with their types, ids and payloads, in order, and without any error.\<close>

theorem parse_encode:
  assumes "buffers_ok B" and "0 < buf_event_len B" and "eol \<in> set line_endings"
    and "list_all (sendable (buffer_limits B)) evs"
  shows "parse B (encode eol evs) = Some (concat (map received evs))"
  using parse_spec [OF assms(1,2)] spec_stream_encode [OF assms(3,4)] by simp

theorem parse_encode_witness:
  "parse small_buffers (encode [CR, LF] [Sent (Some (bytes_of ''add'')) (Some (bytes_of ''8'')) (bytes_of ''a'' @ [LF] @ bytes_of '' b''), Sent None None []]) =
    Some [AId (bytes_of ''8''), AEvent (Some (bytes_of ''add'')) (Some (bytes_of ''8'')) (bytes_of ''a'' @ [LF] @ bytes_of '' b''),
          AEvent None None []]"
proof -
  let ?evs = "[Sent (Some (bytes_of ''add'')) (Some (bytes_of ''8'')) (bytes_of ''a'' @ [LF] @ bytes_of '' b''), Sent None None []]"
  have "[CR, LF] \<in> set line_endings" by (simp add: line_endings_def)
  moreover have "list_all (sendable (buffer_limits small_buffers)) ?evs"
    by (simp add: sendable_def buffer_limits_def small_buffers_def text_bytes_def bytes_of_def CR_def LF_def)
  ultimately show ?thesis using parse_encode [OF small_buffers_ok, of "[CR, LF]" ?evs] by (simp add: received_def)
qed

text \<open>C20: LF, CR and CR LF are interchangeable: any sequence of lines, valid or not, gives the same calls with each of the three line endings.\<close>

theorem line_endings_equivalent:
  assumes "buffers_ok B" and "0 < buf_event_len B" and "list_all clean_line ls"
    and "eol \<in> set line_endings" and "eol' \<in> set line_endings"
  shows "parse B (join_lines eol ls) = parse B (join_lines eol' ls)"
  by (simp add: parse_spec [OF assms(1,2)] spec_stream_join [OF _ assms(3)] assms(4,5))

theorem line_endings_equivalent_witness:
  "parse small_buffers (join_lines [CR, LF] [bytes_of '':x'', bytes_of ''data'', []]) =
   parse small_buffers (join_lines [CR] [bytes_of '':x'', bytes_of ''data'', []])"
proof -
  have "list_all clean_line [bytes_of '':x'', bytes_of ''data'', []]"
    by (simp add: clean_line_def bytes_of_def CR_def LF_def)
  then show ?thesis
    by (rule line_endings_equivalent [OF small_buffers_ok]) (simp_all add: line_endings_def)
qed

section \<open>Fields\<close>

lemma parse_lines:
  assumes "buffers_ok B" and "0 < buf_event_len B" and "list_all clean_line ls" and "strip_first ls = ls"
  shows "parse B (join_lines [LF] ls) = Some (snd (spec_lines (buffer_limits B) ls empty_block))"
  using parse_spec [OF assms(1,2)] spec_stream_join [OF _ assms(3), of "[LF]"] assms(4)
  by (simp add: line_endings_def)

lemma strip_first_field: "nm \<in> {''event'', ''id'', ''data'', ''retry''} \<Longrightarrow> strip_first (field_line nm v # ls) = field_line nm v # ls"
  by (auto simp: strip_bom_def field_line_def bytes_of_def SSE_BOM_def)

lemma field_line_text: "text_bytes v \<Longrightarrow> nm \<in> {''event'', ''id'', ''data'', ''retry''} \<Longrightarrow> clean_line (field_line nm v)"
  using text_clean [of v] by (auto simp: field_line_def bytes_of_def CR_def LF_def COLON_def SPACE_def)

text \<open>A retry line of digits reports their decimal value, however many digits there are, saturated at 2^32 - 1; the 32-bit accumulator never wraps.\<close>

theorem retry_saturates:
  assumes "buffers_ok B" and "0 < buf_event_len B" and "ds \<noteq> []" and "list_all is_digit ds"
  shows "parse B (join_lines [LF] [field_line ''retry'' ds]) = Some [ARetry (min (2 ^ 32 - 1) (decimal ds))]"
proof -
  have ds: "text_bytes ds" using assms(4) by (induction ds) (auto simp: is_digit_def CR_def LF_def)
  have name: "line_name (field_line ''retry'' ds) = bytes_of ''retry''"
    "field_of_name (bytes_of ''retry'') = F_RETRY"
    by (simp_all add: line_name_def field_line_def bytes_of_def COLON_def field_of_name_def)
  have "spec_line (buffer_limits B) (field_line ''retry'' ds) empty_block =
      (empty_block, [ARetry (min (2 ^ 32 - 1) (decimal ds))])"
    using name assms(3,4)
    by (simp add: spec_line_def line_value_def spec_field_def spec_retry_def strip_space_def)
      (simp add: field_line_def bytes_of_def COLON_def)
  then show ?thesis
    using parse_lines [OF assms(1,2), of "[field_line ''retry'' ds]"] ds
    by (simp add: field_line_text strip_first_field del: strip_first.simps)
qed

theorem retry_saturates_witness:
  "parse small_buffers (join_lines [LF] [field_line ''retry'' (bytes_of ''99999999999999'')]) = Some [ARetry (2 ^ 32 - 1)]"
proof -
  have "min (2 ^ 32 - 1) (decimal (bytes_of ''99999999999999'')) = 2 ^ 32 - 1"
    "bytes_of ''99999999999999'' \<noteq> []" "list_all is_digit (bytes_of ''99999999999999'')"
    by (simp_all add: decimal_def bytes_of_def is_digit_def)
  then show ?thesis using retry_saturates [OF small_buffers_ok, of "bytes_of ''99999999999999''"] by simp
qed



text \<open>An id line that cannot be accepted also takes back a valid id of the same block: the event is delivered without an id and no id is committed. (The documentation of SSE_PARSE_ERR_ID_INVALID says only that the field is dropped.)\<close>

theorem invalid_id_revokes_valid_id:
  assumes "buffers_ok B" and "0 < buf_event_len B" and "text_bytes i" and "length i < buf_id_len B"
    and "text_bytes j" and "buf_id_len B \<le> length j" and "text_bytes d" and "length d < buf_data_len B"
  shows "parse B (join_lines [LF] [field_line ''id'' i, field_line ''id'' j, field_line ''data'' d, []]) =
    Some [AError SSE_PARSE_ERR_ID_INVALID, AEvent None None d]"
proof -
  let ?L = "buffer_limits B"
  let ?ls = "[field_line ''id'' i, field_line ''id'' j, field_line ''data'' d, []]"
  have clean: "list_all clean_line ?ls" using assms(3,5,7) by (simp add: field_line_text)
  have "spec_lines ?L ?ls empty_block = (empty_block, [AError SSE_PARSE_ERR_ID_INVALID, AEvent None None d])"
    using assms(3-8)
    by (simp add: spec_line_field field_names spec_field_def spec_data_def data_fits_def spec_id_def id_fits_def
        buffer_limits_def text_bytes_def spec_line_blank spec_dispatch_def empty_block_def)
  then show ?thesis
    using parse_lines [OF assms(1,2) clean] strip_first_field [of "''id''" i] by simp
qed

theorem invalid_id_revokes_valid_id_witness:
  "parse small_buffers (join_lines [LF] [field_line ''id'' (bytes_of ''1''), field_line ''id'' (bytes_of ''12345''), field_line ''data'' (bytes_of ''x''), []]) =
    Some [AError SSE_PARSE_ERR_ID_INVALID, AEvent None None (bytes_of ''x'')]"
  using invalid_id_revokes_valid_id [OF small_buffers_ok, of "bytes_of ''1''" "bytes_of ''12345''" "bytes_of ''x''"]
  by (simp add: small_buffers_def text_bytes_def bytes_of_def CR_def LF_def)

end
