(* ===== verification/Sse_Policy_Properties.thy ===== *)
theory Sse_Policy_Properties
  imports Demo
begin

text \<open>
  The properties of the client's decisions: which configurations and responses it
  accepts, when a failed connection is retried and after how long, and the equation
  that justifies how callbacks that close the client are modelled.
\<close>

section \<open>Reconnect delay\<close>

text \<open>C12: The scheduled delay is the one the documentation describes, computed on natural numbers: Retry-After seconds if the server gave them, else the base interval, doubled per failure up to 2^15 and capped, then raised by at most the configured percentage and clamped to 2^31 - 1. No step of the code's 32-bit and 64-bit arithmetic wraps, and jitter never shortens the delay.\<close>

theorem retry_delay_exact:
  fixes c :: "'w sse_client" and ra :: i32
  defines "base \<equiv> delay_base (unat (base_retry_ms c)) (unat (max_retry_ms (cfg c))) (unat (attempts c)) (sint ra)"
    and "delay \<equiv> unat (fst (retry_delay c ra))" and "pct \<equiv> unat (jitter_pct (cfg c))"
  shows "delay = min (2 ^ 31 - 1) (delay_jitter pct (unat (prng_next (prng c))) base) \<and>
    min (2 ^ 31 - 1) base \<le> delay \<and> 100 * delay \<le> base * (100 + pct)"
proof -
  have d: "delay = min (2 ^ 31 - 1) (delay_jitter pct (unat (prng_next (prng c))) base)"
    unfolding delay_def unat_retry_delay delay_ms_def base_def pct_def ..
  moreover have "100 * delay \<le> 100 * delay_jitter pct (unat (prng_next (prng c))) base" unfolding d by simp
  ultimately show ?thesis
    using delay_jitter_bounds(2) [of pct "unat (prng_next (prng c))" base]
      delay_jitter_bounds(1) [of base pct "unat (prng_next (prng c))"]
    by (simp add: min.coboundedI2 le_trans)
qed

text \<open>C13: A retry fires exactly when its delay has passed: in WAITING_RETRY, with the deadline set from any computed delay, a poll at most 2^31 ms after the retry was scheduled moves to CONNECTING iff the elapsed time, on a clock that may have wrapped, has reached the delay; before that it returns exactly the time left and changes nothing.\<close>

theorem retry_fires_on_time:
  assumes "state (cl s) = SSE_STATE_WAITING_RETRY" and "\<not> stop_requested (cl s)"
    and "retry_deadline (cl s) = t0 + fst (retry_delay c ra)"
    and "read_clock s = Some (now, u)" and "unat (now - t0) \<le> 2 ^ 31"
  shows "sse_client_poll s =
    (if delay_ms c ra \<le> unat (now - t0) then Some (0, set_state SSE_STATE_CONNECTING u)
     else Some (of_nat (delay_ms c ra - unat (now - t0)), u))"
proof -
  let ?d = "fst (retry_delay c ra)"
  have d: "unat ?d = delay_ms c ra" "unat ?d < 2 ^ 31"
    using delay_ms_less [of c ra] by (simp_all only: unat_retry_delay)
  have u: "cl u = cl s" using assms(4) by (auto simp: read_clock_def split_beta split: bind_splits)
  have left: "sint (t0 + ?d - now) = int (delay_ms c ra) - int (unat (now - t0))"
    using remaining [OF d(2) assms(5)] d(1) by simp
  have rest: "t0 + ?d - now = of_nat (delay_ms c ra - unat (now - t0))" if "unat (now - t0) < delay_ms c ra"
  proof -
    have "(of_nat (delay_ms c ra - unat (now - t0)) :: u32) = of_nat (unat ?d) - of_nat (unat (now - t0))"
      using that d(1) by (simp add: of_nat_diff)
    then show ?thesis by simp
  qed
  have poll: "sse_client_poll s =
      (if sint (t0 + ?d - now) \<le> 0 then Some (0, set_state SSE_STATE_CONNECTING u) else Some (t0 + ?d - now, u))"
    using assms(1-4) u by (simp add: sse_client_poll_def poll_waiting_def Let_def)
  have due: "sint (t0 + ?d - now) \<le> 0 \<longleftrightarrow> delay_ms c ra \<le> unat (now - t0)"
    unfolding left by (simp only: diff_le_0_iff_le of_nat_le_iff)
  show ?thesis
  proof (cases "delay_ms c ra \<le> unat (now - t0)")
    case True
    then show ?thesis unfolding poll due by (simp only: if_True)
  next
    case False
    then show ?thesis unfolding poll due using rest by (simp only: if_False not_le)
  qed
qed

text \<open>The demo's wait: scheduled at 5030 with a delay of five milliseconds.\<close>

theorem retry_fires_on_time_witness:
  "\<exists>u. sse_client_poll (demo_run 3) = Some (0, set_state SSE_STATE_CONNECTING u)"
proof -
  have st: "state (cl (demo_run 3)) = SSE_STATE_WAITING_RETRY" "\<not> stop_requested (cl (demo_run 3))" by code_simp+
  have due: "retry_deadline (cl (demo_run 3)) = 5030 + fst (retry_delay (cl (demo_run 2)) (-1))" by code_simp
  have "d_ms (env (demo_run 3)) = 5040" by code_simp
  moreover have "now_ms (cfg (cl (demo_run 3))) = now_ms demo_config"
    using demo.reachable_settled [OF demo_reachable, of 3] by (simp add: settled_def client_inv_def demo.cfg_simps)
  ultimately have clk: "read_clock (demo_run 3) =
      Some (5040, (demo_run 3)\<lparr>env := (env (demo_run 3))\<lparr>d_ms := 5050\<rparr>\<rparr>)"
    by (simp add: read_clock_def demo_config_def)
  have late: "unat ((5040 :: u32) - 5030) \<le> 2 ^ 31" by simp
  have "fst (retry_delay (cl (demo_run 2)) (-1)) \<le> 10" by code_simp
  then have "delay_ms (cl (demo_run 2)) (-1) \<le> 10" by (simp add: word_le_nat_alt unat_retry_delay)
  then have "delay_ms (cl (demo_run 2)) (-1) \<le> unat ((5040 :: u32) - 5030)" by simp
  then show ?thesis unfolding retry_fires_on_time [OF st due clk late] by (simp only: if_True) blast
qed

text \<open>The jitter generator of a client never reaches the state 0 in which it would be stuck: from any seed that \<open>sse_client_init\<close> can choose, each step is the plain xorshift step, and the fallback constant in \<open>prng_next\<close> is never used.\<close>

theorem prng_never_stuck:
  assumes "client_env t T g" and "reachable g (T False) s"
  shows "prng (cl s) \<noteq> 0 \<and> prng_next (prng (cl s)) = xorshift (prng (cl s)) \<and> prng_next (prng (cl s)) \<noteq> 0"
proof -
  have "prng (cl s) \<noteq> 0"
    using client_env.reachable_settled [OF assms] by (simp add: settled_def client_inv_def base_inv_def)
  then show ?thesis using xorshift_nonzero by (simp add: prng_next_def Let_def)
qed

theorem prng_never_stuck_witness:
  "prng_next (prng (cl (demo_run 2))) = xorshift (prng (cl (demo_run 2)))"
  using prng_never_stuck [OF demo.client_env_axioms demo_reachable, of 2] by simp

section \<open>Deciding on a failed connection\<close>



definition after_hook :: "sse_error \<Rightarrow> 'w \<Rightarrow> 'w sys \<Rightarrow> 'w sys" where
  "after_hook e w s =
     s\<lparr>env := w, trace := trace s @ (if reconnect_policy (cfg (cl s)) = None then [] else [CbPolicy e])\<rparr>"

lemma after_hook_simps [simp]:
  "cl (after_hook e w s) = cl s"
  "trace (after_hook e w s) = trace s @ (if reconnect_policy (cfg (cl s)) = None then [] else [CbPolicy e])"
  by (simp_all add: after_hook_def)





section \<open>Accepting configurations and responses\<close>

text \<open>C18: \<open>sse_client_init\<close> always returns: -1 exactly for a missing argument or an invalid configuration, and then neither the client's memory nor the clock is touched; otherwise 0, with a client in IDLE that has the defaults filled in, no last event id, no attempt counted, and a nonzero jitter seed.\<close>

theorem init_total:
  "\<exists>r c' w'. sse_client_init c g w = Some (r, c', w') \<and>
     (if c = None \<or> g = None \<or> \<not> client_config_valid (the g) then r = -1 \<and> c' = c \<and> w' = w
      else r = 0 \<and> (case c' of None \<Rightarrow> False | Some k \<Rightarrow>
        state k = SSE_STATE_IDLE \<and> \<not> transport_open k \<and> \<not> stop_requested k \<and> attempts k = 0 \<and>
        c_str (last_event_id k) = Some [] \<and> last_event_id_len k = 0 \<and> prng k \<noteq> 0 \<and>
        base_retry_ms k = (if default_retry_ms (the g) = 0 then 3000 else default_retry_ms (the g)) \<and>
        3 + extra_header_count k \<le> SSE_CLIENT_MAX_HEADERS \<and> buf_id_len (buffers (cfg k)) \<le> SSE_CLIENT_ID_MAX + 1))"
proof (cases "c = None \<or> g = None \<or> \<not> client_config_valid (the g)")
  case True
  then have "sse_client_init c g w = Some (-1, c, w)"
    by (auto simp: sse_client_init_def split: option.split)
  then show ?thesis using True by simp
next
  case False
  then obtain k h where kh: "c = Some k" "g = Some h" "client_config_valid h" by auto
  then obtain f where f: "now_ms h = Some f" by (auto simp: client_config_valid_def)
  have run: "sse_client_init c g w = Some (0, Some (init_client h (fst (f w))), snd (f w))"
    using kh f by (simp add: sse_client_init_def split_beta)
  have "c_str (replicate (SSE_CLIENT_ID_MAX + 1) 0) = Some []"
    by (simp add: c_str_def)
  then show ?thesis
    using run kh by (auto simp: init_client_def Let_def with_defaults_def client_config_valid_def split: option.splits)
qed

theorem init_total_witness:
  "\<forall>c0. \<exists>k w'. sse_client_init (Some c0) (Some demo_config) demo_world = Some (0, Some k, w') \<and>
      state k = SSE_STATE_IDLE \<and> base_retry_ms k = 5 \<and> prng k \<noteq> 0"
proof
  fix c0
  have "client_config_valid demo_config" "default_retry_ms demo_config = 5"
    using demo.config_valid by (simp_all add: demo_config_def)
  then show "\<exists>k w'. sse_client_init (Some c0) (Some demo_config) demo_world = Some (0, Some k, w') \<and>
      state k = SSE_STATE_IDLE \<and> base_retry_ms k = 5 \<and> prng k \<noteq> 0"
    using init_total [of "Some c0" "Some demo_config" demo_world] by (auto split: option.splits)
qed

lemma lower_delim: "lower c \<in> {59, 32} \<longleftrightarrow> c \<in> {59, 32}"
proof (cases "65 \<le> c \<and> c \<le> 90")
  case True
  then have "97 \<le> c + 32" "c \<noteq> 59" "c \<noteq> 32" by (auto simp: word_le_nat_alt unat_plus_if')
  moreover have "\<not> 97 \<le> (59 :: u8)" "\<not> 97 \<le> (32 :: u8)" by simp_all
  ultimately show ?thesis using True unfolding lower_def by (metis empty_iff insert_iff)
qed (auto simp: lower_def)

lemma lower_zero: "lower 0 = 0"
  by (simp add: lower_def)

lemma ct_match_prefix:
  assumes "0 \<notin> set ws"
  shows "c_str m = Some s \<Longrightarrow>
    ct_match ws m = Some (\<exists>rest. map lower s = ws @ rest \<and> (rest = [] \<or> hd rest \<in> {59, 32}))"
  using assms
proof (induction ws m arbitrary: s rule: ct_match.induct)
  case (2 c cs)
  then show ?case
  proof (cases "c = 0")
    case False
    then obtain s' where "s = c # s'" using 2 by (auto simp: c_str_def split: if_splits)
    then show ?thesis using False lower_delim [of c] by auto
  qed (auto simp: c_str_def)
next
  case (3 w ws c cs)
  then show ?case
  proof (cases "c = 0")
    case True
    then show ?thesis using 3 by (auto simp: c_str_def lower_zero split: if_splits)
  next
    case False
    then obtain s' where s: "s = c # s'" "c_str cs = Some s'" using 3(2) by (auto simp: c_str_def split: if_splits)
    then show ?thesis using 3(1) [OF _ s(2)] 3(3) by auto
  qed
qed (simp add: c_str_def)

text \<open>C22: The content type check reads no further than the string's NUL and accepts exactly the strings that, with ASCII letters lowered, are text/event-stream, alone or followed by a semicolon or a space.\<close>

theorem content_type_accepted:
  assumes "c_str m = Some s"
  shows "ct_is_event_stream m = Some (\<exists>rest. map lower s = bytes_of ''text/event-stream'' @ rest \<and>
    (rest = [] \<or> hd rest \<in> {59, 32}))"
proof -
  have "0 \<notin> set (bytes_of ''text/event-stream'')" by (simp add: bytes_of_def)
  from ct_match_prefix [OF this assms] show ?thesis unfolding ct_is_event_stream_def .
qed

theorem content_type_accepted_witness:
  "ct_is_event_stream (bytes_of ''Text/Event-Stream; charset=utf-8'' @ [0]) = Some True \<and>
   ct_is_event_stream (bytes_of ''text/event'' @ [0]) = Some False"
proof -
  have str: "c_str (bytes_of ''Text/Event-Stream; charset=utf-8'' @ [0]) = Some (bytes_of ''Text/Event-Stream; charset=utf-8'')"
    "c_str (bytes_of ''text/event'' @ [0]) = Some (bytes_of ''text/event'')"
    by code_simp+
  have "map lower (bytes_of ''Text/Event-Stream; charset=utf-8'') = bytes_of ''text/event-stream'' @ bytes_of ''; charset=utf-8''"
    "hd (bytes_of ''; charset=utf-8'') \<in> {59, 32}"
    by code_simp+
  then have yes: "\<exists>rest. map lower (bytes_of ''Text/Event-Stream; charset=utf-8'') = bytes_of ''text/event-stream'' @ rest \<and>
      (rest = [] \<or> hd rest \<in> {59, 32})" by blast
  have "length (map lower (bytes_of ''text/event'')) \<noteq> length (bytes_of ''text/event-stream'' @ rest)" for rest
    by (simp add: bytes_of_def)
  then have no: "map lower (bytes_of ''text/event'') \<noteq> bytes_of ''text/event-stream'' @ rest" for rest by metis
  show ?thesis
    unfolding content_type_accepted [OF str(1)] content_type_accepted [OF str(2)] using yes no by simp
qed

section \<open>Closing from a callback\<close>

text \<open>\<open>to_closed\<close> satisfies the source's recursive equation, in which \<open>on_closed\<close> may call \<open>sse_client_close\<close>, that is \<open>to_closed\<close>, again: the recursion ends at once because the state is already CLOSED.\<close>

theorem close_from_on_closed:
  "sse_client_close s = do {
     s \<leftarrow> close_transport s;
     if state (cl s) = SSE_STATE_CLOSED then Some s
     else (let s = set_state SSE_STATE_CLOSED s in
           call_user sse_client_close (on_closed (callbacks (cfg (cl s)))) () CbClosed s)
   }"
  unfolding sse_client_close_def by (rule to_closed_recursive)

end
