(* ===== verification/Esp_Transport.thy ===== *)
theory Esp_Transport
  imports Sse_Client
begin

text \<open>
  The ESP-IDF transport of \<open>ports/esp-idf/sse_transport_esp.c\<close>: URL origins, the
  header event handler, \<open>open\<close> with its bounded redirect loop, \<open>read\<close> and \<open>close\<close>.
  The HTTP client library it drives is the parameter \<open>api\<close>.
\<close>

section \<open>URL origins\<close>

text \<open>Pointers into a string are positions; a missing one (NULL) is \<open>None\<close>.\<close>

fun strstr :: "bytes \<Rightarrow> bytes \<Rightarrow> nat option" where
  "strstr [] w = (if w = [] then Some 0 else None)"
| "strstr (c # cs) w = (if take (length w) (c # cs) = w then Some 0 else map_option Suc (strstr cs w))"

fun memchr :: "bytes \<Rightarrow> u8 \<Rightarrow> nat option" where
  "memchr [] c = None"
| "memchr (b # bs) c = (if b = c then Some 0 else map_option Suc (memchr bs c))"

definition SLASH :: u8 where "SLASH = 47"
definition QUERY :: u8 where "QUERY = 63"
definition HASH :: u8 where "HASH = 35"
definition AT :: u8 where "AT = 64"
definition LBRACKET :: u8 where "LBRACKET = 91"
definition RBRACKET :: u8 where "RBRACKET = 93"

text \<open>The scan for the end of the authority, remembering the last \<open>@\<close>.\<close>

fun scan_authority :: "bytes \<Rightarrow> nat \<Rightarrow> nat option \<Rightarrow> nat \<times> nat option" where
  "scan_authority [] i at_pos = (i, at_pos)"
| "scan_authority (c # cs) i at_pos =
     (if c = SLASH \<or> c = QUERY \<or> c = HASH then (i, at_pos)
      else scan_authority cs (i + 1) (if c = AT then Some i else at_pos))"

fun parse_port :: "bytes \<Rightarrow> nat \<Rightarrow> nat option" where
  "parse_port [] p = Some p"
| "parse_port (q # qs) p =
     (if q < 48 \<or> q > 57 then None
      else (let p = p * 10 + unat (q - 48) in if p > 65535 then None else parse_port qs p))"

text \<open>
  The authority without its user info, split into host and port string. The host
  of an IPv6 literal keeps its brackets.
\<close>

definition split_host :: "bytes \<Rightarrow> (bytes \<times> bytes option) option" where
  "split_host h =
     (if h = [] then None
      else if hd h = LBRACKET then
        (case memchr h RBRACKET of
           None \<Rightarrow> None
         | Some i \<Rightarrow>
             (let rest = drop (i + 1) h in
              Some (take (i + 1) h, if rest \<noteq> [] \<and> hd rest = COLON then Some (tl rest) else None)))
      else
        (case memchr h COLON of
           None \<Rightarrow> Some (h, None)
         | Some i \<Rightarrow> Some (take i h, Some (drop (i + 1) h))))"

definition resolve_port :: "bytes \<Rightarrow> bytes option \<Rightarrow> nat option" where
  "resolve_port scheme port_str = (case port_str of
      Some s \<Rightarrow> if s = [] then None else parse_port s 0
    | None \<Rightarrow>
        if scheme = bytes_of ''http'' then Some 80
        else if scheme = bytes_of ''https'' then Some 443
        else None)"

definition origin_of :: "bytes \<Rightarrow> nat \<Rightarrow> nat \<Rightarrow> (bytes \<times> bytes \<times> nat) option" where
  "origin_of u scheme_cap host_cap = do {
     slen \<leftarrow> strstr u (bytes_of ''://'');
     if slen = 0 \<or> slen \<ge> scheme_cap then None
     else do {
       let scheme = map lower (take slen u);
       let h = drop (slen + 3) u;
       let (stop, at_pos) = scan_authority h 0 None;
       let start = (case at_pos of None \<Rightarrow> 0 | Some i \<Rightarrow> i + 1);
       (host, port_str) \<leftarrow> split_host (drop start (take stop h));
       if host = [] \<or> length host \<ge> host_cap then None
       else do {
         port \<leftarrow> resolve_port scheme port_str;
         Some (scheme, map lower host, port)
       }
     }
   }"

definition same_origin_urls :: "bytes \<Rightarrow> bytes \<Rightarrow> bool" where
  "same_origin_urls a b = (case origin_of a 8 256 of
      None \<Rightarrow> False
    | Some oa \<Rightarrow> (case origin_of b 8 256 of None \<Rightarrow> False | Some ob \<Rightarrow> oa = ob))"

section \<open>The transport's state and the library\<close>

record esp_ctx =
  hc :: bool                      \<comment> \<open>whether the client handle is not NULL\<close>
  ec_content_type :: bytes
  ec_location :: bytes
  ec_url :: bytes
  ec_retry_after_s :: i32
  ec_timeout :: u32

text \<open>
  The ESP HTTP client. Strings are given without their NUL. \<open>open\<close>, \<open>fetch_headers\<close>
  and \<open>read\<close> may report response headers, in order, to the event handler. \<open>read\<close> is
  given the number of bytes wanted and yields a code, the bytes it stores, \<open>errno\<close>,
  and whether another task called \<open>sse_client_request_stop\<close> meanwhile.
\<close>

record 'x http_api =
  http_init :: "'x \<Rightarrow> bytes \<Rightarrow> bool \<times> 'x"
  http_set_header :: "'x \<Rightarrow> bytes \<Rightarrow> bytes \<Rightarrow> 'x"
  http_open :: "'x \<Rightarrow> i32 \<times> (bytes \<times> bytes) list \<times> 'x"
  http_fetch_headers :: "'x \<Rightarrow> i32 \<times> (bytes \<times> bytes) list \<times> 'x"
  http_status :: "'x \<Rightarrow> i32"
  http_set_redirection :: "'x \<Rightarrow> i32 \<times> 'x"
  http_close :: "'x \<Rightarrow> 'x"
  http_cleanup :: "'x \<Rightarrow> 'x"
  http_set_timeout :: "'x \<Rightarrow> u32 \<Rightarrow> 'x"
  http_read :: "'x \<Rightarrow> nat \<Rightarrow> i32 \<times> bytes \<times> i32 \<times> (bytes \<times> bytes) list \<times> bool \<times> 'x"
  http_complete :: "'x \<Rightarrow> bool"

record 'x esp_sys =
  ectx :: esp_ctx
  elib :: 'x

definition ESP_OK :: i32 where "ESP_OK = 0"
definition ESP_ERR_HTTP_EAGAIN :: i32 where "ESP_ERR_HTTP_EAGAIN = 0x7007"
definition ESP_MAX_REDIRECT_HOPS :: nat where "ESP_MAX_REDIRECT_HOPS = 5"
definition INT_MAX :: nat where "INT_MAX = 0x7FFFFFFF"

definition strcasecmp_eq :: "bytes \<Rightarrow> bytes \<Rightarrow> bool" where
  "strcasecmp_eq a b \<longleftrightarrow> map lower a = map lower b"

section \<open>Response headers\<close>

text \<open>
  \<open>strtol(p, NULL, 10)\<close> at a digit: the digits, saturating at \<open>LONG_MAX\<close>, which is
  \<open>2^31 - 1\<close> on the 32-bit targets of this port.
\<close>

definition strtol32 :: "bytes \<Rightarrow> nat" where
  "strtol32 s = min (2 ^ 31 - 1)
     (foldl (\<lambda>n b. 10 * n + unat (b - 48)) 0 (takeWhile (\<lambda>b. 48 \<le> b \<and> b \<le> 57) s))"

definition retry_after_of :: "bytes \<Rightarrow> i32 \<Rightarrow> i32" where
  "retry_after_of v old =
     (let p = dropWhile (\<lambda>b. b = SPACE) v in
      if p \<noteq> [] \<and> 48 \<le> hd p \<and> hd p \<le> 57 then of_nat (strtol32 p) else old)"

definition on_http_event :: "bytes \<times> bytes \<Rightarrow> esp_ctx \<Rightarrow> esp_ctx option" where
  "on_http_event = (\<lambda>(key, v) t.
     if strcasecmp_eq key (bytes_of ''content-type'') then do {
       m \<leftarrow> snprintf_to (ec_content_type t) 64 v;
       Some (t\<lparr>ec_content_type := m\<rparr>)
     }
     else if strcasecmp_eq key (bytes_of ''location'') then do {
       m \<leftarrow> snprintf_to (ec_location t) 512 v;
       Some (t\<lparr>ec_location := m\<rparr>)
     }
     else if strcasecmp_eq key (bytes_of ''retry-after'') then
       Some (t\<lparr>ec_retry_after_s := retry_after_of v (ec_retry_after_s t)\<rparr>)
     else Some t)"

definition on_events :: "(bytes \<times> bytes) list \<Rightarrow> 'x esp_sys \<Rightarrow> 'x esp_sys option" where
  "on_events evs w = do { t \<leftarrow> foldM on_http_event evs (ectx w); Some (w\<lparr>ectx := t\<rparr>) }"

section \<open>Open, read, close\<close>

definition esp_teardown :: "'x http_api \<Rightarrow> 'x esp_sys \<Rightarrow> 'x esp_sys" where
  "esp_teardown api w =
     (if hc (ectx w) then
        w\<lparr>elib := http_cleanup api (http_close api (elib w)), ectx := (ectx w)\<lparr>hc := False\<rparr>\<rparr>
      else w)"

text \<open>One header line of the request, as name and value.\<close>

definition send_header :: "'x http_api \<Rightarrow> bytes \<Rightarrow> 'x \<Rightarrow> 'x" where
  "send_header api h x = (case memchr h COLON of
      None \<Rightarrow> x
    | Some nl \<Rightarrow>
        if nl \<ge> 64 then x
        else http_set_header api x (take nl h) (dropWhile (\<lambda>b. b = SPACE) (drop (nl + 1) h)))"

text \<open>The loop over the NULL-terminated array; running off its end is undefined.\<close>

fun send_headers :: "'x http_api \<Rightarrow> bytes option list \<Rightarrow> 'x \<Rightarrow> 'x option" where
  "send_headers api [] x = None"
| "send_headers api (None # hs) x = Some x"
| "send_headers api (Some h # hs) x = send_headers api hs (send_header api h x)"

definition clear_captured :: "esp_ctx \<Rightarrow> esp_ctx option" where
  "clear_captured t = do {
     m \<leftarrow> buf_write (ec_content_type t) 0 0;
     l \<leftarrow> buf_write (ec_location t) 0 0;
     Some (t\<lparr>ec_content_type := m, ec_location := l, ec_retry_after_s := -1\<rparr>)
   }"

definition is_redirect :: "i32 \<Rightarrow> bool" where
  "is_redirect status \<longleftrightarrow> status = 301 \<or> status = 302 \<or> status = 303 \<or> status = 307 \<or> status = 308"

text \<open>
  Whether the captured \<open>Location\<close> may be followed, and the URL remembered if so. The
  inner \<open>None\<close> is one of the two breaks of the loop.
\<close>

definition strncasecmp_prefix :: "bytes \<Rightarrow> bytes \<Rightarrow> bool" where
  "strncasecmp_prefix s w \<longleftrightarrow> map lower (take (length w) s) = w"

definition redirect_url :: "esp_ctx \<Rightarrow> esp_ctx option option" where
  "redirect_url t = do {
     loc \<leftarrow> c_str (ec_location t);
     cur \<leftarrow> c_str (ec_url t);
     if loc = [] then Some None
     else if hd loc = SLASH \<and> (tl loc = [] \<or> hd (tl loc) \<noteq> SLASH) then Some (Some t)
     else if \<not> (strncasecmp_prefix loc (bytes_of ''http://'') \<or> strncasecmp_prefix loc (bytes_of ''https://''))
             \<or> \<not> same_origin_urls cur loc then Some None
     else do {
       m \<leftarrow> snprintf_to (ec_url t) 512 loc;
       Some (Some (t\<lparr>ec_url := m\<rparr>))
     }
   }"

text \<open>One request on the handle: the status, or \<open>None\<close> when it failed and the handle is gone.\<close>

definition esp_request :: "'x http_api \<Rightarrow> 'x esp_sys \<Rightarrow> (i32 option \<times> 'x esp_sys) option" where
  "esp_request api w = do {
     let (r, evs, x) = http_open api (elib w);
     w \<leftarrow> on_events evs (w\<lparr>elib := x\<rparr>);
     if r \<noteq> ESP_OK then Some (None, esp_teardown api w)
     else do {
       let (r, evs, x) = http_fetch_headers api (elib w);
       w \<leftarrow> on_events evs (w\<lparr>elib := x\<rparr>);
       if sint r < 0 then Some (None, esp_teardown api w)
       else Some (Some (http_status api (elib w)), w)
     }
   }"

text \<open>The redirect part of the loop body: whether the loop goes on.\<close>

definition esp_follow :: "'x http_api \<Rightarrow> 'x esp_sys \<Rightarrow> (bool \<times> 'x esp_sys) option" where
  "esp_follow api w = do {
     target \<leftarrow> redirect_url (ectx w);
     case target of
       None \<Rightarrow> Some (False, w)
     | Some t \<Rightarrow> do {
         let (r, x) = http_set_redirection api (elib w);
         let w = w\<lparr>ectx := t, elib := x\<rparr>;
         if r \<noteq> ESP_OK then Some (False, w)
         else do {
           t \<leftarrow> clear_captured (ectx w);
           Some (True, w\<lparr>ectx := t, elib := http_close api (elib w)\<rparr>)
         }
       }
   }"

function esp_hops :: "'x http_api \<Rightarrow> nat \<Rightarrow> 'x esp_sys \<Rightarrow> (i32 option \<times> 'x esp_sys) option" where
  "esp_hops api hop w = do {
     (status, w) \<leftarrow> esp_request api w;
     case status of
       None \<Rightarrow> Some (None, w)
     | Some st \<Rightarrow>
         if \<not> is_redirect st \<or> hop \<ge> ESP_MAX_REDIRECT_HOPS then Some (Some st, w)
         else do {
           (go, w) \<leftarrow> esp_follow api w;
           if go then esp_hops api (hop + 1) w else Some (Some st, w)
         }
   }"
  by pat_completeness auto
termination
  by (relation "measure (\<lambda>(api, hop, w). ESP_MAX_REDIRECT_HOPS - hop)") auto

declare esp_hops.simps [simp del]

definition esp_open_fn ::
  "'x http_api \<Rightarrow> 'x esp_sys \<Rightarrow> sse_request \<Rightarrow> sse_response_info \<Rightarrow>
   (i32 \<times> sse_response_info \<times> 'x esp_sys) option" where
  "esp_open_fn api w req out = do {
     let w = esp_teardown api w;
     t \<leftarrow> clear_captured (ectx w);
     m \<leftarrow> snprintf_to (ec_url t) 512 (req_url req);
     let (ok, x) = http_init api (elib w) (req_url req);
     let w = w\<lparr>ectx := t\<lparr>ec_url := m, hc := ok\<rparr>, elib := x\<rparr>;
     if \<not> ok then Some (-1, out, w)
     else do {
       x \<leftarrow> send_headers api (req_headers req) (elib w);
       (status, w) \<leftarrow> esp_hops api 0 (w\<lparr>elib := x\<rparr>);
       case status of
         None \<Rightarrow> Some (-1, out, w)
       | Some st \<Rightarrow> do {
           ct \<leftarrow> c_str (ec_content_type (ectx w));
           m \<leftarrow> snprintf_to (content_type out) 64 ct;
           Some (0, out\<lparr>status_code := st, content_type := m, retry_after_s := ec_retry_after_s (ectx w)\<rparr>,
                 w\<lparr>ectx := (ectx w)\<lparr>ec_timeout := 0\<rparr>\<rparr>)
         }
     }
   }"

text \<open>
  \<open>errno\<close> values of the timeouts. The library stores at most the bytes wanted.
\<close>

definition EAGAIN :: i32 where "EAGAIN = 11"
definition ETIMEDOUT :: i32 where "ETIMEDOUT = 116"

definition esp_set_timeout :: "'x http_api \<Rightarrow> u32 \<Rightarrow> 'x esp_sys \<Rightarrow> 'x esp_sys" where
  "esp_set_timeout api timeout_ms w =
     (if timeout_ms = ec_timeout (ectx w) then w
      else w\<lparr>elib := http_set_timeout api (elib w) (if timeout_ms > 0x7FFFFFFF then 0x7FFFFFFF else timeout_ms),
             ectx := (ectx w)\<lparr>ec_timeout := timeout_ms\<rparr>\<rparr>)"

definition read_code :: "'x http_api \<Rightarrow> i32 \<Rightarrow> i32 \<Rightarrow> 'x \<Rightarrow> i32" where
  "read_code api r err x =
     (if sint r > 0 then r
      else if r = - ESP_ERR_HTTP_EAGAIN then SSE_READ_TIMEOUT
      else if r = 0 then (if http_complete api x then SSE_READ_EOF else SSE_READ_TIMEOUT)
      else if err = EAGAIN \<or> err = ETIMEDOUT then SSE_READ_TIMEOUT
      else SSE_READ_ERROR)"

definition esp_read_fn ::
  "'x http_api \<Rightarrow> 'x esp_sys \<Rightarrow> bytes \<Rightarrow> nat \<Rightarrow> u32 \<Rightarrow> (i32 \<times> bytes \<times> bool \<times> 'x esp_sys) option" where
  "esp_read_fn api w buf len timeout_ms =
     (if \<not> hc (ectx w) then Some (SSE_READ_ERROR, buf, False, w)
      else do {
        let w = esp_set_timeout api timeout_ms w;
        let want = min len INT_MAX;
        let (r, data, err, evs, stopped, x) = http_read api (elib w) want;
        m \<leftarrow> memcpy buf (take want data) (length (take want data));
        w \<leftarrow> on_events evs (w\<lparr>elib := x\<rparr>);
        Some (read_code api r err (elib w), m, stopped, w)
      })"

definition esp_close_fn :: "'x http_api \<Rightarrow> 'x esp_sys \<Rightarrow> 'x esp_sys option" where
  "esp_close_fn api w = Some (esp_teardown api w)"

definition sse_transport_esp :: "'x http_api \<Rightarrow> 'x esp_sys sse_transport" where
  "sse_transport_esp api =
     \<lparr>tr_open = Some (esp_open_fn api), tr_read = Some (esp_read_fn api), tr_close = Some (esp_close_fn api)\<rparr>"

text \<open>The context after \<open>calloc\<close>.\<close>

definition new_esp_ctx :: esp_ctx where
  "new_esp_ctx = \<lparr>hc = False, ec_content_type = replicate 64 0, ec_location = replicate 512 0,
     ec_url = replicate 512 0, ec_retry_after_s = -1, ec_timeout = 0\<rparr>"

text \<open>
  The constructor, given whether its two allocations succeed, and the destructor, whose
  argument may be NULL.
\<close>

definition sse_transport_esp_http_client :: "bool \<Rightarrow> bool \<Rightarrow> 'x http_api \<Rightarrow> ('x esp_sys sse_transport \<times> esp_ctx) option" where
  "sse_transport_esp_http_client got_tr got_ctx api =
     (if \<not> got_tr \<or> \<not> got_ctx then None else Some (sse_transport_esp api, new_esp_ctx))"

definition sse_transport_esp_http_client_free :: "'x http_api \<Rightarrow> 'x esp_sys sse_transport option \<Rightarrow> 'x esp_sys \<Rightarrow> 'x esp_sys" where
  "sse_transport_esp_http_client_free api t w = (if t = None then w else esp_teardown api w)"

end
