(* ===== verification/Esp_Transport_Safety.thy ===== *)
theory Esp_Transport_Safety
  imports Esp_Transport Sse_Client_Safety
begin

text \<open>
  The ESP-IDF transport stays inside its context's buffers and honours the
  contract the client relies on, whatever the HTTP client library reports. The
  origins it compares are those of the URLs, and every redirect it follows stays
  on the origin of the current request.
\<close>

section \<open>The context\<close>

definition ctx_ok :: "esp_ctx \<Rightarrow> bool" where
  "ctx_ok t \<longleftrightarrow> length (ec_content_type t) = 64 \<and> 0 \<in> set (ec_content_type t) \<and>
     length (ec_location t) = 512 \<and> 0 \<in> set (ec_location t) \<and>
     length (ec_url t) = 512 \<and> 0 \<in> set (ec_url t)"

definition esp_T :: "bool \<Rightarrow> 'x esp_sys \<Rightarrow> bool" where
  "esp_T b w \<longleftrightarrow> ctx_ok (ectx w) \<and> hc (ectx w) = b"

lemma returns_snprintf [wp, simp]:
  "0 < cap \<Longrightarrow> returns (snprintf_to dst cap v) Q \<longleftrightarrow>
     cap \<le> length dst \<and> Q (take (cap - 1) v @ 0 # drop (length (take (cap - 1) v) + 1) dst)"
  by (simp add: snprintf_to_def Let_def)

lemma returns_c_str [wp, simp]: "returns (c_str m) Q \<longleftrightarrow> 0 \<in> set m \<and> Q (takeWhile (\<lambda>b. b \<noteq> 0) m)"
  by (simp add: c_str_def)

lemma ctx_ok_upd [simp]:
  "ctx_ok (t\<lparr>hc := b\<rparr>) = ctx_ok t" "ctx_ok (t\<lparr>ec_retry_after_s := n\<rparr>) = ctx_ok t"
  "ctx_ok (t\<lparr>ec_timeout := tmo\<rparr>) = ctx_ok t"
  by (simp_all add: ctx_ok_def)

lemma on_http_event_ok:
  "ctx_ok t \<Longrightarrow> returns (on_http_event e t) (\<lambda>t'. ctx_ok t' \<and> hc t' = hc t)"
  by (cases e) (auto simp: on_http_event_def ctx_ok_def)

lemma on_events_ok:
  assumes "ctx_ok (ectx w)"
  shows "returns (on_events evs w) (\<lambda>w'. ctx_ok (ectx w') \<and> hc (ectx w') = hc (ectx w) \<and> elib w' = elib w)"
proof -
  have "returns (foldM on_http_event evs (ectx w)) (\<lambda>t. ctx_ok t \<and> hc t = hc (ectx w))"
    using assms by (intro returns_foldM) (auto intro!: returns_mono [OF on_http_event_ok])
  then show ?thesis by (auto simp: on_events_def elim!: returns_mono)
qed

lemma teardown_simps [simp]:
  "\<not> hc (ectx (esp_teardown api w))" "ctx_ok (ectx (esp_teardown api w)) = ctx_ok (ectx w)"
  by (simp_all add: esp_teardown_def)

lemma clear_captured_ok: "ctx_ok t \<Longrightarrow> returns (clear_captured t) (\<lambda>t'. ctx_ok t' \<and> hc t' = hc t)"
  by (auto simp: clear_captured_def ctx_ok_def set_update_memI)

lemma redirect_url_ok:
  "ctx_ok t \<Longrightarrow> returns (redirect_url t) (\<lambda>r. \<forall>t'. r = Some t' \<longrightarrow> ctx_ok t' \<and> hc t' = hc t)"
  by (auto simp: redirect_url_def ctx_ok_def)

lemma esp_request_ok:
  assumes "esp_T True w"
  shows "returns (esp_request api w) (\<lambda>(st, w'). esp_T (st \<noteq> None) w')"
proof -
  obtain r evs x where o: "http_open api (elib w) = (r, evs, x)" by (metis prod_cases3)
  have 1: "returns (on_events evs (w\<lparr>elib := x\<rparr>)) (\<lambda>u. esp_T True u)"
    using on_events_ok [of "w\<lparr>elib := x\<rparr>" evs] assms by (auto simp: esp_T_def elim!: returns_mono)
  have 2: "returns (do { let (r, evs, x) = http_fetch_headers api (elib u);
        u \<leftarrow> on_events evs (u\<lparr>elib := x\<rparr>);
        if sint r < 0 then Some (None, esp_teardown api u)
        else Some (Some (http_status api (elib u)), u) }) (\<lambda>(st, w'). esp_T (st \<noteq> None) w')"
    if u: "esp_T True u" for u
  proof -
    obtain r evs x where f: "http_fetch_headers api (elib u) = (r, evs, x)" by (metis prod_cases3)
    have "returns (on_events evs (u\<lparr>elib := x\<rparr>)) (\<lambda>u. esp_T True u)"
      using on_events_ok [of "u\<lparr>elib := x\<rparr>" evs] u by (auto simp: esp_T_def elim!: returns_mono)
    then show ?thesis by (auto simp: f esp_T_def elim!: returns_mono)
  qed
  have 3: "esp_T False (esp_teardown api u)" if "esp_T True u" for u :: "'a esp_sys"
    using that by (simp add: esp_T_def)
  show ?thesis
    using 1 2 3 unfolding esp_request_def by (cases "r = ESP_OK") (auto simp: o elim!: returns_mono)
qed

lemma esp_follow_ok:
  assumes "esp_T True w"
  shows "returns (esp_follow api w) (\<lambda>(go, w'). esp_T True w')"
proof -
  have fin: "returns (do { let (r, x) = http_set_redirection api (elib w);
         let u = w\<lparr>ectx := t, elib := x\<rparr>;
         if r \<noteq> ESP_OK then Some (False, u)
         else do { t \<leftarrow> clear_captured (ectx u);
           Some (True, u\<lparr>ectx := t, elib := http_close api (elib u)\<rparr>) } }) (\<lambda>(go, w'). esp_T True w')"
    if "ctx_ok t" "hc t" for t
    using that clear_captured_ok [OF that(1)]
    by (auto simp: esp_T_def Let_def split_beta elim!: returns_mono)
  have "ctx_ok (ectx w)" "hc (ectx w)" using assms by (simp_all add: esp_T_def)
  from returns_mono [OF redirect_url_ok [OF this(1)]] this assms fin show ?thesis
    unfolding esp_follow_def by (auto split: option.split)
qed

lemma esp_hops_ok:
  "esp_T True w \<Longrightarrow> returns (esp_hops api hop w) (\<lambda>(st, w'). esp_T (st \<noteq> None) w')"
proof (induction api hop w rule: esp_hops.induct)
  case (1 api hop w)
  obtain st u where req: "esp_request api w = Some (st, u)" "esp_T (st \<noteq> None) u"
    using esp_request_ok [OF 1(2), of api] by (auto simp: returns_iff)
  show ?case
  proof (cases "\<exists>s. st = Some s \<and> is_redirect s \<and> hop < ESP_MAX_REDIRECT_HOPS")
    case False
    then show ?thesis using req by (subst esp_hops.simps) (auto split: option.split)
  next
    case True
    then obtain s where s: "st = Some s" "is_redirect s" "hop < ESP_MAX_REDIRECT_HOPS" by blast
    then have "esp_T True u" using req(2) by simp
    from esp_follow_ok [OF this, of api] obtain go v where v: "esp_follow api u = Some (go, v)" "esp_T True v"
      by (auto simp: returns_iff)
    have "returns (esp_hops api (hop + 1) v) (\<lambda>(st, w'). esp_T (st \<noteq> None) w')" if "go"
      using that s v by (intro 1(1) [OF req(1)]) auto
    then show ?thesis using req(1) s v by (subst esp_hops.simps) simp
  qed
qed

lemma send_headers_total: "null_terminated hs xs \<Longrightarrow> returns (send_headers api hs x) (\<lambda>_. True)"
  by (induction xs arbitrary: hs x) (auto simp: null_terminated_def)

section \<open>The contract\<close>

lemma esp_open_ok:
  assumes "esp_T False w" and info: "info_wf i" and hs: "null_terminated (req_headers req) xs"
  shows "returns (esp_open_fn api w req i) (\<lambda>(r, i', w'). esp_T (r = 0) w' \<and> info_wf i')"
proof -
  have td: "esp_teardown api w = w" "ctx_ok (ectx w)" using assms(1) by (simp_all add: esp_T_def esp_teardown_def)
  obtain t where t: "clear_captured (ectx w) = Some t" "ctx_ok t"
    using clear_captured_ok [OF td(2)] by (auto simp: returns_iff)
  obtain m where m: "snprintf_to (ec_url t) 512 (req_url req) = Some m" "length m = 512" "0 \<in> set m"
    using t(2) by (simp add: ctx_ok_def snprintf_to_def Let_def)
  obtain ok x where i: "http_init api (elib w) (req_url req) = (ok, x)" by (cases "http_init api (elib w) (req_url req)")
  let ?w = "w\<lparr>ectx := t\<lparr>ec_url := m, hc := ok\<rparr>, elib := x\<rparr>"
  have T: "esp_T ok ?w" using t(2) m(2,3) by (simp add: esp_T_def ctx_ok_def)
  show ?thesis
  proof (cases ok)
    case False
    then show ?thesis using td t m i T info by (simp add: esp_open_fn_def)
  next
    case True
    obtain y where y: "send_headers api (req_headers req) x = Some y"
      using send_headers_total [OF hs, of api x] by (auto simp: returns_iff)
    have "esp_T True (?w\<lparr>elib := y\<rparr>)" using T True by (simp add: esp_T_def)
    from esp_hops_ok [OF this, of api 0] obtain st u
      where u: "esp_hops api 0 (?w\<lparr>elib := y\<rparr>) = Some (st, u)" "esp_T (st \<noteq> None) u"
      by (auto simp: returns_iff)
    then show ?thesis
      using td(1) t(1) m(1) i True y info
      by (cases st) (auto simp: esp_open_fn_def esp_T_def ctx_ok_def info_wf_def snprintf_to_def Let_def c_str_def)
  qed
qed

lemma esp_read_ok:
  assumes "esp_T True w" and "len \<le> length m"
  shows "returns (esp_read_fn api w m len tmo) (\<lambda>(r, m', stopped, w'). esp_T True w' \<and> length m' = length m)"
proof -
  let ?w = "esp_set_timeout api tmo w"
  have w: "ctx_ok (ectx ?w)" "hc (ectx ?w)" "hc (ectx w)"
    using assms(1) by (simp_all add: esp_T_def esp_set_timeout_def)
  obtain r d e evs st x where rd: "http_read api (elib ?w) (min len INT_MAX) = (r, d, e, evs, st, x)"
    by (metis prod_cases6)
  have "length (take (min len INT_MAX) d) \<le> length m" using assms(2) by simp
  then obtain m' where m': "memcpy m (take (min len INT_MAX) d) (length (take (min len INT_MAX) d)) = Some m'"
      "length m' = length m"
    by (auto simp: memcpy_def)
  obtain v where v: "on_events evs (?w\<lparr>elib := x\<rparr>) = Some v" "esp_T True v"
    using on_events_ok [of "?w\<lparr>elib := x\<rparr>" evs] w by (auto simp: returns_iff esp_T_def)
  show ?thesis
    using w(3) rd m' v by (simp add: esp_read_fn_def Let_def)
qed

lemma esp_close_ok: "returns (esp_close_fn api w) (esp_T False)" if "esp_T True w"
  using that by (simp add: esp_close_fn_def esp_T_def)

interpretation esp: sse_transport_contract "sse_transport_esp api" esp_T for api
  by unfold_locales (auto simp: sse_transport_esp_def intro: esp_open_ok esp_read_ok esp_close_ok)

text \<open>From construction to destruction no handle is left behind.\<close>

lemma esp_new_ok: "sse_transport_esp_http_client got_tr got_ctx api = Some (t, ctx) \<Longrightarrow> esp_T False \<lparr>ectx = ctx, elib = x\<rparr>"
  by (auto simp: sse_transport_esp_http_client_def esp_T_def new_esp_ctx_def ctx_ok_def split: if_splits)

lemma esp_free_ok: "esp_T b w \<Longrightarrow> esp_T False (sse_transport_esp_http_client_free api (Some t) w)"
  by (simp add: sse_transport_esp_http_client_free_def esp_T_def)

end
