(* ===== verification/Esp_Example.thy ===== *)
theory Esp_Example
  imports Esp_Transport_Safety Sse_Client_Reach
begin

text \<open>
  The program of \<open>examples/esp32/main/main.c\<close>: a client on the ESP-IDF transport
  with logging callbacks, run by the task of \<open>ports/esp-idf/sse_client_task.c\<close>. It
  provides the environment the client's contract asks for.
\<close>

section \<open>Configuration\<close>

text \<open>What the example logs, with the arguments of the format strings.\<close>

datatype log_line =
  LogOpen u32 | LogMessage bytes bytes bytes | LogError sse_error | LogClosed

text \<open>The board: the HTTP client library, the microsecond timer and the log.\<close>

record 'x board =
  bd_http :: "'x http_api"
  bd_time :: "'x \<Rightarrow> u64 \<times> 'x"
  bd_log :: "log_line \<Rightarrow> 'x \<Rightarrow> 'x"

definition now_ms_esp :: "'x board \<Rightarrow> 'x esp_sys \<Rightarrow> u32 \<times> 'x esp_sys" where
  "now_ms_esp b w = (let (us, x) = bd_time b (elib w) in (ucast (us div 1000), w\<lparr>elib := x\<rparr>))"

definition log_to :: "'x board \<Rightarrow> log_line \<Rightarrow> 'x esp_sys \<Rightarrow> ('x esp_sys, unit) script" where
  "log_to b l w = Return () (w\<lparr>elib := bd_log b l (elib w)\<rparr>)"

text \<open>\<open>%s\<close> stops at a NUL, \<open>%.*s\<close> also at the given length.\<close>

definition printed :: "bytes \<Rightarrow> bytes" where
  "printed m = takeWhile (\<lambda>b. b \<noteq> 0) m"

definition example_on_message :: "'x board \<Rightarrow> 'x esp_sys \<Rightarrow> sse_message \<Rightarrow> ('x esp_sys, unit) script" where
  "example_on_message b w m =
     log_to b (LogMessage (printed (msg_event m)) (printed (msg_last_event_id m))
                 (printed (take (msg_data_len m) (msg_data m)))) w"

definition example_callbacks :: "'x board \<Rightarrow> 'x esp_sys sse_client_callbacks" where
  "example_callbacks b =
     \<lparr>on_open = Some (\<lambda>w n. log_to b (LogOpen n) w), on_message = Some (example_on_message b),
      on_error = Some (\<lambda>w e. log_to b (LogError e) w), on_closed = Some (\<lambda>w _. log_to b LogClosed w)\<rparr>"

text \<open>\<open>app_main\<close>; \<open>d\<close>, \<open>i\<close>, \<open>e\<close> and \<open>r\<close> are the sizes of the static buffers.\<close>

definition config_with :: "nat \<Rightarrow> nat \<Rightarrow> nat \<Rightarrow> nat \<Rightarrow> 'x board \<Rightarrow> bytes \<Rightarrow> 'x esp_sys sse_client_config" where
  "config_with d i e r b u =
     \<lparr>url = Some u, extra_headers = None, default_retry_ms = 0, max_retry_ms = 30000, jitter_pct = 10,
      idle_timeout_ms = 60000, read_timeout_ms = 0, skip_content_type_check = False,
      buffers = \<lparr>buf_data = Some (replicate d 0), buf_data_len = d, buf_id = Some (replicate i 0), buf_id_len = i,
                 buf_event = Some (replicate e 0), buf_event_len = e\<rparr>,
      rx_buf = Some (replicate r 0), rx_buf_len = r, transport = Some (sse_transport_esp (bd_http b)),
      now_ms = Some (now_ms_esp b), callbacks = example_callbacks b, reconnect_policy = None\<rparr>"

definition example_config :: "'x board \<Rightarrow> bytes \<Rightarrow> 'x esp_sys sse_client_config" where
  "example_config b u = config_with 8192 128 64 1024 b u"

lemma config_with_env:
  assumes "2 \<le> d" "2 \<le> i" "i \<le> SSE_CLIENT_ID_MAX + 1" "2 \<le> e" "0 < r"
  shows "client_env (sse_transport_esp (bd_http b)) esp_T (config_with d i e r b u)"
proof
  show "callbacks_ok esp_T (config_with d i e r b u)"
    by (simp add: callbacks_ok_def callback_ok_def callback_at_def config_with_def example_callbacks_def
        example_on_message_def log_to_def esp_T_def)
qed (use assms in \<open>auto simp: config_with_def client_config_valid_def sse_transport_esp_def
      SSE_CLIENT_MAX_HEADERS_def memory_ok_def buffers_ok_def now_ms_esp_def esp_T_def split_beta\<close>)

interpretation esp_example: client_env "sse_transport_esp (bd_http b)" esp_T "example_config b u" for b u
  unfolding example_config_def by (rule config_with_env) (simp_all add: SSE_CLIENT_ID_MAX_def)

section \<open>The polling task\<close>

text \<open>
  One turn of \<open>sse_task_main\<close>: \<open>None\<close> in the first component ends the loop, otherwise
  the milliseconds to sleep before the next turn.
\<close>

definition task_turn :: "'w sys \<Rightarrow> (nat option \<times> 'w sys) option" where
  "task_turn s =
     (if sse_client_state s = SSE_STATE_CLOSED then Some (None, s)
      else do {
        (h, s) \<leftarrow> sse_client_poll s;
        if h = UINT32_MAX then Some (None, s)
        else Some (Some (if unat h > 250 then 250 else unat h), s)
      })"

text \<open>
  The loop. It runs as long as the client is not closed, so it is a partial
  function: \<open>None\<close> is a run that does not end. \<open>delay\<close> stands for \<open>vTaskDelay\<close>.
\<close>

partial_function (option) sse_task_main :: "(nat \<Rightarrow> 'w sys \<Rightarrow> 'w sys) \<Rightarrow> 'w sys \<Rightarrow> 'w sys option" where
  "sse_task_main delay s = do {
     (sleep, s) \<leftarrow> task_turn s;
     case sleep of
       None \<Rightarrow> Some s
     | Some ms \<Rightarrow> sse_task_main delay (if ms > 0 then delay ms s else s)
   }"

text \<open>
  \<open>create\<close> is \<open>xTaskCreate\<close> with the task's stack depth in words and its priority; it tells
  whether the task was created.
\<close>

definition sse_client_start_task :: "(u32 \<Rightarrow> u32 \<Rightarrow> 'x \<Rightarrow> bool \<times> 'x) \<Rightarrow> u32 \<Rightarrow> u32 \<Rightarrow> u32 \<Rightarrow> 'x \<Rightarrow> i32 \<times> 'x" where
  "sse_client_start_task create word_size stack_bytes priority x =
     (let (ok, x) = create (stack_bytes div word_size) priority x in (if ok then 0 else -1, x))"

end
