(* ===== verification/Esp_Boot.thy ===== *)
theory Esp_Boot
  imports Esp_Example
begin

text \<open>
  How the ESP-IDF programs start: \<open>wifi_event_handler\<close>, \<open>wifi_connect_blocking\<close> and
  \<open>app_main\<close> of \<open>examples/esp32/main/main.c\<close>. The operating system, its drivers and the
  event loop are the parameter \<open>i\<close>; \<open>ESP_ERROR_CHECK\<close> ends the program, which is the
  left summand of a result.
\<close>

section \<open>The operating system\<close>

text \<open>The structs the example programs hand to the drivers of the bus, the panel and the pins.\<close>

record spi_bus_config =
  sclk_io_num :: int
  mosi_io_num :: int
  miso_io_num :: int
  quadwp_io_num :: int
  quadhd_io_num :: int
  max_transfer_sz :: int

record panel_io_spi_config =
  dc_gpio_num :: int
  cs_gpio_num :: int
  pclk_hz :: u32
  lcd_cmd_bits :: int
  lcd_param_bits :: int
  spi_mode :: int
  trans_queue_depth :: nat

datatype lcd_rgb_order = LCD_RGB_ELEMENT_ORDER_RGB | LCD_RGB_ELEMENT_ORDER_BGR

record panel_dev_config =
  reset_gpio_num :: int
  rgb_ele_order :: lcd_rgb_order
  bits_per_pixel :: nat

text \<open>
  The calls of the start-up code that can fail, or whose result is ignored, each with the
  arguments the code chooses. \<open>WifiSetConfig\<close> carries the two arrays of \<open>wifi_config_t\<close>.
\<close>

datatype idf_call =
  NvsFlashInit | EspNetifInit | EventLoopCreateDefault | NetifCreateDefaultWifiSta | EspWifiInit
| RegisterWifiHandler | RegisterGotIpHandler | WifiSetModeSta | WifiSetConfig bytes bytes | EspWifiStart
| EspWifiConnect | LogWifiConnected
| SpiBusInitialize spi_bus_config | NewPanelIoSpi panel_io_spi_config
| NewPanelSt7789 panel_dev_config | PanelReset | PanelInit | PanelInvertColor bool | PanelSwapXy bool | PanelMirror bool bool
| PanelSetGap int int | PanelDispOnOff bool | GpioConfigOutput u64 | GpioSetLevel int u32
| PanelDrawBitmap int int int int "16 word list"

text \<open>An event base with an event id, as far as the handler tells them apart.\<close>

datatype esp_event =
  WIFI_EVENT_STA_START | WIFI_EVENT_STA_DISCONNECTED | IP_EVENT_STA_GOT_IP | OTHER_EVENT

text \<open>
  \<open>idf_do\<close> is a call and its \<open>esp_err_t\<close>; \<open>idf_group\<close> tells whether \<open>xEventGroupCreate\<close>
  found memory, \<open>idf_alloc\<close> the same of the two allocations of the transport, \<open>idf_create\<close>
  of \<open>xTaskCreate\<close>; \<open>idf_event\<close> is the next event the default event loop dispatches.
\<close>

record 'x idf =
  idf_do :: "idf_call \<Rightarrow> 'x \<Rightarrow> i32 \<times> 'x"
  idf_group :: "'x \<Rightarrow> bool \<times> 'x"
  idf_event :: "'x \<Rightarrow> esp_event \<times> 'x"
  idf_alloc :: "'x \<Rightarrow> (bool \<times> bool) \<times> 'x"
  idf_create :: "u32 \<Rightarrow> u32 \<Rightarrow> 'x \<Rightarrow> bool \<times> 'x"
  idf_word :: u32

text \<open>
  The board while it starts: its hardware and software, the static \<open>wifi_events\<close> (NULL, or
  the bits of the group) and, for the statements below, the calls made so far.
\<close>

record 'x boot =
  bt_hw :: 'x
  wifi_events :: "u32 option"
  bt_calls :: "idf_call list"

text \<open>What a part of the start-up yields: the error code of an abort, or that it goes on.\<close>

type_synonym 's outcome = "(i32 \<times> 's) + 's"

definition ESP_FAIL :: i32 where "ESP_FAIL = -1"
definition WIFI_CONNECTED_BIT :: u32 where "WIFI_CONNECTED_BIT = 1"

definition idf_invoke :: "'x idf \<Rightarrow> idf_call \<Rightarrow> 'x boot \<Rightarrow> i32 \<times> 'x boot" where
  "idf_invoke i c s = (let (r, x) = idf_do i c (bt_hw s) in (r, s\<lparr>bt_hw := x, bt_calls := bt_calls s @ [c]\<rparr>))"

text \<open>A straight line of calls: \<open>Check c\<close> is \<open>ESP_ERROR_CHECK(c)\<close>, \<open>Call c\<close> ignores the result.\<close>

datatype boot_step = Check idf_call | Call idf_call

fun step_call :: "boot_step \<Rightarrow> idf_call" where
  "step_call (Check c) = c" | "step_call (Call c) = c"

fun run_steps :: "'x idf \<Rightarrow> boot_step list \<Rightarrow> 'x boot \<Rightarrow> 'x boot outcome" where
  "run_steps i [] s = Inr s"
| "run_steps i (Check c # cs) s =
     (let (r, s) = idf_invoke i c s in if r = ESP_OK then run_steps i cs s else Inl (r, s))"
| "run_steps i (Call c # cs) s = run_steps i cs (snd (idf_invoke i c s))"

text \<open>Going on after a part that neither aborted nor went wrong.\<close>

definition and_then :: "('e + 'a) option \<Rightarrow> ('a \<Rightarrow> ('e + 'b) option) \<Rightarrow> ('e + 'b) option" where
  "and_then m f = do { r \<leftarrow> m; case r of Inl e \<Rightarrow> Some (Inl e) | Inr x \<Rightarrow> f x }"

section \<open>Joining the network\<close>

text \<open>\<open>xEventGroupSetBits\<close> on a group that was not created is undefined.\<close>

definition set_bits :: "u32 \<Rightarrow> 'x boot \<Rightarrow> 'x boot option" where
  "set_bits v s = (case wifi_events s of None \<Rightarrow> None | Some m \<Rightarrow> Some (s\<lparr>wifi_events := Some (m OR v)\<rparr>))"

definition wifi_event_handler :: "'x idf \<Rightarrow> esp_event \<Rightarrow> 'x boot \<Rightarrow> 'x boot option" where
  "wifi_event_handler i e s =
     (if e = WIFI_EVENT_STA_START then Some (snd (idf_invoke i EspWifiConnect s))
      else if e = WIFI_EVENT_STA_DISCONNECTED then Some (snd (idf_invoke i EspWifiConnect s))
      else if e = IP_EVENT_STA_GOT_IP then set_bits WIFI_CONNECTED_BIT s
      else Some s)"

text \<open>The event loop dispatches one event.\<close>

definition loop_dispatch :: "'x idf \<Rightarrow> 'x boot \<Rightarrow> 'x boot option" where
  "loop_dispatch i s = (let (e, x) = idf_event i (bt_hw s) in wifi_event_handler i e (s\<lparr>bt_hw := x\<rparr>))"

text \<open>
  \<open>xEventGroupWaitBits\<close> without a limit: events are dispatched on the event loop's task
  until the bit is set. \<open>None\<close> is a wait that never ends, or a group that does not exist. The
  handler touches nothing the start-up code reads before it waits, so that all events are
  dispatched here.
\<close>

partial_function (option) wait_bits :: "'x idf \<Rightarrow> 'x boot \<Rightarrow> 'x boot option" where
  "wait_bits i s = (case wifi_events s of
      None \<Rightarrow> None
    | Some m \<Rightarrow> if m AND WIFI_CONNECTED_BIT \<noteq> 0 then Some s else do { s \<leftarrow> loop_dispatch i s; wait_bits i s })"

text \<open>\<open>strncpy(dst, src, n)\<close>, the string \<open>src\<close> given without its NUL.\<close>

definition strncpy :: "bytes \<Rightarrow> bytes \<Rightarrow> nat \<Rightarrow> bytes option" where
  "strncpy dst src n =
     (if n \<le> length dst then Some (take n src @ replicate (n - length src) 0 @ drop n dst) else None)"

definition wifi_steps :: "bytes \<Rightarrow> bytes \<Rightarrow> boot_step list" where
  "wifi_steps ssid password =
     [Check EspNetifInit, Check EventLoopCreateDefault, Call NetifCreateDefaultWifiSta, Check EspWifiInit,
      Check RegisterWifiHandler, Check RegisterGotIpHandler, Check WifiSetModeSta,
      Check (WifiSetConfig ssid password), Check EspWifiStart]"

text \<open>
  \<open>wifi_connect_blocking\<close> up to its log line. \<open>n\<close> and \<open>k\<close> are the sizes of the two arrays of
  \<open>wifi_config_t\<close>, \<open>ssid\<close> and \<open>password\<close> the configured strings.
\<close>

definition wifi_join :: "'x idf \<Rightarrow> nat \<Rightarrow> nat \<Rightarrow> bytes \<Rightarrow> bytes \<Rightarrow> 'x boot \<Rightarrow> 'x boot outcome option" where
  "wifi_join i n k ssid password s = do {
     let (ok, x) = idf_group i (bt_hw s);
     let s = s\<lparr>bt_hw := x, wifi_events := (if ok then Some 0 else None)\<rparr>;
     sc \<leftarrow> strncpy (replicate n 0) ssid (n - 1);
     pc \<leftarrow> strncpy (replicate k 0) password (k - 1);
     and_then (Some (run_steps i (wifi_steps sc pc) s)) (\<lambda>s. map_option Inr (wait_bits i s))
   }"

definition wifi_connect_blocking :: "'x idf \<Rightarrow> nat \<Rightarrow> nat \<Rightarrow> bytes \<Rightarrow> bytes \<Rightarrow> 'x boot \<Rightarrow> 'x boot outcome option" where
  "wifi_connect_blocking i n k ssid password s =
     and_then (wifi_join i n k ssid password s) (\<lambda>s. Some (run_steps i [Call LogWifiConnected] s))"

section \<open>Starting the client\<close>

text \<open>
  The end of \<open>app_main\<close>, on a world \<open>y\<close>: the transport, the client on the configuration
  \<open>g\<close> and its task. \<open>alloc\<close> stands for the transport's allocations, \<open>create\<close> for
  \<open>xTaskCreate\<close> and \<open>c0\<close> for the static client. The result is what the task then runs on.
\<close>

definition start_client ::
  "('y \<Rightarrow> (bool \<times> bool) \<times> 'y) \<Rightarrow> (u32 \<Rightarrow> u32 \<Rightarrow> 'y \<Rightarrow> bool \<times> 'y) \<Rightarrow> u32 \<Rightarrow> 'y http_api \<Rightarrow>
   'y esp_sys sse_client_config \<Rightarrow> 'y esp_sys sse_client \<Rightarrow> 'y \<Rightarrow> ((i32 \<times> 'y) + 'y esp_sys sys) option" where
  "start_client alloc create word api g c0 y = do {
     let ((got_tr, got_ctx), y) = alloc y;
     let made = sse_transport_esp_http_client got_tr got_ctx api;
     let w = \<lparr>ectx = (case made of Some (t, ctx) \<Rightarrow> ctx | None \<Rightarrow> new_esp_ctx), elib = y\<rparr>;
     (r, c, w) \<leftarrow> sse_client_init (Some c0) (Some (g\<lparr>transport := map_option fst made\<rparr>)) w;
     if r \<noteq> 0 then Some (Inl (ESP_FAIL, elib w))
     else do {
       c \<leftarrow> c;
       let (r, y) = sse_client_start_task create word 6144 5 (elib w);
       if r \<noteq> 0 then Some (Inl (ESP_FAIL, y)) else Some (Inr (started c (w\<lparr>elib := y\<rparr>)))
     }
   }"

definition boot_alloc :: "'x idf \<Rightarrow> 'x boot \<Rightarrow> (bool \<times> bool) \<times> 'x boot" where
  "boot_alloc i s = (let (a, x) = idf_alloc i (bt_hw s) in (a, s\<lparr>bt_hw := x\<rparr>))"

definition boot_create :: "'x idf \<Rightarrow> u32 \<Rightarrow> u32 \<Rightarrow> 'x boot \<Rightarrow> bool \<times> 'x boot" where
  "boot_create i depth priority s = (let (ok, x) = idf_create i depth priority (bt_hw s) in (ok, s\<lparr>bt_hw := x\<rparr>))"

text \<open>
  A library on a part \<open>'x\<close> of the world \<open>'w\<close>, which \<open>get\<close> reads and \<open>put\<close> writes, seen as a
  library on \<open>'w\<close>: what it is asked and answers is the same.
\<close>

definition on_part :: "('w \<Rightarrow> 'x) \<Rightarrow> ('x \<Rightarrow> 'w \<Rightarrow> 'w) \<Rightarrow> ('x \<Rightarrow> 'r \<times> 'x) \<Rightarrow> 'w \<Rightarrow> 'r \<times> 'w" where
  "on_part get put f w = (let (r, x) = f (get w) in (r, put x w))"

definition lift_http :: "('w \<Rightarrow> 'x) \<Rightarrow> ('x \<Rightarrow> 'w \<Rightarrow> 'w) \<Rightarrow> 'x http_api \<Rightarrow> 'w http_api" where
  "lift_http get put a =
     \<lparr>http_init = (\<lambda>w u. on_part get put (\<lambda>x. http_init a x u) w),
      http_set_header = (\<lambda>w n v. put (http_set_header a (get w) n v) w),
      http_open = (\<lambda>w. let (r, evs, x) = http_open a (get w) in (r, evs, put x w)),
      http_fetch_headers = (\<lambda>w. let (r, evs, x) = http_fetch_headers a (get w) in (r, evs, put x w)),
      http_status = (\<lambda>w. http_status a (get w)),
      http_set_redirection = (\<lambda>w. on_part get put (http_set_redirection a) w),
      http_close = (\<lambda>w. put (http_close a (get w)) w),
      http_cleanup = (\<lambda>w. put (http_cleanup a (get w)) w),
      http_set_timeout = (\<lambda>w ms. put (http_set_timeout a (get w) ms) w),
      http_read = (\<lambda>w n. let (r, d, e, evs, st, x) = http_read a (get w) n in (r, d, e, evs, st, put x w)),
      http_complete = (\<lambda>w. http_complete a (get w))\<rparr>"

definition put_hw :: "'x \<Rightarrow> 'x boot \<Rightarrow> 'x boot" where
  "put_hw x s = s\<lparr>bt_hw := x\<rparr>"

definition boot_board :: "'x board \<Rightarrow> 'x boot board" where
  "boot_board b =
     \<lparr>bd_http = lift_http bt_hw put_hw (bd_http b), bd_time = on_part bt_hw put_hw (bd_time b),
      bd_log = (\<lambda>l s. put_hw (bd_log b l (bt_hw s)) s)\<rparr>"

definition app_main ::
  "'x idf \<Rightarrow> 'x board \<Rightarrow> nat \<Rightarrow> nat \<Rightarrow> bytes \<Rightarrow> bytes \<Rightarrow> bytes \<Rightarrow> 'x boot esp_sys sse_client \<Rightarrow> 'x boot \<Rightarrow>
   ((i32 \<times> 'x boot) + 'x boot esp_sys sys) option" where
  "app_main i b n k ssid password u c0 s =
     and_then (Some (run_steps i [Check NvsFlashInit] s)) (\<lambda>s.
     and_then (wifi_connect_blocking i n k ssid password s) (\<lambda>s.
     start_client (boot_alloc i) (boot_create i) (idf_word i) (bd_http (boot_board b))
       (example_config (boot_board b) u) c0 s))"

end
