(* ===== verification/Esp_Origin.thy ===== *)
theory Esp_Origin
  imports Esp_Transport_Safety Sse_Spec
begin

text \<open>
  What the ESP-IDF transport's URL code computes: the origin of a well-formed URL,
  and that the redirect loop stays on the origin of the requested URL and is bounded.
\<close>

section \<open>Parsing a well-formed URL\<close>

definition plain_host :: "bytes \<Rightarrow> bool" where
  "plain_host h \<longleftrightarrow> h \<noteq> [] \<and> hd h \<noteq> LBRACKET \<and> set h \<inter> {SLASH, QUERY, HASH, AT, COLON} = {}"

lemma strstr_skip:
  assumes "COLON \<notin> set s"
  shows "strstr (s @ bytes_of ''://'' @ rest) (bytes_of ''://'') = Some (length s)"
proof -
  have w: "bytes_of ''://'' = [COLON, SLASH, SLASH]" by (simp add: bytes_of_def COLON_def SLASH_def)
  show ?thesis using assms unfolding w by (induction s) auto
qed

lemma scan_authority_stop:
  "rest = [] \<or> hd rest \<in> {SLASH, QUERY, HASH} \<Longrightarrow> scan_authority rest i p = (i, p)"
  by (cases rest) auto

lemma scan_authority_run:
  assumes "set a \<inter> {SLASH, QUERY, HASH} = {}" and "rest = [] \<or> hd rest \<in> {SLASH, QUERY, HASH}"
  shows "scan_authority (a @ rest) i p = (i + length a, snd (scan_authority a i p))"
  using assms(1)
proof (induction a arbitrary: i p)
  case Nil
  then show ?case using scan_authority_stop [OF assms(2)] by simp
qed auto

lemma scan_no_at: "set a \<inter> {SLASH, QUERY, HASH, AT} = {} \<Longrightarrow> snd (scan_authority a i p) = p"
  by (induction a arbitrary: i p) auto

lemma scan_last_at:
  assumes "set ui \<inter> {SLASH, QUERY, HASH} = {}" and "set h \<inter> {SLASH, QUERY, HASH, AT} = {}"
  shows "snd (scan_authority (ui @ AT # h) i p) = Some (i + length ui)"
  using assms(1)
proof (induction ui arbitrary: i p)
  case Nil
  have "AT \<notin> {SLASH, QUERY, HASH}" by (simp add: AT_def SLASH_def QUERY_def HASH_def)
  then show ?case using scan_no_at [OF assms(2)] by simp
qed auto

lemma memchr_none: "c \<notin> set s \<Longrightarrow> memchr s c = None"
  by (induction s) auto

lemma memchr_first: "c \<notin> set s \<Longrightarrow> memchr (s @ c # t) c = Some (length s)"
  by (induction s) auto

lemma split_plain_host:
  "plain_host h \<Longrightarrow> split_host h = Some (h, None)"
  "plain_host h \<Longrightarrow> split_host (h @ COLON # p) = Some (h, Some p)"
  by (auto simp: plain_host_def split_host_def memchr_none memchr_first)

lemma parse_port_digits:
  "list_all is_digit ds \<Longrightarrow> p \<le> 65535 \<Longrightarrow> foldl (\<lambda>n b. 10 * n + (unat b - 48)) p ds \<le> 65535 \<Longrightarrow>
   parse_port ds p = Some (foldl (\<lambda>n b. 10 * n + (unat b - 48)) p ds)"
proof (induction ds arbitrary: p)
  case (Cons q qs)
  have grow: "n \<le> foldl (\<lambda>n b. 10 * n + (unat b - 48)) n ds" for n and ds :: bytes
  proof (induction ds arbitrary: n)
    case (Cons d ds)
    from Cons [of "10 * n + (unat d - 48)"] show ?case by simp
  qed simp
  have q: "48 \<le> q" "q \<le> 57" using Cons.prems(1) by (simp_all add: is_digit_def)
  then have "unat (q - 48) = unat q - 48" by (simp add: unat_sub)
  then show ?case
    using Cons q grow [of "10 * p + (unat q - 48)" qs] by (simp add: not_less Let_def mult.commute)
qed simp

definition url_of :: "bytes \<Rightarrow> bytes option \<Rightarrow> bytes \<Rightarrow> bytes option \<Rightarrow> bytes \<Rightarrow> bytes" where
  "url_of scheme user h port rest =
     scheme @ bytes_of ''://'' @ (case user of None \<Rightarrow> [] | Some u \<Rightarrow> u @ [AT]) @ h @
     (case port of None \<Rightarrow> [] | Some p \<Rightarrow> COLON # p) @ rest"

definition wf_scheme :: "nat \<Rightarrow> bytes \<Rightarrow> bool" where
  "wf_scheme cap scheme \<longleftrightarrow> scheme \<noteq> [] \<and> length scheme < cap \<and> COLON \<notin> set scheme"

definition wf_rest :: "bytes \<Rightarrow> bool" where
  "wf_rest rest \<longleftrightarrow> rest = [] \<or> hd rest \<in> {SLASH, QUERY, HASH}"

text \<open>The port a URL names, or the one its scheme implies.\<close>

definition port_of :: "bytes \<Rightarrow> bytes option \<Rightarrow> nat option" where
  "port_of scheme port = (case port of
      Some p \<Rightarrow> if p \<noteq> [] \<and> list_all is_digit p \<and> decimal p \<le> 65535 then Some (decimal p) else None
    | None \<Rightarrow> if map lower scheme = bytes_of ''http'' then Some 80
              else if map lower scheme = bytes_of ''https'' then Some 443 else None)"

lemma digits_no_delims: "list_all is_digit p \<Longrightarrow> set p \<inter> {SLASH, QUERY, HASH, AT, COLON} = {}"
  by (induction p) (auto simp: is_digit_def SLASH_def QUERY_def HASH_def AT_def COLON_def)

lemma authority_scan:
  assumes h: "plain_host h" and u: "\<forall>u. user = Some u \<longrightarrow> set u \<inter> {SLASH, QUERY, HASH} = {}"
    and p: "\<forall>p. port = Some p \<longrightarrow> list_all is_digit p" and rest: "wf_rest rest"
  defines "host_port \<equiv> h @ (case port of None \<Rightarrow> [] | Some p \<Rightarrow> COLON # p)"
  defines "auth \<equiv> (case user of None \<Rightarrow> [] | Some u \<Rightarrow> u @ [AT]) @ host_port"
  shows "(let (stop, at_pos) = scan_authority (auth @ rest) 0 None;
              start = (case at_pos of None \<Rightarrow> 0 | Some i \<Rightarrow> i + 1)
          in drop start (take stop (auth @ rest))) = host_port"
proof -
  have "COLON \<notin> {SLASH, QUERY, HASH, AT}" by (simp add: AT_def SLASH_def QUERY_def HASH_def COLON_def)
  then have hp: "set host_port \<inter> {SLASH, QUERY, HASH, AT} = {}"
    using h p digits_no_delims by (auto simp: host_port_def plain_host_def split: option.split)
  have at: "AT \<notin> {SLASH, QUERY, HASH}" by (simp add: AT_def SLASH_def QUERY_def HASH_def)
  have no: "set auth \<inter> {SLASH, QUERY, HASH} = {}"
    using hp u at unfolding auth_def by (cases user) auto
  have run: "scan_authority (auth @ rest) 0 None = (length auth, snd (scan_authority auth 0 None))"
    using scan_authority_run [OF no] rest by (simp add: wf_rest_def)
  show ?thesis
  proof (cases user)
    case None
    then have "snd (scan_authority auth 0 None) = None" using scan_no_at hp by (simp add: auth_def)
    then show ?thesis using run None by (simp add: auth_def)
  next
    case (Some v)
    then have "set v \<inter> {SLASH, QUERY, HASH} = {}" using u by simp
    from scan_last_at [OF this hp, of 0 None] Some
    have "snd (scan_authority auth 0 None) = Some (length v)" by (simp add: auth_def)
    then show ?thesis using run Some by (simp add: auth_def)
  qed
qed

lemma origin_of_url:
  assumes "wf_scheme sc scheme" and "plain_host h" and "length h < hcap" and "wf_rest rest"
    and "\<forall>u. user = Some u \<longrightarrow> set u \<inter> {SLASH, QUERY, HASH} = {}"
    and "port_of scheme port = Some n"
  shows "origin_of (url_of scheme user h port rest) sc hcap = Some (map lower scheme, map lower h, n)"
proof -
  have digits: "\<forall>p. port = Some p \<longrightarrow> list_all is_digit p"
    using assms(6) by (auto simp: port_of_def split: if_splits)
  have sep: "strstr (url_of scheme user h port rest) (bytes_of ''://'') = Some (length scheme)"
    using assms(1) strstr_skip by (simp add: url_of_def wf_scheme_def)
  have len3: "length (bytes_of ''://'') = 3" by (simp add: bytes_of_def)
  have after: "drop (length scheme + 3) (url_of scheme user h port rest) =
      ((case user of None \<Rightarrow> [] | Some u \<Rightarrow> u @ [AT]) @ h @ (case port of None \<Rightarrow> [] | Some p \<Rightarrow> COLON # p)) @ rest"
    by (simp add: url_of_def len3)
  note auth = authority_scan [OF assms(2,5) digits assms(4)]
  have host: "split_host (h @ (case port of None \<Rightarrow> [] | Some p \<Rightarrow> COLON # p)) = Some (h, port)"
    using split_plain_host [OF assms(2)] by (cases port) simp_all
  have "resolve_port (map lower scheme) port = Some n"
    using assms(6) parse_port_digits [of _ 0]
    by (auto simp: port_of_def resolve_port_def decimal_def split: option.splits if_splits)
  moreover have "h \<noteq> []" using assms(2) by (simp add: plain_host_def)
  moreover have "take (length scheme) (url_of scheme user h port rest) = scheme" by (simp add: url_of_def)
  ultimately show ?thesis
    using assms(1,3) sep after auth host
    by (simp add: origin_of_def Let_def split_beta wf_scheme_def)
qed

section \<open>Redirects\<close>

lemma same_origin_iff:
  "same_origin_urls a b \<longleftrightarrow> origin_of a 8 256 \<noteq> None \<and> origin_of a 8 256 = origin_of b 8 256"
  by (auto simp: same_origin_urls_def split: option.splits)

lemma same_originD: "same_origin_urls a b \<Longrightarrow> origin_of b 8 256 = origin_of a 8 256"
  by (simp add: same_origin_iff)

text \<open>The origin of the request the context remembers.\<close>

definition ctx_origin :: "'x esp_sys \<Rightarrow> (bytes \<times> bytes \<times> nat) option" where
  "ctx_origin w = origin_of (c_string (ec_url (ectx w))) 8 256"

lemma on_http_event_url: "on_http_event e t = Some t' \<Longrightarrow> ec_url t' = ec_url t"
  by (cases e) (auto simp: on_http_event_def split: if_splits bind_splits)

lemma on_events_url:
  assumes "on_events evs w = Some w'"
  shows "ctx_origin w' = ctx_origin w"
proof -
  have "foldM on_http_event evs t = Some t' \<Longrightarrow> ec_url t' = ec_url t" for t t'
    by (induction evs arbitrary: t) (auto dest: on_http_event_url split: bind_splits)
  then show ?thesis using assms by (auto simp: on_events_def ctx_origin_def split: bind_splits)
qed

lemma esp_request_url:
  assumes "esp_request api w = Some (st, w')"
  shows "ctx_origin w' = ctx_origin w"
proof -
  have td: "ctx_origin (esp_teardown api u) = ctx_origin u" for u by (simp add: ctx_origin_def esp_teardown_def)
  have lib: "ctx_origin (u\<lparr>elib := x\<rparr>) = ctx_origin u" for u :: "'a esp_sys" and x by (simp add: ctx_origin_def)
  show ?thesis
    using assms unfolding esp_request_def
    by (auto simp: td Let_def lib dest!: on_events_url split: prod.splits if_splits bind_splits)
qed

text \<open>
  A redirect is followed only to an absolute path on the same server or to a URL
  whose origin is that of the current request, which it then replaces.
\<close>

definition allowed_redirect :: "bytes \<Rightarrow> bytes \<Rightarrow> bool" where
  "allowed_redirect cur loc \<longleftrightarrow>
     (loc \<noteq> [] \<and> hd loc = SLASH \<and> (tl loc = [] \<or> hd (tl loc) \<noteq> SLASH)) \<or> same_origin_urls cur loc"

lemma redirect_url_same_origin:
  assumes "redirect_url t = Some (Some t')" and "ctx_ok t"
  shows "allowed_redirect (c_string (ec_url t)) (c_string (ec_location t)) \<and>
    origin_of (c_string (ec_url t')) 8 256 = origin_of (c_string (ec_url t)) 8 256"
proof -
  let ?loc = "c_string (ec_location t)" and ?cur = "c_string (ec_url t)"
  have strs: "c_str (ec_location t) = Some ?loc" "c_str (ec_url t) = Some ?cur"
    using assms(2) by (simp_all add: ctx_ok_def c_str_def c_string_def)
  have "length ?loc \<le> length (ec_location t)" by (simp add: c_string_def length_takeWhile_le)
  moreover have "?loc \<noteq> ec_location t"
    using assms(2) by (auto simp: ctx_ok_def c_string_def takeWhile_eq_all_conv)
  ultimately have len: "length ?loc < 512"
    using assms(2) by (metis c_string_def ctx_ok_def le_neq_implies_less takeWhile_eq_take take_all_iff)
  have no0: "0 \<notin> set ?loc" unfolding c_string_def by (auto dest: set_takeWhileD)
  have "0 \<notin> set ys \<Longrightarrow> c_string (ys @ 0 # xs) = ys" for xs ys
    by (induction ys) (auto simp: c_string_def)
  from this [OF no0] have "c_string (?loc @ 0 # xs) = ?loc" for xs .
  then show ?thesis
    using assms(1) strs len
    by (auto simp: redirect_url_def allowed_redirect_def snprintf_to_def Let_def
        dest: same_originD split: if_splits bind_splits)
qed

lemma esp_follow_origin:
  assumes "esp_follow api w = Some (go, w')" and "ctx_ok (ectx w)"
  shows "ctx_origin w' = ctx_origin w \<and>
    (go \<longrightarrow> allowed_redirect (c_string (ec_url (ectx w))) (c_string (ec_location (ectx w))))"
proof -
  have clear: "clear_captured t = Some t' \<Longrightarrow> ec_url t' = ec_url t" for t t'
    by (auto simp: clear_captured_def split: bind_splits)
  show ?thesis
    using assms(1) redirect_url_same_origin [OF _ assms(2)]
    by (auto simp: esp_follow_def ctx_origin_def Let_def dest!: clear split: bind_splits option.splits if_splits prod.splits)
qed

lemma esp_hops_origin:
  "esp_T True w \<Longrightarrow> esp_hops api hop w = Some (st, w') \<Longrightarrow> ctx_origin w' = ctx_origin w"
proof (induction api hop w rule: esp_hops.induct)
  case (1 api hop w)
  obtain st1 u where req: "esp_request api w = Some (st1, u)" "esp_T (st1 \<noteq> None) u"
    using esp_request_ok [OF 1(2), of api] by (auto simp: returns_iff)
  have same: "ctx_origin u = ctx_origin w" using esp_request_url [OF req(1)] .
  show ?case
  proof (cases "\<exists>s. st1 = Some s \<and> is_redirect s \<and> hop < ESP_MAX_REDIRECT_HOPS")
    case False
    then show ?thesis using 1(3) req same by (subst (asm) esp_hops.simps) (auto split: option.splits if_splits)
  next
    case True
    then obtain s where s: "st1 = Some s" "is_redirect s" "hop < ESP_MAX_REDIRECT_HOPS" by blast
    then have Tu: "esp_T True u" using req(2) by simp
    from esp_follow_ok [OF this, of api] obtain go v where v: "esp_follow api u = Some (go, v)" "esp_T True v"
      by (auto simp: returns_iff)
    have "ctx_origin v = ctx_origin u" using esp_follow_origin [OF v(1)] Tu by (simp add: esp_T_def)
    moreover have "ctx_origin w' = ctx_origin v" if "go"
      using 1(3) that s req(1) v by (intro 1(1) [OF req(1) _ s(1) _ v(1)]) (auto simp: esp_hops.simps [of api hop w])
    ultimately show ?thesis
      using 1(3) req(1) s v same by (subst (asm) esp_hops.simps) (auto split: if_splits)
  qed
qed

text \<open>
  The number of requests. \<open>f\<close> is any quantity of the library's state, say a request
  counter, that only \<open>http_open\<close> can raise, by one.
\<close>

definition counts_opens :: "'x http_api \<Rightarrow> ('x \<Rightarrow> nat) \<Rightarrow> bool" where
  "counts_opens api f \<longleftrightarrow> (\<forall>x.
     f (snd (snd (http_open api x))) \<le> f x + 1 \<and> f (snd (snd (http_fetch_headers api x))) \<le> f x \<and>
     f (snd (http_set_redirection api x)) \<le> f x \<and> f (http_close api x) \<le> f x \<and> f (http_cleanup api x) \<le> f x)"

lemma on_events_lib: "on_events evs w = Some w' \<Longrightarrow> elib w' = elib w"
  by (auto simp: on_events_def split: bind_splits)

lemma esp_request_count:
  assumes "counts_opens api f" and "esp_request api w = Some (st, w')"
  shows "f (elib w') \<le> f (elib w) + 1"
proof -
  have td: "f (elib (esp_teardown api u)) \<le> f (elib u)" for u
    using assms(1) by (auto simp: esp_teardown_def counts_opens_def intro: le_trans)
  have o: "f (snd (snd (http_open api x))) \<le> f x + 1" "f (snd (snd (http_fetch_headers api x))) \<le> f x" for x
    using assms(1) by (simp_all add: counts_opens_def)
  show ?thesis
    using assms(2) o [of "elib w"] o(2) [of "snd (snd (http_open api (elib w)))"] td
    unfolding esp_request_def
    by (fastforce simp: Let_def split: prod.splits if_splits bind_splits dest!: on_events_lib intro: le_trans)
qed

lemma esp_follow_count:
  assumes "counts_opens api f" and "esp_follow api w = Some (go, w')"
  shows "f (elib w') \<le> f (elib w)"
proof -
  have o: "f (snd (http_set_redirection api x)) \<le> f x" "f (http_close api x) \<le> f x" for x
    using assms(1) by (simp_all add: counts_opens_def)
  show ?thesis
    using assms(2) o(1) [of "elib w"] o(2) [of "snd (http_set_redirection api (elib w))"]
    by (auto simp: esp_follow_def Let_def split: bind_splits option.splits if_splits prod.splits)
qed

lemma esp_hops_count:
  assumes "counts_opens api f"
  shows "hop \<le> ESP_MAX_REDIRECT_HOPS \<Longrightarrow> esp_hops api hop w = Some (st, w') \<Longrightarrow>
    f (elib w') \<le> f (elib w) + (ESP_MAX_REDIRECT_HOPS + 1 - hop)"
  using assms
proof (induction api hop w rule: esp_hops.induct)
  case (1 api hop w)
  obtain st1 u where req: "esp_request api w = Some (st1, u)"
    using 1(3) by (subst (asm) esp_hops.simps) (auto split: bind_splits)
  have c: "f (elib u) \<le> f (elib w) + 1" using esp_request_count [OF 1(4) req] .
  show ?case
  proof (cases "\<exists>s. st1 = Some s \<and> is_redirect s \<and> hop < ESP_MAX_REDIRECT_HOPS")
    case False
    then show ?thesis
      using 1(2,3) req c by (subst (asm) esp_hops.simps) (auto split: option.splits if_splits)
  next
    case True
    then obtain s where s: "st1 = Some s" "is_redirect s" "hop < ESP_MAX_REDIRECT_HOPS" by blast
    obtain go v where v: "esp_follow api u = Some (go, v)"
      using 1(3) req s by (subst (asm) esp_hops.simps) (auto split: bind_splits)
    have fv: "f (elib v) \<le> f (elib u)" using esp_follow_count [OF 1(4) v] .
    have "f (elib w') \<le> f (elib v) + (ESP_MAX_REDIRECT_HOPS + 1 - (hop + 1))" if "go"
      using 1(3,4) that s req v
      by (intro 1(1) [OF req _ s(1) _ v]) (auto simp: esp_hops.simps [of api hop w])
    then show ?thesis
      using 1(3) req s v c fv by (subst (asm) esp_hops.simps) (auto split: if_splits)
  qed
qed

end
