(* ===== verification/Esp_Properties.thy ===== *)
theory Esp_Properties
  imports Esp_Origin Esp_Example Sse_Client_Properties
begin

text \<open>
  The properties of the ESP-IDF port: its transport honours the client's contract with
  any HTTP client library, its redirects are bounded and stay on one origin as long as
  the \<open>Location\<close> fits the context, and the polling task of the example program.
\<close>

section \<open>A library for the examples\<close>

text \<open>It answers every request with a redirect and counts the requests; a read times out.\<close>

definition loop_api :: "nat http_api" where
  "loop_api =
     \<lparr>http_init = (\<lambda>x u. (True, x)), http_set_header = (\<lambda>x k v. x), http_open = (\<lambda>x. (ESP_OK, [], x + 1)),
      http_fetch_headers = (\<lambda>x. (0, [(bytes_of ''Location'', bytes_of ''/again'')], x)), http_status = (\<lambda>x. 302),
      http_set_redirection = (\<lambda>x. (ESP_OK, x)), http_close = (\<lambda>x. x), http_cleanup = (\<lambda>x. x),
      http_set_timeout = (\<lambda>x n. x), http_read = (\<lambda>x n. (- ESP_ERR_HTTP_EAGAIN, [], 0, [], False, x)),
      http_complete = (\<lambda>x. False)\<rparr>"

definition idle_sys :: "nat esp_sys" where
  "idle_sys = \<lparr>ectx = new_esp_ctx, elib = 0\<rparr>"

definition plain_request :: sse_request where
  "plain_request = \<lparr>req_url = bytes_of ''http://h/'', req_headers = [Some (bytes_of ''Accept: text/event-stream''), None]\<rparr>"

lemma idle_sys_ok: "esp_T False idle_sys"
  by (simp add: esp_T_def ctx_ok_def idle_sys_def new_esp_ctx_def)

lemma fresh_info_wf: "info_wf fresh_info"
  by (simp add: info_wf_def fresh_info_def)

lemma plain_headers: "null_terminated (req_headers plain_request) [bytes_of ''Accept: text/event-stream'']"
  by (simp add: null_terminated_def plain_request_def)

section \<open>The contract\<close>



section \<open>Origins\<close>


lemma small_parts:
  "wf_scheme 8 (bytes_of ''HTTP'')" "wf_scheme 8 (bytes_of ''http'')" "plain_host (bytes_of ''h'')" "plain_host (bytes_of ''e'')"
  "length (bytes_of ''h'') < 256" "length (bytes_of ''e'') < 256" "wf_rest []" "wf_rest [SLASH]"
  "port_of (bytes_of ''HTTP'') None = Some 80" "port_of (bytes_of ''http'') (Some (bytes_of ''080'')) = Some 80"
  by (simp_all add: wf_scheme_def plain_host_def wf_rest_def port_of_def decimal_def is_digit_def bytes_of_def lower_def
      SLASH_def QUERY_def HASH_def AT_def COLON_def LBRACKET_def)


section \<open>Redirects\<close>

text \<open>The captured \<open>Location\<close> is that of a header with value \<open>v\<close>.\<close>

definition location_is :: "bytes \<Rightarrow> esp_ctx \<Rightarrow> bool" where
  "location_is v t \<longleftrightarrow> (\<exists>t0. ctx_ok t0 \<and> on_http_event (bytes_of ''Location'', v) t0 = Some t)"

lemma location_captured:
  assumes "location_is v t" and "0 \<notin> set v"
  shows "ctx_ok t" "c_str (ec_location t) = Some (take 511 v)"
proof -
  obtain t0 where t0: "ctx_ok t0" "on_http_event (bytes_of ''Location'', v) t0 = Some t"
    using assms(1) by (auto simp: location_is_def)
  have key: "strcasecmp_eq (bytes_of ''Location'') (bytes_of ''location'')"
    "\<not> strcasecmp_eq (bytes_of ''Location'') (bytes_of ''content-type'')"
    by code_simp+
  have t: "t = t0\<lparr>ec_location := take 511 v @ 0 # drop (length (take 511 v) + 1) (ec_location t0)\<rparr>"
    using t0 key by (simp add: on_http_event_def snprintf_to_def ctx_ok_def Let_def)
  show "ctx_ok t" using on_http_event_ok [OF t0(1)] t0(2) by (metis returns_Some)
  have "0 \<notin> set (take 511 v)" using assms(2) by (auto dest: in_set_takeD)
  then show "c_str (ec_location t) = Some (take 511 v)" by (simp add: t)
qed

text \<open>A redirect is followed only on the current origin: if the captured Location fits the context (511 bytes), the loop goes on only for an absolute path or a URL with the scheme, host and port of the current request, and it remembers a URL of that same origin.\<close>

theorem redirect_stays_on_origin:
  assumes "esp_follow api w = Some (True, w')" and "location_is v (ectx w)" and "0 \<notin> set v" and "length v < 512"
  shows "allowed_redirect (c_string (ec_url (ectx w))) v \<and> ctx_origin w' = ctx_origin w"
proof -
  note loc = location_captured [OF assms(2,3)]
  have "c_string (ec_location (ectx w)) = v"
    using loc assms(4) by (simp add: c_str_def c_string_def split: if_splits)
  then show ?thesis using esp_follow_origin [OF assms(1) loc(1)] by simp
qed

lemma loop_follow:
  "\<exists>w'. esp_follow loop_api (idle_sys\<lparr>ectx := (ectx idle_sys)\<lparr>ec_location := bytes_of ''/again'' @ 0 # replicate 505 0\<rparr>\<rparr>) = Some (True, w')"
proof -
  let ?t = "(ectx idle_sys)\<lparr>ec_location := bytes_of ''/again'' @ 0 # replicate 505 0\<rparr>"
  have "0 \<notin> set (bytes_of ''/again'')" by code_simp
  then have "c_str (ec_location ?t) = Some (bytes_of ''/again'')" by simp
  moreover have "c_str (ec_url ?t) = Some []" by (simp add: idle_sys_def new_esp_ctx_def c_str_def)
  moreover have "bytes_of ''/again'' \<noteq> []" "hd (bytes_of ''/again'') = SLASH" "hd (tl (bytes_of ''/again'')) \<noteq> SLASH"
    by code_simp+
  ultimately have "redirect_url ?t = Some (Some ?t)" by (simp add: redirect_url_def)
  then show ?thesis
    by (auto simp: esp_follow_def loop_api_def clear_captured_def buf_write_def idle_sys_def new_esp_ctx_def)
qed

theorem redirect_stays_on_origin_witness:
  "allowed_redirect [] (bytes_of ''/again'')"
proof -
  let ?w = "idle_sys\<lparr>ectx := (ectx idle_sys)\<lparr>ec_location := bytes_of ''/again'' @ 0 # replicate 505 0\<rparr>\<rparr>"
  obtain w' where f: "esp_follow loop_api ?w = Some (True, w')" using loop_follow by blast
  have key: "strcasecmp_eq (bytes_of ''Location'') (bytes_of ''location'')"
    "\<not> strcasecmp_eq (bytes_of ''Location'') (bytes_of ''content-type'')"
    by code_simp+
  have "take 511 (bytes_of ''/again'') = bytes_of ''/again''" "length (bytes_of ''/again'') = 6" by (simp_all add: bytes_of_def)
  then have "on_http_event (bytes_of ''Location'', bytes_of ''/again'') new_esp_ctx = Some (ectx ?w)"
    using key by (simp add: on_http_event_def snprintf_to_def new_esp_ctx_def idle_sys_def)
  then have "location_is (bytes_of ''/again'') (ectx ?w)"
    using idle_sys_ok by (auto simp: location_is_def esp_T_def idle_sys_def)
  from redirect_stays_on_origin [OF f this] show ?thesis
    by (simp add: bytes_of_def c_string_def idle_sys_def new_esp_ctx_def)
qed



text \<open>C25: One open makes at most six requests, whatever the server answers: any count that only a request can raise, by one, grows by at most ESP_MAX_REDIRECT_HOPS + 1.\<close>

theorem open_bounds_requests:
  assumes "counts_opens api f" and "\<And>x u. f (snd (http_init api x u)) \<le> f x" and "\<And>x k v. f (http_set_header api x k v) \<le> f x"
    and "esp_open_fn api w req i = Some (r, i', w')"
  shows "f (elib w') \<le> f (elib w) + 6"
proof -
  have td: "f (elib (esp_teardown api u)) \<le> f (elib u)" for u
    using assms(1) by (auto simp: esp_teardown_def counts_opens_def intro: le_trans)
  have header: "f (send_header api h x) \<le> f x" for h x
    using assms(3) by (auto simp: send_header_def split: option.split)
  have send: "send_headers api hs x = Some y \<Longrightarrow> f y \<le> f x" for hs x y
  proof (induction hs arbitrary: x)
    case (Cons h hs)
    then show ?case using header by (cases h) (auto intro: le_trans)
  qed simp
  let ?w = "esp_teardown api w"
  obtain t m where t: "clear_captured (ectx ?w) = Some t" "snprintf_to (ec_url t) 512 (req_url req) = Some m"
    using assms(4) by (auto simp: esp_open_fn_def Let_def split: bind_splits)
  obtain ok x where init: "http_init api (elib ?w) (req_url req) = (ok, x)" by fastforce
  have x: "f x \<le> f (elib w)" using assms(2) [of "elib ?w" "req_url req"] td [of w] init by simp
  let ?v = "?w\<lparr>ectx := t\<lparr>ec_url := m, hc := ok\<rparr>, elib := x\<rparr>"
  show ?thesis
  proof (cases ok)
    case False
    then show ?thesis using assms(4) t init x by (auto simp: esp_open_fn_def)
  next
    case True
    obtain y where y: "send_headers api (req_headers req) x = Some y"
      using assms(4) t init True by (auto simp: esp_open_fn_def split: bind_splits)
    obtain st u where u: "esp_hops api 0 (?v\<lparr>elib := y\<rparr>) = Some (st, u)"
      using assms(4) t init True y by (auto simp: esp_open_fn_def split: bind_splits)
    have "f (elib u) \<le> f y + 6"
      using esp_hops_count [OF assms(1) _ u] by (simp add: ESP_MAX_REDIRECT_HOPS_def)
    moreover have "elib w' = elib u"
      using assms(4) t init True y u by (cases st) (auto simp: esp_open_fn_def Let_def split: bind_splits)
    ultimately show ?thesis using x send [OF y] by simp
  qed
qed

theorem open_bounds_requests_witness:
  "\<exists>r i' w'. esp_open_fn loop_api idle_sys plain_request fresh_info = Some (r, i', w') \<and> elib w' \<le> 6"
proof -
  obtain r i' w' where o: "esp_open_fn loop_api idle_sys plain_request fresh_info = Some (r, i', w')"
    using esp_open_ok [OF idle_sys_ok fresh_info_wf plain_headers, of loop_api] by (auto simp: returns_iff)
  have "counts_opens loop_api (\<lambda>x. x)" by (simp add: counts_opens_def loop_api_def)
  from open_bounds_requests [OF this _ _ o] show ?thesis using o by (simp add: loop_api_def idle_sys_def)
qed

text \<open>
  A \<open>Location\<close> longer than the context's 511 bytes: what is compared is a prefix of
  it, what the library follows is all of it.
\<close>

definition padded_port :: bytes where
  "padded_port = replicate 500 48 @ bytes_of ''80''"

definition long_location :: bytes where
  "long_location = bytes_of ''http://h:'' @ padded_port @ bytes_of ''@e/''"

lemma padded_port_facts:
  "list_all is_digit padded_port" "decimal padded_port = 80" "length padded_port = 502" "padded_port \<noteq> []"
  "set padded_port \<subseteq> {48, 56}"
proof -
  have zeros: "foldl (\<lambda>n b. 10 * n + (unat b - 48)) 0 (replicate k (48 :: u8)) = 0" for k
    by (induction k) simp_all
  show "decimal padded_port = 80" by (simp add: padded_port_def decimal_def zeros bytes_of_def)
qed (auto simp: padded_port_def is_digit_def bytes_of_def list_all_iff)

text \<open>C27: The origin check does not cover a Location that is longer than the context's buffer: a URL on another host, whose first 511 bytes look like the current origin with zeros in front of its port, is captured, passes the check and is followed. (The source means to follow same-origin redirects only.)\<close>

theorem long_location_escapes_origin:
  assumes "location_is long_location t" and "c_string (ec_url t) = bytes_of ''http://h/''"
  shows "(\<exists>t'. redirect_url t = Some (Some t')) \<and>
    origin_of long_location 8 256 = Some (bytes_of ''http'', bytes_of ''e'', 80) \<and>
    origin_of (c_string (ec_url t)) 8 256 = Some (bytes_of ''http'', bytes_of ''h'', 80)"
proof -
  have delims: "set padded_port \<inter> {SLASH, QUERY, HASH} = {}"
    using padded_port_facts(5) by (auto simp: SLASH_def QUERY_def HASH_def)
  have low: "map lower (bytes_of ''http'') = bytes_of ''http''" "map lower (bytes_of ''h'') = bytes_of ''h''"
    "map lower (bytes_of ''e'') = bytes_of ''e''"
    by code_simp+
  have port: "port_of (bytes_of ''http'') (Some padded_port) = Some 80" "port_of (bytes_of ''http'') None = Some 80"
    using padded_port_facts(1,2,4) small_parts(9) low(1) by (auto simp: port_of_def bytes_of_def lower_def)
  have short: "take 511 long_location = url_of (bytes_of ''http'') None (bytes_of ''h'') (Some padded_port) []"
    using padded_port_facts(3) by (simp add: long_location_def url_of_def bytes_of_def COLON_def)
  have full: "long_location = url_of (bytes_of ''http'') (Some (bytes_of ''h:'' @ padded_port)) (bytes_of ''e'') None [SLASH]"
    by (simp add: long_location_def url_of_def bytes_of_def AT_def SLASH_def)
  have cur: "bytes_of ''http://h/'' = url_of (bytes_of ''http'') None (bytes_of ''h'') None [SLASH]"
    by (simp add: url_of_def bytes_of_def SLASH_def)
  have o: "origin_of (take 511 long_location) 8 256 = Some (bytes_of ''http'', bytes_of ''h'', 80)"
    "origin_of (bytes_of ''http://h/'') 8 256 = Some (bytes_of ''http'', bytes_of ''h'', 80)"
    unfolding short cur using origin_of_url [OF small_parts(2,3,5)] small_parts(7,8) port low by simp_all
  have user: "set (bytes_of ''h:'' @ padded_port) \<inter> {SLASH, QUERY, HASH} = {}"
    using delims by (simp add: bytes_of_def SLASH_def QUERY_def HASH_def)
  have far: "origin_of long_location 8 256 = Some (bytes_of ''http'', bytes_of ''e'', 80)"
    unfolding full using origin_of_url [OF small_parts(2,4,6,8) _ port(2)] user low by simp
  have no0: "0 \<notin> set long_location" using padded_port_facts(5) by (auto simp: long_location_def bytes_of_def)
  note loc = location_captured [OF assms(1) no0]
  have head: "take 511 long_location = bytes_of ''http://'' @ bytes_of ''h:'' @ padded_port"
    using padded_port_facts(3) by (simp add: long_location_def bytes_of_def)
  have url: "c_str (ec_url t) = Some (bytes_of ''http://h/'')"
    using loc(1) assms(2) by (simp add: ctx_ok_def c_str_def c_string_def)
  have "strncasecmp_prefix (take 511 long_location) (bytes_of ''http://'')" "hd (take 511 long_location) \<noteq> SLASH"
    "take 511 long_location \<noteq> []"
    unfolding head by (simp_all add: strncasecmp_prefix_def bytes_of_def lower_def SLASH_def)
  moreover have "same_origin_urls (bytes_of ''http://h/'') (take 511 long_location)"
    using o by (simp add: same_origin_iff)
  ultimately show ?thesis
    using loc url o(2) far assms(2) by (simp add: redirect_url_def snprintf_to_def ctx_ok_def Let_def)
qed

theorem long_location_escapes_origin_witness:
  "\<exists>t t'. location_is long_location t \<and> redirect_url t = Some (Some t') \<and>
    origin_of long_location 8 256 \<noteq> origin_of (c_string (ec_url t)) 8 256"
proof -
  let ?t0 = "new_esp_ctx\<lparr>ec_url := bytes_of ''http://h/'' @ replicate 503 0\<rparr>"
  have ok: "ctx_ok ?t0" by (simp add: ctx_ok_def new_esp_ctx_def bytes_of_def)
  obtain t where t: "on_http_event (bytes_of ''Location'', long_location) ?t0 = Some t"
    using on_http_event_ok [OF ok, of "(bytes_of ''Location'', long_location)"] by (auto simp: returns_iff)
  have loc: "location_is long_location t" using ok t by (auto simp: location_is_def)
  have "c_string (ec_url t) = bytes_of ''http://h/''"
    unfolding on_http_event_url [OF t] by (simp add: c_string_def bytes_of_def)
  from long_location_escapes_origin [OF loc this] loc show ?thesis
    by (auto simp: bytes_of_def)
qed

end
