(* ===== verification/Esp_Task_Properties.thy ===== *)
theory Esp_Task_Properties
  imports Esp_Properties
begin

text \<open>
  The example program on the ESP-IDF port: its configuration is accepted, its client
  never gets stuck, and its polling task ends exactly with the client closed.
\<close>

section \<open>The task loop\<close>

text \<open>
  \<open>vTaskDelay\<close> only lets time pass: it changes the world as \<open>d\<close> says, not the client,
  and leaves the transport as it is.
\<close>

definition sleep_with :: "(nat \<Rightarrow> 'w \<Rightarrow> 'w) \<Rightarrow> nat \<Rightarrow> 'w sys \<Rightarrow> 'w sys" where
  "sleep_with d ms s = s\<lparr>env := d ms (env s)\<rparr>"

lemma sleep_settled:
  assumes "\<And>ms b w. T b w \<Longrightarrow> T b (d ms w)" and "settled T g s"
  shows "settled T g (sleep_with d ms s)"
  using assms by (auto simp: sleep_with_def settled_def client_inv_def obs_ok_def)

lemma task_turn_ok:
  assumes "client_env t T g" and "settled T g s" and "read_timeout_ms g \<noteq> UINT32_MAX"
  shows "returns (task_turn s) (\<lambda>(n, s'). settled T g s' \<and>
    (case n of None \<Rightarrow> state (cl s') = SSE_STATE_CLOSED | Some ms \<Rightarrow> state (cl s') \<noteq> SSE_STATE_CLOSED \<and> ms \<le> 250))"
proof (cases "state (cl s) = SSE_STATE_CLOSED")
  case True
  then show ?thesis using assms(2) by (simp add: task_turn_def sse_client_state_def)
next
  case False
  obtain h s' where p: "sse_client_poll s = Some (h, s')" "settled T g s'"
    using client_env.poll_ok [OF assms(1,2)] by (auto simp: returns_iff)
  then show ?thesis
    using False polled_max_iff [OF assms(1,2) p(1) assms(3)] by (simp add: task_turn_def sse_client_state_def)
qed

lemma task_ends_closed_ind:
  assumes "client_env t T g" and "read_timeout_ms g \<noteq> UINT32_MAX" and "\<And>ms b w. T b w \<Longrightarrow> T b (d ms w)"
    and "sse_task_main (sleep_with d) s = Some s'" and "settled T g s"
  shows "settled T g s' \<and> state (cl s') = SSE_STATE_CLOSED"
proof -
  have "sse_task_main delay x = Some y \<Longrightarrow> delay = sleep_with d \<longrightarrow> settled T g x \<longrightarrow>
      settled T g y \<and> state (cl y) = SSE_STATE_CLOSED" for delay x y
  proof (rule sse_task_main.raw_induct [where P = "\<lambda>delay x y. delay = sleep_with d \<longrightarrow> settled T g x \<longrightarrow>
      settled T g y \<and> state (cl y) = SSE_STATE_CLOSED"])
    fix main :: "(nat \<Rightarrow> 'a sys \<Rightarrow> 'a sys) \<Rightarrow> 'a sys \<Rightarrow> 'a sys option" and delay x y
    assume IH: "\<And>delay x y. main delay x = Some y \<Longrightarrow> delay = sleep_with d \<longrightarrow> settled T g x \<longrightarrow>
        settled T g y \<and> state (cl y) = SSE_STATE_CLOSED"
      and run: "task_turn x \<bind> (\<lambda>(sleep, s). case sleep of None \<Rightarrow> Some s
          | Some ms \<Rightarrow> main delay (if 0 < ms then delay ms s else s)) = Some y"
    show "delay = sleep_with d \<longrightarrow> settled T g x \<longrightarrow> settled T g y \<and> state (cl y) = SSE_STATE_CLOSED"
    proof (intro impI)
      assume delay: "delay = sleep_with d" and x: "settled T g x"
      obtain n u where turn: "task_turn x = Some (n, u)" "settled T g u"
        "case n of None \<Rightarrow> state (cl u) = SSE_STATE_CLOSED | Some ms \<Rightarrow> state (cl u) \<noteq> SSE_STATE_CLOSED \<and> ms \<le> 250"
        using task_turn_ok [OF assms(1) x assms(2)] by (auto simp: returns_iff)
      show "settled T g y \<and> state (cl y) = SSE_STATE_CLOSED"
      proof (cases n)
        case None
        then show ?thesis using run turn by simp
      next
        case (Some ms)
        have "settled T g (if ms > 0 then delay ms u else u)"
          using turn(2) sleep_settled [OF assms(3) turn(2)] delay by simp
        moreover have "main delay (if ms > 0 then delay ms u else u) = Some y" using run turn(1) Some by simp
        ultimately show ?thesis using IH delay by blast
      qed
    qed
  qed
  then show ?thesis using assms(4,5) by blast
qed

text \<open>The task of a client that is asked to stop while the task sleeps or a read blocks.\<close>

lemma stopped_turn:
  assumes "client_env t T g" and "settled T g s" and "stop_requested (cl s)"
  shows "\<exists>u. task_turn s = Some (None, u) \<and> state (cl u) = SSE_STATE_CLOSED"
proof (cases "state (cl s) = SSE_STATE_CLOSED")
  case True
  then show ?thesis by (simp add: task_turn_def sse_client_state_def)
next
  case False
  obtain h u where p: "sse_client_poll s = Some (h, u)" "polled (settled T g) s h u"
    using client_env.poll_ok [OF assms(1,2)] by (auto simp: returns_iff)
  then have "h = UINT32_MAX" "state (cl u) = SSE_STATE_CLOSED"
    using False assms(3) by (auto simp: polled_def shut_def)
  then show ?thesis using False p(1) by (simp add: task_turn_def sse_client_state_def)
qed

text \<open>The polling task leaves its loop, and deletes itself, only with the client CLOSED: if the loop ends, for any transport, callbacks and passing of time that honour their contracts, the client is CLOSED with its transport closed.\<close>

theorem task_ends_only_closed:
  assumes "client_env t T g" and "read_timeout_ms g \<noteq> UINT32_MAX" and "\<And>ms b w. T b w \<Longrightarrow> T b (d ms w)"
    and "reachable g (T False) s" and "sse_task_main (sleep_with d) s = Some s'"
  shows "state (cl s') = SSE_STATE_CLOSED \<and> \<not> transport_open (cl s')"
  using task_ends_closed_ind [OF assms(1-3,5) reach_settled [OF assms(1,4)]] by (simp add: settled_def)

lemma demo_task_run: "\<exists>s'. sse_task_main (sleep_with (\<lambda>ms w. w)) (demo_run 5) = Some s'"
  using demo_states(4) by (subst sse_task_main.simps) (simp add: task_turn_def sse_client_state_def)

theorem task_ends_only_closed_witness:
  "\<exists>s'. sse_task_main (sleep_with (\<lambda>ms w. w)) (demo_run 5) = Some s' \<and> state (cl s') = SSE_STATE_CLOSED"
proof -
  obtain s' where s': "sse_task_main (sleep_with (\<lambda>ms w. w)) (demo_run 5) = Some s'" using demo_task_run by blast
  have "read_timeout_ms demo_config \<noteq> UINT32_MAX" by (simp add: demo_config_def UINT32_MAX_def)
  from task_ends_only_closed [OF demo_T_reach(1) this _ demo_T_reach(2) s'] s' show ?thesis by blast
qed

text \<open>A stop request ends the task: once the flag is set, in whatever state, the next turn of the loop closes the client and the loop ends, for any behaviour of the transport and the callbacks.\<close>

theorem stop_ends_task:
  assumes "client_env t T g" and "reachable g (T False) s"
  shows "\<exists>s'. sse_task_main delay (sse_client_request_stop s) = Some s' \<and> state (cl s') = SSE_STATE_CLOSED"
proof -
  let ?r = "sse_client_request_stop s"
  have "reachable g (T False) ?r" using assms(2) client_step.stop by (rule reachable.step)
  from stopped_turn [OF assms(1) reach_settled [OF assms(1) this]]
  obtain u where "task_turn ?r = Some (None, u)" "state (cl u) = SSE_STATE_CLOSED"
    by (auto simp: sse_client_request_stop_def)
  then show ?thesis by (subst sse_task_main.simps) simp
qed

theorem stop_ends_task_witness:
  "\<exists>s'. sse_task_main (\<lambda>ms s. s) (sse_client_request_stop (demo_run 2)) = Some s' \<and> state (cl s') = SSE_STATE_CLOSED"
  by (rule stop_ends_task [OF demo_T_reach])

section \<open>The example program\<close>

text \<open>The example program sets its client up and keeps it running: for any HTTP library, timer and log, \<open>sse_client_init\<close> accepts the configuration of \<open>app_main\<close>, and every turn of the polling task from any state reached later returns, sleeping at most 250 ms.\<close>

theorem example_runs:
  assumes "esp_T False w"
  shows "(\<exists>c w'. sse_client_init (Some c0) (Some (example_config b u)) w = Some (0, Some c, w') \<and>
      reachable (example_config b u) (esp_T False) (started c w')) \<and>
    (reachable (example_config b u) (esp_T False) s \<longrightarrow> (\<exists>n s'. task_turn s = Some (n, s') \<and> (\<forall>ms. n = Some ms \<longrightarrow> ms \<le> 250)))"
proof -
  note env = esp_example.client_env_axioms [where b = b and u = u]
  have clk: "now_ms (example_config b u) = Some (now_ms_esp b)" by (simp add: example_config_def config_with_def)
  have init: "sse_client_init (Some c0) (Some (example_config b u)) w =
      Some (0, Some (init_client (example_config b u) (fst (now_ms_esp b w))), snd (now_ms_esp b w))"
    using client_env.config_valid [OF env] clk by (simp add: sse_client_init_def split_beta)
  have "reachable (example_config b u) (esp_T False)
      (started (init_client (example_config b u) (fst (now_ms_esp b w))) (snd (now_ms_esp b w)))"
    by (rule reachable.init [where W = "esp_T False", OF assms init])
  moreover have "\<exists>n s'. task_turn s = Some (n, s') \<and> (\<forall>ms. n = Some ms \<longrightarrow> ms \<le> 250)"
    if "reachable (example_config b u) (esp_T False) s"
  proof -
    have "read_timeout_ms (example_config b u) \<noteq> UINT32_MAX"
      by (simp add: example_config_def config_with_def UINT32_MAX_def)
    from task_turn_ok [OF env reach_settled [OF env that] this] show ?thesis
      by (auto simp: returns_iff split: option.splits)
  qed
  ultimately show ?thesis using init by blast
qed

theorem example_runs_witness:
  "\<forall>c0. \<exists>c w' n s'. sse_client_init (Some c0)
      (Some (example_config \<lparr>bd_http = loop_api, bd_time = \<lambda>x. (5000, x), bd_log = \<lambda>l x. x\<rparr> (bytes_of ''http://h/''))) idle_sys =
      Some (0, Some c, w') \<and> task_turn (started c w') = Some (n, s')"
proof
  fix c0
  let ?g = "example_config \<lparr>bd_http = loop_api, bd_time = \<lambda>x. (5000, x), bd_log = \<lambda>l x. x\<rparr> (bytes_of ''http://h/'')"
  obtain c w' where "sse_client_init (Some c0) (Some ?g) idle_sys = Some (0, Some c, w')"
    "reachable ?g (esp_T False) (started c w')"
    using example_runs [OF idle_sys_ok, of c0 "\<lparr>bd_http = loop_api, bd_time = \<lambda>x. (5000, x), bd_log = \<lambda>l x. x\<rparr>" "bytes_of ''http://h/''"]
    by blast
  then show "\<exists>c w' n s'. sse_client_init (Some c0) (Some ?g) idle_sys = Some (0, Some c, w') \<and> task_turn (started c w') = Some (n, s')"
    using example_runs [OF idle_sys_ok, of c0 _ _ "started c w'"] by blast
qed

end
