(* ===== verification/Esp_Boot_Properties.thy ===== *)
theory Esp_Boot_Properties
  imports Esp_Boot Esp_Task_Properties "HOL-Library.Sublist"
begin

text \<open>
  The start of the ESP-IDF programs: the first failing call ends it, joining the network
  takes as long as it takes to get an address, and only then is the client started.
\<close>

section \<open>Straight lines of calls\<close>

lemma idf_invoke_simps:
  "idf_invoke i c s = (r, s') \<Longrightarrow> bt_calls s' = bt_calls s @ [c] \<and> wifi_events s' = wifi_events s"
  by (auto simp: idf_invoke_def split: prod.splits)

lemma run_steps_done:
  "run_steps i cs s = Inr s' \<Longrightarrow> bt_calls s' = bt_calls s @ map step_call cs \<and> wifi_events s' = wifi_events s"
proof (induction i cs s rule: run_steps.induct)
  case (3 i c cs s)
  then show ?case by (cases "idf_invoke i c s") (auto dest: idf_invoke_simps)
qed (auto dest: idf_invoke_simps split: prod.splits if_splits)

lemma run_steps_abort:
  "run_steps i cs s = Inl (r, s') \<Longrightarrow> r \<noteq> ESP_OK \<and>
     (\<exists>pre c post u. cs = pre @ Check c # post \<and> run_steps i pre s = Inr u \<and> idf_invoke i c u = (r, s'))"
proof (induction i cs s rule: run_steps.induct)
  case (2 i c cs s)
  obtain q v where q: "idf_invoke i c s = (q, v)" by (cases "idf_invoke i c s")
  show ?case
  proof (cases "q = ESP_OK")
    case True
    have "run_steps i cs v = Inl (r, s')" using 2(2) q True by simp
    from "2.IH" [OF refl q [symmetric] True this] obtain pre d post u where
      "cs = pre @ Check d # post" "run_steps i pre v = Inr u" "idf_invoke i d u = (r, s')" "r \<noteq> ESP_OK"
      by blast
    then show ?thesis using q True
      by (intro conjI exI [of _ "Check c # pre"] exI [of _ d] exI [of _ post] exI [of _ u]) simp_all
  next
    case False
    then show ?thesis using 2(2) q
      by (intro conjI exI [of _ "[]"] exI [of _ c] exI [of _ cs] exI [of _ s]) auto
  qed
next
  case (3 i c cs s)
  have "run_steps i cs (snd (idf_invoke i c s)) = Inl (r, s')" using 3(2) by simp
  from "3.IH" [OF this] obtain pre d post u where
    "cs = pre @ Check d # post" "run_steps i pre (snd (idf_invoke i c s)) = Inr u" "idf_invoke i d u = (r, s')" "r \<noteq> ESP_OK"
    by blast
  then show ?case
    by (intro conjI exI [of _ "Call c # pre"] exI [of _ d] exI [of _ post] exI [of _ u]) simp_all
qed simp

text \<open>The calls made until an abort are the first ones of the list, and the last of them failed.\<close>

lemma abort_calls:
  assumes "run_steps i cs s = Inl (r, s')"
  shows "prefix (bt_calls s') (bt_calls s @ map step_call cs)" "bt_calls s' \<noteq> bt_calls s" "r \<noteq> ESP_OK"
  using run_steps_abort [OF assms] by (auto dest!: run_steps_done idf_invoke_simps)

text \<open>A board on which nothing fails.\<close>

definition reliable :: "'x idf \<Rightarrow> bool" where
  "reliable i \<longleftrightarrow> (\<forall>c x. fst (idf_do i c x) = ESP_OK) \<and> (\<forall>x. fst (idf_alloc i x) = (True, True)) \<and>
     (\<forall>d p x. fst (idf_create i d p x))"

lemma reliable_runs: "run_steps i cs s = Inl e \<Longrightarrow> \<not> reliable i"
proof
  assume a: "run_steps i cs s = Inl e" and r: "reliable i"
  obtain q v where e: "e = (q, v)" by (cases e)
  from run_steps_abort [OF a [unfolded e]] obtain c u where "idf_invoke i c u = (q, v)" "q \<noteq> ESP_OK" by blast
  then show False using r by (auto simp: idf_invoke_def reliable_def split_beta)
qed

section \<open>Waiting for an address\<close>

text \<open>The next events the loop will dispatch.\<close>

primrec dispatched :: "'x idf \<Rightarrow> nat \<Rightarrow> 'x boot \<Rightarrow> esp_event list" where
  "dispatched i 0 s = []"
| "dispatched i (Suc n) s = fst (idf_event i (bt_hw s)) # (case loop_dispatch i s of None \<Rightarrow> [] | Some s \<Rightarrow> dispatched i n s)"

definition connects :: "esp_event list \<Rightarrow> idf_call list" where
  "connects es = map (\<lambda>_. EspWifiConnect) (filter (\<lambda>e. e = WIFI_EVENT_STA_START \<or> e = WIFI_EVENT_STA_DISCONNECTED) es)"

definition unconnected :: "'x boot \<Rightarrow> bool" where
  "unconnected s \<longleftrightarrow> (\<exists>m. wifi_events s = Some m \<and> m AND WIFI_CONNECTED_BIT = 0)"

definition connected :: "'x boot \<Rightarrow> bool" where
  "connected s \<longleftrightarrow> (\<exists>m. wifi_events s = Some m \<and> m AND WIFI_CONNECTED_BIT \<noteq> 0)"

lemma WIFI_CONNECTED_BIT_nonzero [simp]: "WIFI_CONNECTED_BIT \<noteq> 0"
  by (simp add: WIFI_CONNECTED_BIT_def)

lemma loop_dispatch_cases:
  assumes "unconnected s"
  obtains s' where "loop_dispatch i s = Some s'"
    "bt_calls s' = bt_calls s @ connects [fst (idf_event i (bt_hw s))]"
    "if fst (idf_event i (bt_hw s)) = IP_EVENT_STA_GOT_IP then connected s' else unconnected s'"
proof -
  obtain e x where e: "idf_event i (bt_hw s) = (e, x)" by (cases "idf_event i (bt_hw s)")
  obtain m where m: "wifi_events s = Some m" "m AND WIFI_CONNECTED_BIT = 0" using assms by (auto simp: unconnected_def)
  have "returns (loop_dispatch i s) (\<lambda>s'. bt_calls s' = bt_calls s @ connects [e] \<and>
      (if e = IP_EVENT_STA_GOT_IP then connected s' else unconnected s'))"
    by (cases e) (simp_all add: loop_dispatch_def e m wifi_event_handler_def idf_invoke_def set_bits_def connects_def
        connected_def unconnected_def split_beta)
  then show ?thesis using that e by (auto simp: returns_iff)
qed

lemma wait_connected: "connected s \<Longrightarrow> wait_bits i s = Some s"
  by (subst wait_bits.simps) (auto simp: connected_def)

lemma wait_unconnected: "unconnected s \<Longrightarrow> wait_bits i s = loop_dispatch i s \<bind> wait_bits i"
  by (subst wait_bits.simps) (auto simp: unconnected_def)

definition got_ip_after :: "'x idf \<Rightarrow> 'x boot \<Rightarrow> esp_event list \<Rightarrow> bool" where
  "got_ip_after i s es \<longleftrightarrow> dispatched i (length es + 1) s = es @ [IP_EVENT_STA_GOT_IP] \<and> IP_EVENT_STA_GOT_IP \<notin> set es"

lemma wait_returns:
  assumes "got_ip_after i s es" and "unconnected s"
  shows "\<exists>s'. wait_bits i s = Some s' \<and> connected s' \<and> bt_calls s' = bt_calls s @ connects es"
  using assms
proof (induction es arbitrary: s)
  case Nil
  from Nil(2) obtain v where v: "loop_dispatch i s = Some v"
    "bt_calls v = bt_calls s @ connects [fst (idf_event i (bt_hw s))]"
    "if fst (idf_event i (bt_hw s)) = IP_EVENT_STA_GOT_IP then connected v else unconnected v"
    by (rule loop_dispatch_cases)
  then show ?case using Nil wait_connected [of v i]
    by (auto simp: got_ip_after_def wait_unconnected connects_def)
next
  case (Cons e es)
  from Cons(3) obtain v where v: "loop_dispatch i s = Some v"
    "bt_calls v = bt_calls s @ connects [fst (idf_event i (bt_hw s))]"
    "if fst (idf_event i (bt_hw s)) = IP_EVENT_STA_GOT_IP then connected v else unconnected v"
    by (rule loop_dispatch_cases)
  then have e: "fst (idf_event i (bt_hw s)) = e" "got_ip_after i v es" "unconnected v"
    using Cons(2) by (auto simp: got_ip_after_def)
  from Cons.IH [OF e(2,3)] show ?case using v e(1) Cons(3)
    by (auto simp: wait_unconnected connects_def)
qed

lemma wait_got_ip:
  assumes "wait_bits i s = Some s'" and "unconnected s"
  shows "\<exists>es. got_ip_after i s es"
proof -
  have "wait_bits j u = Some v \<Longrightarrow> unconnected u \<longrightarrow> (\<exists>es. got_ip_after j u es)" for j :: "'a idf" and u v
  proof (rule wait_bits.raw_induct [where P = "\<lambda>j u v. unconnected u \<longrightarrow> (\<exists>es. got_ip_after j u es)"])
    fix w :: "'a idf \<Rightarrow> 'a boot \<Rightarrow> 'a boot option" and j u v
    assume IH: "\<And>j u v. w j u = Some v \<Longrightarrow> unconnected u \<longrightarrow> (\<exists>es. got_ip_after j u es)"
      and run: "(case wifi_events u of None \<Rightarrow> None
         | Some m \<Rightarrow> if m AND WIFI_CONNECTED_BIT \<noteq> 0 then Some u else loop_dispatch j u \<bind> w j) = Some v"
    show "unconnected u \<longrightarrow> (\<exists>es. got_ip_after j u es)"
    proof
      assume u: "unconnected u"
      then obtain t where t: "loop_dispatch j u = Some t"
        "if fst (idf_event j (bt_hw u)) = IP_EVENT_STA_GOT_IP then connected t else unconnected t"
        by (rule loop_dispatch_cases)
      show "\<exists>es. got_ip_after j u es"
      proof (cases "fst (idf_event j (bt_hw u)) = IP_EVENT_STA_GOT_IP")
        case True
        then show ?thesis using t(1) by (intro exI [of _ "[]"]) (simp add: got_ip_after_def)
      next
        case False
        have "w j t = Some v" using run u t(1) by (auto simp: unconnected_def)
        with IH have "unconnected t \<longrightarrow> (\<exists>es. got_ip_after j t es)" .
        then obtain es where "got_ip_after j t es" using t(2) False by auto
        then show ?thesis using t(1) False
          by (intro exI [of _ "fst (idf_event j (bt_hw u)) # es"]) (simp add: got_ip_after_def)
      qed
    qed
  qed
  then show ?thesis using assms by blast
qed


lemma wait_bits_connected:
  assumes "wait_bits i s = Some s'" and "unconnected s"
  shows "connected s' \<and> (\<exists>es. bt_calls s' = bt_calls s @ connects es)"
proof -
  obtain es where "got_ip_after i s es" using wait_got_ip [OF assms] by blast
  from wait_returns [OF this assms(2)] assms(1) show ?thesis by auto
qed

section \<open>Joining the network\<close>

text \<open>What the field of \<open>n\<close> bytes holds that is given a string; it has room for \<open>n - 1\<close> bytes of it.\<close>

definition field :: "nat \<Rightarrow> bytes \<Rightarrow> bytes" where
  "field n x = take (n - 1) x @ replicate (n - 1 - length x) 0 @ [0]"

lemma strncpy_field: "0 < n \<Longrightarrow> strncpy (replicate n 0) x (n - 1) = Some (field n x)"
  by (cases n) (simp_all add: strncpy_def field_def drop_Cons' flip: replicate_append_same)

text \<open>A string of \<open>n\<close> bytes or more loses its end, although the field could hold \<open>n\<close> of them.\<close>

lemma field_holds: "0 \<notin> set x \<Longrightarrow> c_str (field n x) = Some (take (n - 1) x)"
proof -
  assume "0 \<notin> set x"
  then have "0 \<notin> set (take (n - 1) x)" by (meson in_set_takeD)
  then show ?thesis by (cases "n - 1 - length x") (simp_all add: field_def)
qed

definition joining :: "nat \<Rightarrow> nat \<Rightarrow> bytes \<Rightarrow> bytes \<Rightarrow> boot_step list" where
  "joining n k ssid password = wifi_steps (field n ssid) (field k password)"

lemma wifi_join_run:
  assumes "0 < n" "0 < k" and "idf_group i (bt_hw s) = (ok, x)"
  shows "wifi_join i n k ssid password s =
    and_then (Some (run_steps i (joining n k ssid password) (s\<lparr>bt_hw := x, wifi_events := (if ok then Some 0 else None)\<rparr>)))
      (\<lambda>s. map_option Inr (wait_bits i s))"
  using assms by (simp add: wifi_join_def strncpy_field [simplified] joining_def)

lemma and_then_simps [simp]:
  "and_then None f = None" "and_then (Some (Inl e)) f = Some (Inl e)" "and_then (Some (Inr x)) f = f x"
  by (simp_all add: and_then_def)

lemma wait_bits_null: "wifi_events s = None \<Longrightarrow> wait_bits i s = None"
  by (subst wait_bits.simps) simp

lemma wifi_join_cases:
  assumes "0 < n" "0 < k" and "wifi_join i n k ssid password s = Some out"
  shows "case out of
      Inl (r, s') \<Rightarrow> r \<noteq> ESP_OK \<and> \<not> reliable i \<and> prefix (bt_calls s') (bt_calls s @ map step_call (joining n k ssid password))
    | Inr s' \<Rightarrow> connected s' \<and> (\<exists>es. bt_calls s' = bt_calls s @ map step_call (joining n k ssid password) @ connects es)"
proof -
  obtain ok x where g: "idf_group i (bt_hw s) = (ok, x)" by (cases "idf_group i (bt_hw s)")
  let ?s = "s\<lparr>bt_hw := x, wifi_events := (if ok then Some 0 else None)\<rparr>"
  note run = assms(3) [unfolded wifi_join_run [OF assms(1,2) g]]
  show ?thesis
  proof (cases "run_steps i (joining n k ssid password) ?s")
    case (Inl e)
    obtain r v where e: "e = (r, v)" by (cases e)
    have "out = Inl (r, v)" using run Inl e by simp
    then show ?thesis using abort_calls [OF Inl [unfolded e]] reliable_runs [OF Inl] by simp
  next
    case (Inr v)
    note v = run_steps_done [OF Inr]
    obtain s' where s': "wait_bits i v = Some s'" "out = Inr s'" using run Inr by auto
    have "unconnected v" using v s'(1) wait_bits_null [of v i] by (cases ok) (auto simp: unconnected_def)
    from wait_bits_connected [OF s'(1) this] v s'(2) show ?thesis by auto
  qed
qed


section \<open>The whole start\<close>

definition startup :: "nat \<Rightarrow> nat \<Rightarrow> bytes \<Rightarrow> bytes \<Rightarrow> idf_call list" where
  "startup n k ssid password = NvsFlashInit # map step_call (joining n k ssid password)"

text \<open>\<open>J\<close> is what the steps of the start keep of the world.\<close>

lemma start_client_cases:
  assumes "start_client alloc create word api g c0 y = Some out" and "transport g = Some (sse_transport_esp api)"
    and "client_env (sse_transport_esp api) T g" and "now_ms g = Some f"
    and new: "\<And>ctx. esp_T False \<lparr>ectx = ctx, elib = snd (alloc y)\<rparr> \<Longrightarrow> T False \<lparr>ectx = ctx, elib = snd (alloc y)\<rparr>"
    and task: "\<And>w d p. T False w \<Longrightarrow> T False (w\<lparr>elib := snd (create d p (elib w))\<rparr>)"
    and J: "J (snd (alloc y))" "\<And>w. J (elib w) \<Longrightarrow> J (elib (snd (f w)))" "\<And>d p x. J x \<Longrightarrow> J (snd (create d p x))"
  shows "case out of
      Inl (r, y') \<Rightarrow> r = ESP_FAIL \<and> J y' \<and> (fst (alloc y) \<noteq> (True, True) \<or> (\<exists>d p z. \<not> fst (create d p z)))
    | Inr st \<Rightarrow> settled T g st \<and> state (cl st) = SSE_STATE_IDLE \<and> trace st = [] \<and> J (elib (env st))"
proof -
  obtain t c y' where a: "alloc y = ((t, c), y')" by (metis surj_pair)
  show ?thesis
  proof (cases "t \<and> c")
    case False
    then show ?thesis using assms(1) a J(1)
      by (auto simp: start_client_def sse_transport_esp_http_client_def sse_client_init_def client_config_valid_def)
  next
    case True
    let ?w = "\<lparr>ectx = new_esp_ctx, elib = y'\<rparr>"
    have g: "g\<lparr>transport := Some (sse_transport_esp api)\<rparr> = g" using assms(2) by simp
    have valid: "client_config_valid g" by (rule client_env.config_valid [OF assms(3)])
    have "esp_T False ?w" by (rule esp_new_ok [of True True api]) (simp add: sse_transport_esp_http_client_def)
    then have T: "T False ?w" using new [of new_esp_ctx] a by simp
    let ?c = "init_client g (fst (f ?w))" and ?v = "snd (f ?w)"
    have Jv: "J (elib ?v)" using J(1) a by (intro J(2)) simp
    have init: "sse_client_init (Some c0) (Some g) ?w = Some (0, Some ?c, ?v)"
      using valid assms(4) by (simp add: sse_client_init_def split_beta)
    have set: "settled T g (started ?c ?v)" by (rule client_env.init_settled [OF assms(3) T init])
    obtain r z where z: "sse_client_start_task create word 6144 5 (elib ?v) = (r, z)"
      by (cases "sse_client_start_task create word 6144 5 (elib ?v)")
    have z': "z = snd (create (6144 div word) 5 (elib ?v))"
      using z by (auto simp: sse_client_start_task_def split_beta)
    have failed: "\<exists>d p z. \<not> fst (create d p z)" if "r \<noteq> 0"
      using z that by (auto simp: sse_client_start_task_def split_beta split: if_splits)
    have "T False (?v\<lparr>elib := z\<rparr>)"
      using z' task client_env.clock_ok [OF assms(3,4) T] by simp
    moreover have idle: "state ?c = SSE_STATE_IDLE" "\<not> transport_open ?c" by (simp_all add: init_client_def Let_def)
    ultimately have "settled T g (started ?c (?v\<lparr>elib := z\<rparr>))"
      using set by (simp add: settled_def client_inv_def obs_ok_def started_def)
    moreover have "J z" unfolding z' by (rule J(3) [OF Jv])
    moreover have "out = (if r \<noteq> 0 then Inl (ESP_FAIL, z) else Inr (started ?c (?v\<lparr>elib := z\<rparr>)))"
      using assms(1) a True g init z by (simp add: start_client_def sse_transport_esp_http_client_def split: if_splits)
    ultimately show ?thesis using idle failed by (simp add: started_def)
  qed
qed

lemma start_client_total:
  assumes "now_ms g = Some f"
  shows "\<exists>out. start_client alloc create word api g c0 y = Some out"
proof -
  have "sse_client_init (Some c0) (Some (g\<lparr>transport := tr\<rparr>)) w \<noteq> None" for tr w
    using assms by (simp add: sse_client_init_def split_beta)
  moreover have "r = 0 \<longrightarrow> c \<noteq> None" if "sse_client_init (Some c0) (Some g') w = Some (r, c, v)" for g' w r c v
    using that by (auto simp: sse_client_init_def split_beta split: if_splits bind_splits)
  ultimately show ?thesis
    by (fastforce simp: start_client_def Let_def split_beta split: bind_splits)
qed

lemma bt_put_hw [simp]:
  "bt_hw (put_hw x s) = x" "wifi_events (put_hw x s) = wifi_events s" "bt_calls (put_hw x s) = bt_calls s"
  "connected (put_hw x s) = connected s"
  by (simp_all add: put_hw_def connected_def)

lemma boot_hw_simps [simp]:
  "bt_calls (snd (boot_alloc i s)) = bt_calls s" "connected (snd (boot_alloc i s)) = connected s"
  "bt_calls (snd (boot_create i d p s)) = bt_calls s" "connected (snd (boot_create i d p s)) = connected s"
  "bt_calls (snd (on_part bt_hw put_hw f s)) = bt_calls s" "connected (snd (on_part bt_hw put_hw f s)) = connected s"
  by (simp_all add: boot_alloc_def boot_create_def on_part_def split_beta connected_def)

definition outcome_ok ::
  "'x idf \<Rightarrow> bytes \<Rightarrow> idf_call list \<Rightarrow> 'x board \<Rightarrow> ((i32 \<times> 'x boot) + 'x boot esp_sys sys) \<Rightarrow> bool" where
  "outcome_ok i u calls b out = (case out of
      Inl (r, s') \<Rightarrow> r \<noteq> ESP_OK \<and> \<not> reliable i \<and> (prefix (bt_calls s') calls \<or> r = ESP_FAIL \<and> connected s')
    | Inr st \<Rightarrow> settled esp_T (example_config (boot_board b) u) st \<and> state (cl st) = SSE_STATE_IDLE \<and>
        connected (elib (env st)) \<and> (\<exists>es. bt_calls (elib (env st)) = calls @ connects es @ [LogWifiConnected]))"

lemma app_main_ok:
  assumes "app_main i b n k ssid password u c0 s = Some out" and "0 < n" "0 < k" and "bt_calls s = []"
  shows "outcome_ok i u (startup n k ssid password) b out"
proof (cases "run_steps i [Check NvsFlashInit] s")
  case (Inl e)
  obtain r v where e: "e = (r, v)" by (cases e)
  have "out = Inl (r, v)" using assms(1) Inl e by (simp add: app_main_def del: run_steps.simps)
  moreover have "prefix (bt_calls v) [NvsFlashInit]" using abort_calls [OF Inl [unfolded e]] assms(4) by simp
  moreover have "prefix [NvsFlashInit] (startup n k ssid password)" by (simp add: startup_def)
  ultimately show ?thesis using abort_calls(3) [OF Inl [unfolded e]] reliable_runs [OF Inl] prefix_order.trans by (fastforce simp: outcome_ok_def)
next
  case (Inr v)
  have v: "bt_calls v = [NvsFlashInit]" using run_steps_done [OF Inr] assms(4) by simp
  obtain joined where j: "wifi_join i n k ssid password v = Some joined"
    using assms(1) Inr by (cases "wifi_join i n k ssid password v")
      (auto simp: app_main_def wifi_connect_blocking_def simp del: run_steps.simps)
  note jc = wifi_join_cases [OF assms(2,3) j]
  show ?thesis
  proof (cases joined)
    case (Inl e)
    then show ?thesis using assms(1) jc Inr j v
      by (cases e) (auto simp: app_main_def wifi_connect_blocking_def startup_def outcome_ok_def simp del: run_steps.simps)
  next
    case joined: (Inr t)
    obtain es where t: "connected t" "bt_calls t = startup n k ssid password @ connects es"
      using jc joined v by (auto simp: startup_def)
    let ?t = "snd (idf_invoke i LogWifiConnected t)" and ?g = "example_config (boot_board b) u"
    let ?J = "\<lambda>y. connected y \<and> bt_calls y = startup n k ssid password @ connects es @ [LogWifiConnected]"
    have J: "?J ?t" using t by (auto simp: idf_invoke_def connected_def split_beta)
    have run: "start_client (boot_alloc i) (boot_create i) (idf_word i) (bd_http (boot_board b)) ?g c0 ?t = Some out"
      using assms(1) Inr j joined by (simp add: app_main_def wifi_connect_blocking_def del: run_steps.simps(2,3))
        (simp only: run_steps.simps and_then_simps)
    have "case out of Inl (r, y') \<Rightarrow> r = ESP_FAIL \<and> ?J y' \<and>
          (fst (boot_alloc i ?t) \<noteq> (True, True) \<or> (\<exists>d p z. \<not> fst (boot_create i d p z)))
      | Inr st \<Rightarrow> settled esp_T ?g st \<and> state (cl st) = SSE_STATE_IDLE \<and> trace st = [] \<and> ?J (elib (env st))"
    proof (rule start_client_cases [OF run _ esp_example.client_env_axioms])
      show "transport ?g = Some (sse_transport_esp (bd_http (boot_board b)))" "now_ms ?g = Some (now_ms_esp (boot_board b))"
        by (simp_all add: example_config_def config_with_def)
      show "?J (elib (snd (now_ms_esp (boot_board b) w)))" if "?J (elib w)" for w
        using that by (simp add: now_ms_esp_def boot_board_def split_beta)
    qed (use J in \<open>auto simp: esp_T_def\<close>)
    moreover have "fst (boot_alloc i ?t) = (True, True)" "fst (boot_create i d p z)" if "reliable i" for d p z
      using that by (simp_all add: boot_alloc_def boot_create_def reliable_def split_beta)
    ultimately show ?thesis by (auto simp: outcome_ok_def ESP_FAIL_def ESP_OK_def split: sum.splits)
  qed
qed


text \<open>A board that works: the station starts, loses its network once and gets an address.\<close>

definition demo_idf :: "nat idf" where
  "demo_idf = \<lparr>idf_do = (\<lambda>c x. (ESP_OK, x)), idf_group = (\<lambda>x. (True, x)),
     idf_event = (\<lambda>x. (if x = 0 then WIFI_EVENT_STA_START else if x = 1 then WIFI_EVENT_STA_DISCONNECTED else IP_EVENT_STA_GOT_IP, x + 1)),
     idf_alloc = (\<lambda>x. ((True, True), x)), idf_create = (\<lambda>d p x. (True, x)), idf_word = 4\<rparr>"

definition off :: "nat boot" where
  "off = \<lparr>bt_hw = 0, wifi_events = None, bt_calls = []\<rparr>"

lemma demo_joins:
  "\<exists>t. wifi_join demo_idf 32 64 (bytes_of ''net'') (bytes_of ''pw'') (off\<lparr>bt_calls := [NvsFlashInit]\<rparr>) = Some (Inr t)"
proof -
  let ?s = "\<lparr>bt_hw = 0, wifi_events = Some 0, bt_calls = NvsFlashInit # map step_call (joining 32 64 (bytes_of ''net'') (bytes_of ''pw''))\<rparr>"
  have "run_steps demo_idf (joining 32 64 (bytes_of ''net'') (bytes_of ''pw'')) \<lparr>bt_hw = 0, wifi_events = Some 0, bt_calls = [NvsFlashInit]\<rparr> = Inr ?s"
    by (simp add: joining_def wifi_steps_def idf_invoke_def demo_idf_def)
  moreover have "got_ip_after demo_idf ?s [WIFI_EVENT_STA_START, WIFI_EVENT_STA_DISCONNECTED]"
    by (simp add: got_ip_after_def loop_dispatch_def wifi_event_handler_def idf_invoke_def set_bits_def demo_idf_def)
  moreover have "unconnected ?s" by (simp add: unconnected_def)
  ultimately show ?thesis using wait_returns [of demo_idf ?s]
    by (auto simp: wifi_join_run demo_idf_def off_def)
qed

definition demo_chip :: "nat board" where
  "demo_chip = \<lparr>bd_http = loop_api, bd_time = \<lambda>x. (5000, x), bd_log = \<lambda>l x. x\<rparr>"

lemma demo_starts:
  "\<exists>st. app_main demo_idf demo_chip 32 64 (bytes_of ''net'') (bytes_of ''pw'') (bytes_of ''http://h/'') c0 off = Some (Inr st)"
proof -
  obtain t where t: "wifi_join demo_idf 32 64 (bytes_of ''net'') (bytes_of ''pw'') (off\<lparr>bt_calls := [NvsFlashInit]\<rparr>) = Some (Inr t)"
    using demo_joins by blast
  have nvs: "run_steps demo_idf [Check NvsFlashInit] off = Inr (off\<lparr>bt_calls := [NvsFlashInit]\<rparr>)"
    by (simp add: idf_invoke_def demo_idf_def off_def)
  let ?g = "example_config (boot_board demo_chip) (bytes_of ''http://h/'')"
  have g: "transport ?g = Some (sse_transport_esp (bd_http (boot_board demo_chip)))" "now_ms ?g = Some (now_ms_esp (boot_board demo_chip))"
    by (simp_all add: example_config_def config_with_def)
  then have "?g\<lparr>transport := Some (sse_transport_esp (bd_http (boot_board demo_chip)))\<rparr> = ?g" by simp
  moreover have "client_config_valid ?g" by (rule client_env.config_valid [OF esp_example.client_env_axioms])
  ultimately have "\<exists>st. start_client (boot_alloc demo_idf) (boot_create demo_idf) (idf_word demo_idf)
      (bd_http (boot_board demo_chip)) ?g c0 v = Some (Inr st)" for v
    using g(2) by (simp add: start_client_def boot_alloc_def boot_create_def demo_idf_def sse_transport_esp_http_client_def
        sse_client_init_def sse_client_start_task_def split_beta Let_def)
  then show ?thesis using t nvs by (simp only: app_main_def wifi_connect_blocking_def and_then_simps run_steps.simps)
qed


section \<open>The program afterwards\<close>

text \<open>
  The states the polling task goes through from \<open>s\<close>: it takes a turn, another task asks for
  a stop, or the world changes while the task sleeps, but not the transport's own state.
\<close>

inductive task_state :: "(bool \<Rightarrow> 'w \<Rightarrow> bool) \<Rightarrow> 'w sys \<Rightarrow> 'w sys \<Rightarrow> bool" for T s where
  start: "task_state T s s"
| turn: "task_state T s v \<Longrightarrow> task_turn v = Some (Some ms, v') \<Longrightarrow> task_state T s v'"
| asked: "task_state T s v \<Longrightarrow> task_state T s (sse_client_request_stop v)"
| meanwhile: "task_state T s v \<Longrightarrow> T (transport_open (cl v)) w \<Longrightarrow> task_state T s (v\<lparr>env := w\<rparr>)"

lemma task_state_settled:
  assumes "task_state T s v" and "client_env t T g" and "settled T g s" and "read_timeout_ms g \<noteq> UINT32_MAX"
  shows "settled T g v"
  using assms(1)
proof (induction rule: task_state.induct)
  case start
  then show ?case by (rule assms(3))
next
  case (turn v ms v')
  then show ?case using task_turn_ok [OF assms(2) turn.IH assms(4)] by (simp add: returns_iff)
next
  case (asked v)
  then show ?case by (intro client_env.stop_call_ok [OF assms(2)])
next
  case (meanwhile v w)
  then show ?case by (auto simp: settled_def client_inv_def obs_ok_def)
qed

text \<open>C34: The ESP32 example runs from power-on: once \<open>app_main\<close> has started the task, every turn of the task returns, in whatever state stop requests from other tasks and the passing of time leave it; a turn sleeps at most 250 ms, and the task ends only with the client CLOSED and its transport closed.\<close>

theorem esp32_program_runs:
  assumes "app_main i b n k ssid password u c0 s = Some (Inr st)" and "0 < n" "0 < k" and "bt_calls s = []"
    and "task_state esp_T st v"
  shows "\<exists>m v'. task_turn v = Some (m, v') \<and>
    (case m of None \<Rightarrow> state (cl v') = SSE_STATE_CLOSED \<and> \<not> transport_open (cl v') | Some ms \<Rightarrow> ms \<le> 250)"
proof -
  let ?g = "example_config (boot_board b) u"
  have "settled esp_T ?g st" using app_main_ok [OF assms(1-4)] by (simp add: outcome_ok_def)
  moreover have t: "read_timeout_ms ?g \<noteq> UINT32_MAX" by (simp add: example_config_def config_with_def UINT32_MAX_def)
  ultimately have "settled esp_T ?g v" using task_state_settled [OF assms(5) esp_example.client_env_axioms] by blast
  from task_turn_ok [OF esp_example.client_env_axioms this t] show ?thesis
    by (auto simp: returns_iff settled_def split: option.splits)
qed

theorem esp32_program_runs_witness:
  "\<forall>c0. \<exists>st m v'. app_main demo_idf demo_chip 32 64 (bytes_of ''net'') (bytes_of ''pw'') (bytes_of ''http://h/'') c0 off = Some (Inr st) \<and>
     task_turn (sse_client_request_stop st) = Some (m, v')"
proof
  fix c0
  obtain st where st: "app_main demo_idf demo_chip 32 64 (bytes_of ''net'') (bytes_of ''pw'') (bytes_of ''http://h/'') c0 off = Some (Inr st)"
    using demo_starts by blast
  have "bt_calls off = []" by (simp add: off_def)
  from esp32_program_runs [OF st _ _ this task_state.asked [OF task_state.start]] st
  show "\<exists>st m v'. app_main demo_idf demo_chip 32 64 (bytes_of ''net'') (bytes_of ''pw'') (bytes_of ''http://h/'') c0 off = Some (Inr st) \<and>
     task_turn (sse_client_request_stop st) = Some (m, v')" by auto
qed

section \<open>How long joining takes\<close>

text \<open>C36: Joining the network takes exactly as long as it takes to get an address: with an event group and no failing call, \<open>wifi_connect_blocking\<close> returns if and only if the event loop ever dispatches IP_EVENT_STA_GOT_IP, and it has then asked to connect once for every start of the station and every loss of the network before that event.\<close>

theorem wifi_connect_ends:
  assumes "0 < n" "0 < k" and "idf_group i (bt_hw s) = (True, x)"
    and "run_steps i (wifi_steps (field n ssid) (field k password)) (s\<lparr>bt_hw := x, wifi_events := Some 0\<rparr>) = Inr v"
  shows "((\<exists>out. wifi_connect_blocking i n k ssid password s = Some out) \<longleftrightarrow> (\<exists>es. got_ip_after i v es)) \<and>
    (\<forall>es. got_ip_after i v es \<longrightarrow> (\<exists>s'. wifi_connect_blocking i n k ssid password s = Some (Inr s') \<and>
       bt_calls s' = bt_calls v @ connects es @ [LogWifiConnected]))"
proof (intro conjI allI impI)
  have v: "unconnected v" using run_steps_done [OF assms(4)] by (simp add: unconnected_def)
  have run: "wifi_connect_blocking i n k ssid password s =
      map_option (\<lambda>s. Inr (snd (idf_invoke i LogWifiConnected s))) (wait_bits i v)"
    using assms(4) wifi_join_run [OF assms(1-3)]
    by (cases "wait_bits i v") (simp_all add: wifi_connect_blocking_def joining_def)
  show "(\<exists>out. wifi_connect_blocking i n k ssid password s = Some out) \<longleftrightarrow> (\<exists>es. got_ip_after i v es)"
    using wait_got_ip [of i v, OF _ v] wait_returns [OF _ v] by (fastforce simp: run)
  show "\<exists>s'. wifi_connect_blocking i n k ssid password s = Some (Inr s') \<and>
      bt_calls s' = bt_calls v @ connects es @ [LogWifiConnected]" if "got_ip_after i v es" for es
    using wait_returns [OF that v] by (auto simp: run idf_invoke_def split_beta)
qed

theorem wifi_connect_ends_witness:
  "\<exists>s'. wifi_connect_blocking demo_idf 32 64 (bytes_of ''net'') (bytes_of ''pw'') off = Some (Inr s') \<and>
     drop 9 (bt_calls s') = [EspWifiConnect, EspWifiConnect, LogWifiConnected]"
proof -
  let ?v = "\<lparr>bt_hw = 0, wifi_events = Some 0, bt_calls = map step_call (joining 32 64 (bytes_of ''net'') (bytes_of ''pw''))\<rparr>"
  have g: "idf_group demo_idf (bt_hw off) = (True, 0)" by (simp add: demo_idf_def off_def)
  have r: "run_steps demo_idf (wifi_steps (field 32 (bytes_of ''net'')) (field 64 (bytes_of ''pw''))) (off\<lparr>bt_hw := 0, wifi_events := Some 0\<rparr>) =
      Inr ?v"
    by (simp add: joining_def wifi_steps_def idf_invoke_def demo_idf_def off_def)
  have "got_ip_after demo_idf ?v [WIFI_EVENT_STA_START, WIFI_EVENT_STA_DISCONNECTED]"
    by (simp add: got_ip_after_def loop_dispatch_def wifi_event_handler_def idf_invoke_def set_bits_def demo_idf_def)
  with wifi_connect_ends [OF _ _ g r] obtain s' where
    "wifi_connect_blocking demo_idf 32 64 (bytes_of ''net'') (bytes_of ''pw'') off = Some (Inr s')"
    "bt_calls s' = bt_calls ?v @ connects [WIFI_EVENT_STA_START, WIFI_EVENT_STA_DISCONNECTED] @ [LogWifiConnected]"
    by auto
  then show ?thesis by (simp add: joining_def wifi_steps_def connects_def)
qed

end
