(* ===== verification/Curl_Transport.thy ===== *)
theory Curl_Transport
  imports Esp_Transport
begin

text \<open>
  The POSIX transport of \<open>ports/posix/sse_transport_curl.c\<close>: the ring buffer and the two
  callbacks libcurl runs, the pump, \<open>open\<close> with its timed waits and same-origin redirects,
  \<open>read\<close> and \<open>close\<close>. libcurl and the clock are the parameter \<open>api\<close>.

  The waits of \<open>open\<close> end only when libcurl or the clock makes progress, so they are
  partial functions: a wait that never ends is \<open>None\<close>, as undefined behaviour is.
  \<open>long\<close> has 64 bits (LP64).
\<close>

section \<open>libcurl\<close>

text \<open>
  A call of libcurl that may run the transport's callbacks: it ends, or it calls one of
  them and goes on with its return value.
\<close>

datatype (dead 'r) curl_run =
  Finished 'r | CallBody bytes "nat \<Rightarrow> 'r curl_run" | CallHeader bytes "nat \<Rightarrow> 'r curl_run"

text \<open>
  Codes are 0 for success. A pointer result is an option; strings are given without their
  NUL. \<open>cu_wait\<close> blocks, so it also tells whether another task called
  \<open>sse_client_request_stop\<close> meanwhile. \<open>cu_messages\<close> yields what repeated calls of
  \<open>curl_multi_info_read\<close> return before NULL: whether a message is \<open>CURLMSG_DONE\<close>, and its
  result. \<open>cu_url_parts\<close> is the URL API: scheme, host, and port with the scheme's default.
  \<open>cu_clock\<close> is \<open>clock_gettime(CLOCK_MONOTONIC)\<close>: seconds and nanoseconds.
\<close>

record 'x curl_api =
  cu_easy_init :: "'x \<Rightarrow> bool \<times> 'x"
  cu_multi_init :: "'x \<Rightarrow> bool \<times> 'x"
  cu_slist_append :: "'x \<Rightarrow> bytes \<Rightarrow> bool \<times> 'x"
  cu_set_url :: "'x \<Rightarrow> bytes \<Rightarrow> 'x"
  cu_set_options :: "'x \<Rightarrow> bytes list \<Rightarrow> 'x"
  cu_add_handle :: "'x \<Rightarrow> 'x"
  cu_remove_handle :: "'x \<Rightarrow> 'x"
  cu_easy_cleanup :: "'x \<Rightarrow> 'x"
  cu_multi_cleanup :: "'x \<Rightarrow> 'x"
  cu_slist_free :: "'x \<Rightarrow> 'x"
  cu_unpause :: "'x \<Rightarrow> 'x curl_run"
  cu_wait :: "'x \<Rightarrow> i32 \<Rightarrow> i32 \<times> bool \<times> 'x"
  cu_perform :: "'x \<Rightarrow> (i32 \<times> 'x) curl_run"
  cu_messages :: "'x \<Rightarrow> (bool \<times> i32) list \<times> 'x"
  cu_redirect_url :: "'x \<Rightarrow> bytes option"
  cu_effective_url :: "'x \<Rightarrow> bytes option"
  cu_response_code :: "'x \<Rightarrow> i32"
  cu_content_type :: "'x \<Rightarrow> bytes option"
  cu_url_parts :: "'x \<Rightarrow> bytes \<Rightarrow> (bytes \<times> bytes \<times> bytes) option"
  cu_clock :: "'x \<Rightarrow> (u64 \<times> u64) \<times> 'x"

text \<open>The clock of \<open>ports/posix/sse_clock_posix.c\<close>.\<close>

definition sse_now_ms_posix :: "'x curl_api \<Rightarrow> 'x \<Rightarrow> u32 \<times> 'x" where
  "sse_now_ms_posix api x =
     (let ((sec, nsec), x) = cu_clock api x in (ucast (sec * 1000 + nsec div 1000000), x))"

definition CURLM_OK :: i32 where "CURLM_OK = 0"
definition CURLE_OK :: i32 where "CURLE_OK = 0"
definition CURL_WRITEFUNC_PAUSE :: nat where "CURL_WRITEFUNC_PAUSE = 0x10000001"

section \<open>The context\<close>

definition RING_CAP :: nat where "RING_CAP = 32 * 1024"
definition OPEN_TIMEOUT_MS :: u32 where "OPEN_TIMEOUT_MS = 30000"
definition MAX_REDIRECT_HOPS :: nat where "MAX_REDIRECT_HOPS = 5"

text \<open>
  \<open>size_t\<close> values are \<open>nat\<close>: \<open>r_len\<close> never exceeds the ring, which the invariant of
  \<open>Curl_Safety\<close> states, so \<open>RING_CAP - r_len\<close> does not wrap.
\<close>

record curl_ctx =
  multi :: bool                   \<comment> \<open>whether the pointers are not NULL\<close>
  easy :: bool
  hdrs :: "bytes list"            \<comment> \<open>the slist; NULL when empty\<close>
  ring :: bytes
  r_head :: nat
  r_len :: nat
  body_started :: bool
  headers_done :: bool
  header_block_status :: i32
  transfer_done :: bool
  transfer_result :: i32
  paused :: bool
  cu_retry_after_s :: i32

record 'x curl_sys =
  cctx :: curl_ctx
  clib :: 'x

text \<open>The context after \<open>memset\<close> or \<open>calloc\<close>, with the one field that is set then.\<close>

definition blank_ctx :: curl_ctx where
  "blank_ctx = \<lparr>multi = False, easy = False, hdrs = [], ring = replicate RING_CAP 0, r_head = 0, r_len = 0,
     body_started = False, headers_done = False, header_block_status = 0, transfer_done = False,
     transfer_result = 0, paused = False, cu_retry_after_s = -1\<rparr>"

section \<open>Callbacks\<close>

fun ring_put :: "nat \<Rightarrow> bytes \<Rightarrow> bytes \<Rightarrow> bytes option" where
  "ring_put i [] m = Some m"
| "ring_put i (b # bs) m = do { m \<leftarrow> buf_write m (i mod RING_CAP) b; ring_put (i + 1) bs m }"

definition in_redirect :: "curl_ctx \<Rightarrow> bool" where
  "in_redirect t \<longleftrightarrow> 300 \<le> sint (header_block_status t) \<and> sint (header_block_status t) < 400"

definition on_body :: "bytes \<Rightarrow> curl_ctx \<Rightarrow> (nat \<times> curl_ctx) option" where
  "on_body chunk t =
     (let n = length chunk in
      if in_redirect t then Some (n, t)
      else
        (let t = t\<lparr>body_started := True\<rparr> in
         if n > RING_CAP - r_len t then Some (CURL_WRITEFUNC_PAUSE, t\<lparr>paused := True\<rparr>)
         else do {
           m \<leftarrow> ring_put (r_head t + r_len t) chunk (ring t);
           Some (n, t\<lparr>ring := m, r_len := r_len t + n\<rparr>)
         }))"

text \<open>The digits at the start of a string, as a number.\<close>

definition leading_digits :: "bytes \<Rightarrow> bytes" where
  "leading_digits s = takeWhile (\<lambda>b. 48 \<le> b \<and> b \<le> 57) s"

definition number_of :: "bytes \<Rightarrow> nat" where
  "number_of ds = foldl (\<lambda>n b. 10 * n + unat (b - 48)) 0 ds"

text \<open>The status of a status line; \<open>int\<close> arithmetic that overflows is undefined.\<close>

definition line_status :: "bytes \<Rightarrow> i32 option" where
  "line_status line = (case memchr line SPACE of
      None \<Rightarrow> Some 0
    | Some i \<Rightarrow>
        (let v = number_of (leading_digits (drop (i + 1) line)) in
         if v > INT_MAX then None else Some (of_nat v)))"

text \<open>
  \<open>strtol(p, NULL, 10)\<close> at a digit: the line has no NUL, so the digits must end before it
  does. The result saturates at \<open>LONG_MAX\<close>, and the cast to \<open>int32_t\<close> keeps its low 32 bits.
\<close>

definition strtol64 :: "bytes \<Rightarrow> nat option" where
  "strtol64 p = (if leading_digits p = p then None else Some (min (2 ^ 63 - 1) (number_of (leading_digits p))))"

definition on_header :: "bytes \<Rightarrow> curl_ctx \<Rightarrow> (nat \<times> curl_ctx) option" where
  "on_header line t =
     (let n = length line in
      if n > 5 \<and> take 5 line = bytes_of ''HTTP/'' then do {
        st \<leftarrow> line_status line;
        Some (n, t\<lparr>cu_retry_after_s := -1, headers_done := False, header_block_status := st\<rparr>)
      }
      else if n \<le> 2 then
        Some (n, if sint (header_block_status t) \<ge> 200 then t\<lparr>headers_done := True\<rparr> else t)
      else if n > 12 \<and> strncasecmp_prefix line (bytes_of ''retry-after:'') then
        (let p = dropWhile (\<lambda>b. b = SPACE) (drop 12 line) in
         if p \<noteq> [] \<and> 48 \<le> hd p \<and> hd p \<le> 57 then do {
           v \<leftarrow> strtol64 p;
           Some (n, t\<lparr>cu_retry_after_s := of_nat v\<rparr>)
         } else Some (n, t))
      else Some (n, t))"

text \<open>A libcurl call with its callbacks.\<close>

primrec run_curl :: "'r curl_run \<Rightarrow> curl_ctx \<Rightarrow> ('r \<times> curl_ctx) option" where
  "run_curl (Finished r) t = Some (r, t)"
| "run_curl (CallBody b k) t = (case on_body b t of None \<Rightarrow> None | Some x \<Rightarrow> run_curl (k (fst x)) (snd x))"
| "run_curl (CallHeader l k) t = (case on_header l t of None \<Rightarrow> None | Some x \<Rightarrow> run_curl (k (fst x)) (snd x))"

section \<open>The pump\<close>

definition resume_transfer :: "'x curl_api \<Rightarrow> 'x curl_sys \<Rightarrow> 'x curl_sys option" where
  "resume_transfer api w =
     (if paused (cctx w) \<and> r_len (cctx w) < RING_CAP div 2 then do {
        (x, t) \<leftarrow> run_curl (cu_unpause api (clib w)) ((cctx w)\<lparr>paused := False\<rparr>);
        Some (w\<lparr>cctx := t, clib := x\<rparr>)
      } else Some w)"

definition harvest :: "(bool \<times> i32) list \<Rightarrow> curl_ctx \<Rightarrow> curl_ctx" where
  "harvest ms t = foldl (\<lambda>t (is_done, r). if is_done then t\<lparr>transfer_done := True, transfer_result := r\<rparr> else t) t ms"

text \<open>Whether it succeeded, and whether a stop was requested while it waited.\<close>

definition pump :: "'x curl_api \<Rightarrow> i32 \<Rightarrow> 'x curl_sys \<Rightarrow> (bool \<times> bool \<times> 'x curl_sys) option" where
  "pump api wait_ms w = do {
     w \<leftarrow> resume_transfer api w;
     let (r, stopped, x) = cu_wait api (clib w) wait_ms;
     if r \<noteq> CURLM_OK then Some (False, stopped, w\<lparr>clib := x\<rparr>)
     else do {
       ((r, x), t) \<leftarrow> run_curl (cu_perform api x) (cctx w);
       if r \<noteq> CURLM_OK then Some (False, stopped, w\<lparr>cctx := t, clib := x\<rparr>)
       else (let (ms, x) = cu_messages api x in
             Some (True, stopped, w\<lparr>cctx := harvest ms t, clib := x\<rparr>))
     }
   }"

section \<open>Open\<close>

definition same_origin :: "'x curl_api \<Rightarrow> 'x \<Rightarrow> bytes \<Rightarrow> bytes \<Rightarrow> bool" where
  "same_origin api x a b = (case (cu_url_parts api x a, cu_url_parts api x b) of
      (Some (sa, ha, pa), Some (sb, hb, pb)) \<Rightarrow> strcasecmp_eq sa sb \<and> strcasecmp_eq ha hb \<and> pa = pb
    | _ \<Rightarrow> False)"

definition teardown :: "'x curl_api \<Rightarrow> 'x curl_sys \<Rightarrow> 'x curl_sys" where
  "teardown api w =
     (let t = cctx w; x = clib w;
          x = (if easy t \<and> multi t then cu_remove_handle api x else x);
          x = (if easy t then cu_easy_cleanup api x else x);
          x = (if multi t then cu_multi_cleanup api x else x);
          x = (if hdrs t \<noteq> [] then cu_slist_free api x else x)
      in w\<lparr>cctx := blank_ctx, clib := x\<rparr>)"

text \<open>The loop over the NULL-terminated request headers; \<open>False\<close> if an append failed.\<close>

fun append_headers :: "'x curl_api \<Rightarrow> bytes option list \<Rightarrow> 'x curl_sys \<Rightarrow> (bool \<times> 'x curl_sys) option" where
  "append_headers api [] w = None"
| "append_headers api (None # hs) w = Some (True, w)"
| "append_headers api (Some h # hs) w =
     (let (ok, x) = cu_slist_append api (clib w) h in
      if \<not> ok then Some (False, teardown api (w\<lparr>clib := x\<rparr>))
      else append_headers api hs (w\<lparr>clib := x, cctx := (cctx w)\<lparr>hdrs := hdrs (cctx w) @ [h]\<rparr>\<rparr>))"

definition headers_ready :: "curl_ctx \<Rightarrow> bool" where
  "headers_ready t \<longleftrightarrow> headers_done t \<or> body_started t \<or> transfer_done t"

text \<open>
  The two timed waits: pump until \<open>ready\<close> or until the time is up, from \<open>start\<close>. \<open>False\<close>
  means that a pump failed.
\<close>

partial_function (option) wait_for ::
  "'x curl_api \<Rightarrow> (curl_ctx \<Rightarrow> bool) \<Rightarrow> u32 \<Rightarrow> 'x curl_sys \<Rightarrow> (bool \<times> 'x curl_sys) option" where
  "wait_for api ready start w =
     (if ready (cctx w) then Some (True, w)
      else
        (let (t, x) = sse_now_ms_posix api (clib w); w = w\<lparr>clib := x\<rparr> in
         if t - start < OPEN_TIMEOUT_MS then do {
           (ok, _, w) \<leftarrow> pump api 100 w;
           if ok then wait_for api ready start w else Some (False, w)
         } else Some (True, w)))"

text \<open>One wait, with the failures that end the open: a failed pump and a stall.\<close>

definition timed_wait :: "'x curl_api \<Rightarrow> (curl_ctx \<Rightarrow> bool) \<Rightarrow> 'x curl_sys \<Rightarrow> (bool \<times> 'x curl_sys) option" where
  "timed_wait api ready w = do {
     let (start, x) = sse_now_ms_posix api (clib w);
     (ok, w) \<leftarrow> wait_for api ready start (w\<lparr>clib := x\<rparr>);
     if \<not> ok \<or> \<not> ready (cctx w) then Some (False, teardown api w) else Some (True, w)
   }"

text \<open>The URL of the next hop, if the redirect may be followed.\<close>

definition redirect_target :: "'x curl_api \<Rightarrow> 'x \<Rightarrow> bytes option" where
  "redirect_target api x = (case (cu_redirect_url api x, cu_effective_url api x) of
      (Some redir, Some current) \<Rightarrow> if same_origin api x current redir then Some redir else None
    | _ \<Rightarrow> None)"

definition next_hop :: "'x curl_api \<Rightarrow> bytes \<Rightarrow> 'x curl_sys \<Rightarrow> 'x curl_sys" where
  "next_hop api redir w =
     w\<lparr>cctx := (cctx w)\<lparr>r_head := 0, r_len := 0, body_started := False, headers_done := False,
         transfer_done := False, transfer_result := CURLE_OK, paused := False, header_block_status := 0,
         cu_retry_after_s := -1\<rparr>,
       clib := cu_add_handle api (cu_set_url api (cu_remove_handle api (clib w)) redir)\<rparr>"

text \<open>The loop over redirect hops: \<open>False\<close> when the open failed, the context torn down.\<close>

function curl_hops :: "'x curl_api \<Rightarrow> nat \<Rightarrow> 'x curl_sys \<Rightarrow> (bool \<times> 'x curl_sys) option" where
  "curl_hops api hops w = do {
     (ok, w) \<leftarrow> timed_wait api headers_ready w;
     if \<not> ok then Some (False, w)
     else if transfer_done (cctx w) \<and> transfer_result (cctx w) \<noteq> CURLE_OK \<and>
             \<not> headers_done (cctx w) \<and> \<not> body_started (cctx w) then Some (False, teardown api w)
     else if \<not> in_redirect (cctx w) then Some (True, w)
     else do {
       (ok, w) \<leftarrow> timed_wait api transfer_done w;
       if \<not> ok then Some (False, w)
       else if hops \<ge> MAX_REDIRECT_HOPS then Some (True, w)
       else (case redirect_target api (clib w) of
               None \<Rightarrow> Some (True, w)
             | Some redir \<Rightarrow> curl_hops api (hops + 1) (next_hop api redir w))
     }
   }"
  by pat_completeness auto
termination
  by (relation "measure (\<lambda>(api, hops, w). MAX_REDIRECT_HOPS - hops)") auto

declare curl_hops.simps [simp del]

definition curl_open_fn ::
  "'x curl_api \<Rightarrow> 'x curl_sys \<Rightarrow> sse_request \<Rightarrow> sse_response_info \<Rightarrow>
   (i32 \<times> sse_response_info \<times> 'x curl_sys) option" where
  "curl_open_fn api w req out = do {
     let w = teardown api w;
     let (e, x) = cu_easy_init api (clib w);
     let (m, x) = cu_multi_init api x;
     let w = w\<lparr>cctx := (cctx w)\<lparr>easy := e, multi := m\<rparr>, clib := x\<rparr>;
     if \<not> e \<or> \<not> m then Some (-1, out, teardown api w)
     else do {
       (ok, w) \<leftarrow> append_headers api (req_headers req) w;
       if \<not> ok then Some (-1, out, w)
       else do {
         let x = cu_set_options api (cu_set_url api (clib w) (req_url req)) (hdrs (cctx w));
         (ok, w) \<leftarrow> curl_hops api 0 (w\<lparr>clib := cu_add_handle api x\<rparr>);
         if \<not> ok then Some (-1, out, w)
         else do {
           let ct = (case cu_content_type api (clib w) of None \<Rightarrow> [] | Some c \<Rightarrow> c);
           m \<leftarrow> snprintf_to (content_type out) 64 ct;
           Some (0, out\<lparr>status_code := cu_response_code api (clib w), content_type := m,
                        retry_after_s := cu_retry_after_s (cctx w)\<rparr>, w)
         }
       }
     }
   }"

section \<open>Read and close\<close>

fun ring_get :: "nat \<Rightarrow> nat \<Rightarrow> bytes \<Rightarrow> bytes option" where
  "ring_get i 0 m = Some []"
| "ring_get i (Suc n) m = do { b \<leftarrow> buf_read m (i mod RING_CAP); bs \<leftarrow> ring_get (i + 1) n m; Some (b # bs) }"

text \<open>What a read with nothing buffered returns once the transfer is over.\<close>

definition end_code :: "curl_ctx \<Rightarrow> i32" where
  "end_code t = (if transfer_result t = CURLE_OK then SSE_READ_EOF else SSE_READ_ERROR)"

text \<open>The part of \<open>read\<close> that copies out of the ring.\<close>

definition drain :: "'x curl_api \<Rightarrow> bytes \<Rightarrow> nat \<Rightarrow> 'x curl_sys \<Rightarrow> (i32 \<times> bytes \<times> 'x curl_sys) option" where
  "drain api buf len w = do {
     let t = cctx w;
     let n = min (r_len t) len;
     d \<leftarrow> ring_get (r_head t) n (ring t);
     m \<leftarrow> memcpy buf d n;
     w \<leftarrow> resume_transfer api (w\<lparr>cctx := t\<lparr>r_head := (r_head t + n) mod RING_CAP, r_len := r_len t - n\<rparr>\<rparr>);
     Some (of_nat n, m, w)
   }"

definition curl_read_fn ::
  "'x curl_api \<Rightarrow> 'x curl_sys \<Rightarrow> bytes \<Rightarrow> nat \<Rightarrow> u32 \<Rightarrow> (i32 \<times> bytes \<times> bool \<times> 'x curl_sys) option" where
  "curl_read_fn api w buf len timeout_ms =
     (if r_len (cctx w) = 0 then
        (if transfer_done (cctx w) then Some (end_code (cctx w), buf, False, w)
         else do {
           (ok, stopped, w) \<leftarrow> pump api timeout_ms w;
           if \<not> ok then Some (SSE_READ_ERROR, buf, stopped, w)
           else if r_len (cctx w) = 0 then
             Some (if transfer_done (cctx w) then end_code (cctx w) else SSE_READ_TIMEOUT, buf, stopped, w)
           else do { (r, m, w) \<leftarrow> drain api buf len w; Some (r, m, stopped, w) }
         })
      else do { (r, m, w) \<leftarrow> drain api buf len w; Some (r, m, False, w) })"

definition curl_close_fn :: "'x curl_api \<Rightarrow> 'x curl_sys \<Rightarrow> 'x curl_sys option" where
  "curl_close_fn api w = Some (teardown api w)"

definition sse_transport_curl :: "'x curl_api \<Rightarrow> 'x curl_sys sse_transport" where
  "sse_transport_curl api =
     \<lparr>tr_open = Some (curl_open_fn api), tr_read = Some (curl_read_fn api), tr_close = Some (curl_close_fn api)\<rparr>"

text \<open>
  The constructor, given whether its two allocations succeed, and the destructor, whose
  argument may be NULL.
\<close>

definition sse_transport_curl_new :: "bool \<Rightarrow> bool \<Rightarrow> 'x curl_api \<Rightarrow> ('x curl_sys sse_transport \<times> curl_ctx) option" where
  "sse_transport_curl_new got_tr got_ctx api =
     (if \<not> got_tr \<or> \<not> got_ctx then None else Some (sse_transport_curl api, blank_ctx))"

definition sse_transport_curl_free :: "'x curl_api \<Rightarrow> 'x curl_sys sse_transport option \<Rightarrow> 'x curl_sys \<Rightarrow> 'x curl_sys" where
  "sse_transport_curl_free api t w = (if t = None then w else teardown api w)"

end
