(* ===== verification/Curl_Safety.thy ===== *)
theory Curl_Safety
  imports Curl_Transport Sse_Client_Safety
begin

text \<open>
  The POSIX transport's ring buffer is a bounded queue, its waits end, and with a libcurl
  that keeps its documented promises it honours the contract the client relies on.
\<close>

section \<open>The ring as a queue\<close>

definition ring_view :: "bytes \<Rightarrow> nat \<Rightarrow> nat \<Rightarrow> bytes" where
  "ring_view m i n = map (\<lambda>k. m ! ((i + k) mod RING_CAP)) [0..<n]"

lemma ring_cap_pos [simp]: "0 < RING_CAP"
  by (simp add: RING_CAP_def)

lemma ring_view_simps [simp]: "ring_view m i 0 = []" "length (ring_view m i n) = n"
  by (simp_all add: ring_view_def)

lemma ring_view_Suc: "ring_view m i (Suc n) = ring_view m i n @ [m ! ((i + n) mod RING_CAP)]"
  by (simp add: ring_view_def)

lemma ring_view_add: "ring_view m i (a + b) = ring_view m i a @ ring_view m (i + a) b"
  by (induction b) (simp_all add: ring_view_Suc add.assoc)

lemma ring_view_mod: "ring_view m (i mod RING_CAP) n = ring_view m i n"
  by (simp add: ring_view_def mod_simps)

lemma slots_differ: "k < l \<Longrightarrow> l < RING_CAP \<Longrightarrow> (h + l) mod RING_CAP \<noteq> (h + k) mod RING_CAP"
proof
  assume kl: "k < l" "l < RING_CAP" and eq: "(h + l) mod RING_CAP = (h + k) mod RING_CAP"
  then have "RING_CAP dvd l - k" using mod_eq_dvd_iff_nat [of "h + k" "h + l" RING_CAP] by simp
  then show False using kl by (auto dest: dvd_imp_le)
qed

lemma ring_put_view:
  "length m = RING_CAP \<Longrightarrow> l + length bs \<le> RING_CAP \<Longrightarrow>
   \<exists>m'. ring_put (h + l) bs m = Some m' \<and> length m' = RING_CAP \<and>
     ring_view m' h (l + length bs) = ring_view m h l @ bs"
proof (induction bs arbitrary: l m)
  case (Cons b bs)
  let ?i = "(h + l) mod RING_CAP"
  let ?m = "m[?i := b]"
  have i: "?i < length m" using Cons.prems(1) by simp
  have "ring_view ?m h l = ring_view m h l"
    using slots_differ [of _ l h] Cons.prems(2)
    by (auto simp: ring_view_def intro!: nth_list_update_neq)
  then have v: "ring_view ?m h (Suc l) = ring_view m h l @ [b]" using i by (simp add: ring_view_Suc)
  have "length ?m = RING_CAP" "Suc l + length bs \<le> RING_CAP" using Cons.prems by simp_all
  from Cons.IH [OF this] v show ?case using i by (auto simp: buf_write_def)
qed simp

lemma ring_get_view: "length m = RING_CAP \<Longrightarrow> ring_get i n m = Some (ring_view m i n)"
proof (induction n arbitrary: i)
  case (Suc n)
  have "ring_view m i (1 + n) = ring_view m i 1 @ ring_view m (i + 1) n" by (rule ring_view_add)
  then show ?case using Suc by (simp add: buf_read_def ring_view_Suc)
qed simp

text \<open>The queue a context holds.\<close>

definition queue :: "curl_ctx \<Rightarrow> bytes" where
  "queue t = ring_view (ring t) (r_head t) (r_len t)"

definition cctx_ok :: "curl_ctx \<Rightarrow> bool" where
  "cctx_ok t \<longleftrightarrow> length (ring t) = RING_CAP \<and> r_head t < RING_CAP \<and> r_len t \<le> RING_CAP"

lemma length_queue [simp]: "length (queue t) = r_len t"
  by (simp add: queue_def)

lemma cctx_ok_upd [simp]:
  "cctx_ok (t\<lparr>paused := b\<rparr>) = cctx_ok t" "cctx_ok (t\<lparr>body_started := b\<rparr>) = cctx_ok t"
  "cctx_ok (t\<lparr>headers_done := b\<rparr>) = cctx_ok t" "cctx_ok (t\<lparr>header_block_status := n\<rparr>) = cctx_ok t"
  "cctx_ok (t\<lparr>cu_retry_after_s := n\<rparr>) = cctx_ok t" "cctx_ok (t\<lparr>transfer_done := b\<rparr>) = cctx_ok t"
  "cctx_ok (t\<lparr>transfer_result := n\<rparr>) = cctx_ok t" "cctx_ok (t\<lparr>easy := b\<rparr>) = cctx_ok t"
  "cctx_ok (t\<lparr>multi := b\<rparr>) = cctx_ok t" "cctx_ok (t\<lparr>hdrs := hs\<rparr>) = cctx_ok t"
  by (simp_all add: cctx_ok_def)

lemma blank_ok [simp]: "cctx_ok blank_ctx" "\<not> easy blank_ctx" "\<not> multi blank_ctx" "hdrs blank_ctx = []"
  by (simp_all add: cctx_ok_def blank_ctx_def)

text \<open>What a delivery of body bytes does: discarded, refused with a pause, or appended.\<close>

lemma on_body_queue:
  assumes "cctx_ok t"
  shows "\<exists>n t'. on_body chunk t = Some (n, t') \<and> cctx_ok t' \<and> easy t' = easy t \<and> multi t' = multi t \<and> hdrs t' = hdrs t \<and>
    (if in_redirect t then n = length chunk \<and> t' = t
     else if length (queue t) + length chunk \<le> RING_CAP then n = length chunk \<and> queue t' = queue t @ chunk \<and> paused t' = paused t
     else n = CURL_WRITEFUNC_PAUSE \<and> queue t' = queue t \<and> paused t')"
proof (cases "in_redirect t")
  case True
  then show ?thesis using assms by (simp add: on_body_def)
next
  case notr: False
  show ?thesis
  proof (cases "length (queue t) + length chunk \<le> RING_CAP")
    case True
    then obtain m where m: "ring_put (r_head t + r_len t) chunk (ring t) = Some m" "length m = RING_CAP"
      "ring_view m (r_head t) (r_len t + length chunk) = queue t @ chunk"
      using ring_put_view [of "ring t" "r_len t" chunk "r_head t"] assms by (auto simp: cctx_ok_def queue_def)
    moreover from True have "\<not> RING_CAP - r_len t < length chunk" by simp
    ultimately show ?thesis
      using True notr assms by (simp add: on_body_def Let_def cctx_ok_def queue_def)
  next
    case False
    then have "RING_CAP - r_len t < length chunk" using assms by (simp add: cctx_ok_def less_diff_conv2)
    then show ?thesis using False notr assms by (simp add: on_body_def Let_def queue_def cctx_ok_def)
  qed
qed

section \<open>What libcurl promises\<close>

text \<open>
  Header lines are passed whole, with their line end, and a status line has a status of
  at most three digits. Time, in nanoseconds \<open>ticks\<close>, never goes back; every reading of the
  clock takes at least one, and no single call more than 2^28 milliseconds. A
  \<open>curl_multi_wait\<close> is only bounded for the 100 milliseconds \<open>open\<close> uses.
\<close>

definition header_line_ok :: "bytes \<Rightarrow> bool" where
  "header_line_ok l \<longleftrightarrow> l \<noteq> [] \<and> last l = LF \<and>
     (\<forall>i. memchr l SPACE = Some i \<longrightarrow> take 5 l = bytes_of ''HTTP/'' \<longrightarrow> length (leading_digits (drop (i + 1) l)) \<le> 3)"

primrec run_all :: "(bytes \<Rightarrow> bool) \<Rightarrow> ('r \<Rightarrow> bool) \<Rightarrow> 'r curl_run \<Rightarrow> bool" where
  "run_all H Q (Finished r) = Q r"
| "run_all H Q (CallBody b k) = (\<forall>n. run_all H Q (k n))"
| "run_all H Q (CallHeader l k) = (H l \<and> (\<forall>n. run_all H Q (k n)))"

definition NS :: nat where "NS = 1000000"

definition passes :: "('x \<Rightarrow> nat) \<Rightarrow> 'x \<Rightarrow> 'x \<Rightarrow> bool" where
  "passes ticks x y \<longleftrightarrow> ticks x \<le> ticks y \<and> ticks y \<le> ticks x + NS * 2 ^ 28"

definition curl_laws :: "'x curl_api \<Rightarrow> ('x \<Rightarrow> nat) \<Rightarrow> bool" where
  "curl_laws api ticks \<longleftrightarrow>
     (\<forall>x. fst (cu_clock api x) = (of_nat (ticks x div 1000000000), of_nat (ticks x mod 1000000000)) \<and>
          ticks x < ticks (snd (cu_clock api x)) \<and> passes ticks x (snd (cu_clock api x)) \<and>
          run_all header_line_ok (passes ticks x) (cu_unpause api x) \<and>
          passes ticks x (snd (snd (cu_wait api x 100))) \<and>
          run_all header_line_ok (\<lambda>r. passes ticks x (snd r)) (cu_perform api x) \<and>
          passes ticks x (snd (cu_messages api x)))"

lemma NS_pos [simp]: "0 < NS"
  by (simp add: NS_def)

lemma ucast_of_nat_u64: "ucast (of_nat m :: u64) = (of_nat m :: u32)"
  by transfer simp

lemma ms_of_clock:
  "ucast (of_nat (t div 1000000000) * 1000 + of_nat (t mod 1000000000) div 1000000 :: u64) = (of_nat (t div NS) :: u32)"
proof -
  have small: "unat (of_nat n :: u64) = n" if "n < 1000000000" for n
    using that by (simp add: unat_of_nat)
  have "t mod 1000000000 < 1000000000" "t mod 1000000000 div NS < 1000000000"
    by simp_all (simp add: NS_def less_mult_imp_div_less)
  then have "of_nat (t mod 1000000000) div (1000000 :: u64) = of_nat (t mod 1000000000 div NS)"
    by (simp add: word_unat_eq_iff unat_div small NS_def)
  then have "of_nat (t div 1000000000) * 1000 + of_nat (t mod 1000000000) div 1000000 = (of_nat ((t div 1000000000) * 1000 + t mod 1000000000 div NS) :: u64)"
    by simp
  moreover have "(t mod 1000000000 + ((t div 1000000000) * 1000) * NS) div NS = (t div 1000000000) * 1000 + t mod 1000000000 div NS"
    by (rule div_mult_self1) (simp add: NS_def)
  moreover have "t mod 1000000000 + ((t div 1000000000) * 1000) * NS = t"
    using div_mult_mod_eq [of t 1000000000] by (simp only: NS_def)
  ultimately show ?thesis by (simp only: ucast_of_nat_u64)
qed

lemma clock_laws:
  assumes "curl_laws api ticks" and "sse_now_ms_posix api x = (now, y)"
  shows "now = of_nat (ticks x div NS)" "ticks x < ticks y" "passes ticks x y"
proof -
  obtain s n where c: "cu_clock api x = ((s, n), y)" "now = ucast (s * 1000 + n div 1000000)"
    using assms(2) by (cases "cu_clock api x") (auto simp: sse_now_ms_posix_def Let_def)
  have "fst (cu_clock api x) = (of_nat (ticks x div 1000000000), of_nat (ticks x mod 1000000000))"
    "ticks x < ticks (snd (cu_clock api x))" "passes ticks x (snd (cu_clock api x))"
    using assms(1) unfolding curl_laws_def by blast+
  then show "now = of_nat (ticks x div NS)" "ticks x < ticks y" "passes ticks x y"
    using c by (simp_all add: ms_of_clock)
qed

section \<open>The callbacks\<close>

lemma number_of_digits:
  "(\<And>b. b \<in> set ds \<Longrightarrow> 48 \<le> b \<and> b \<le> 57) \<Longrightarrow>
   foldl (\<lambda>n b. 10 * n + unat (b - 48 :: u8)) n ds < (n + 1) * 10 ^ length ds"
proof (induction ds arbitrary: n)
  case (Cons b ds)
  have "48 \<le> b \<and> b \<le> 57" using Cons.prems by simp
  then have "unat (b - 48) = unat b - 48" and "unat b \<le> 57" by (simp_all add: word_le_nat_alt unat_sub)
  then have "unat (b - 48) \<le> 9" by linarith
  then have "10 * n + unat (b - 48) + 1 \<le> (n + 1) * 10" by simp
  then have "(10 * n + unat (b - 48) + 1) * 10 ^ length ds \<le> ((n + 1) * 10) * 10 ^ length ds"
    by (rule mult_le_mono1)
  moreover have "foldl (\<lambda>n b. 10 * n + unat (b - 48)) (10 * n + unat (b - 48)) ds < (10 * n + unat (b - 48) + 1) * 10 ^ length ds"
    using Cons.prems by (intro Cons.IH) simp
  ultimately have "foldl (\<lambda>n b. 10 * n + unat (b - 48)) (10 * n + unat (b - 48)) ds < ((n + 1) * 10) * 10 ^ length ds"
    by (rule less_le_trans [rotated])
  moreover have "((n + 1) * 10) * 10 ^ length ds = (n + 1) * 10 ^ length (b # ds)"
    by (simp only: length_Cons power_Suc mult.assoc)
  ultimately show ?case by (simp only: foldl_Cons)
qed simp

lemma number_of_bound: "number_of (leading_digits s) < 10 ^ length (leading_digits s)"
proof -
  have "48 \<le> b \<and> b \<le> 57" if "b \<in> set (leading_digits s)" for b
    using set_takeWhileD [OF that [unfolded leading_digits_def]] by (rule conjunct2)
  from number_of_digits [of "leading_digits s" 0, OF this] show ?thesis by (simp add: number_of_def)
qed

lemma line_status_total:
  assumes "header_line_ok l" and "take 5 l = bytes_of ''HTTP/''"
  shows "returns (line_status l) (\<lambda>_. True)"
proof -
  have "number_of (leading_digits (drop (i + 1) l)) \<le> INT_MAX" if "memchr l SPACE = Some i" for i
  proof -
    have "length (leading_digits (drop (i + 1) l)) \<le> 3" using assms that by (auto simp: header_line_ok_def)
    then have "(10::nat) ^ length (leading_digits (drop (i + 1) l)) \<le> 10 ^ 3" by (rule power_increasing) simp
    with number_of_bound [of "drop (i + 1) l"] have "number_of (leading_digits (drop (i + 1) l)) < 10 ^ 3"
      by (rule less_le_trans)
    then show ?thesis by (simp add: INT_MAX_def)
  qed
  then show ?thesis by (cases "memchr l SPACE") (simp_all add: line_status_def Let_def not_less)
qed

lemma dropWhile_nonempty_last: "dropWhile P xs \<noteq> [] \<Longrightarrow> last (dropWhile P xs) = last xs"
  by (induction xs) (auto split: if_splits)

lemma strtol64_total:
  assumes "header_line_ok l" and "dropWhile (\<lambda>b. b = SPACE) (drop 12 l) \<noteq> []"
  shows "returns (strtol64 (dropWhile (\<lambda>b. b = SPACE) (drop 12 l))) (\<lambda>_. True)"
proof -
  let ?p = "dropWhile (\<lambda>b. b = SPACE) (drop 12 l)"
  have "drop 12 l \<noteq> []" using assms(2) by auto
  then have "last ?p = LF" using assms by (simp add: dropWhile_nonempty_last header_line_ok_def)
  moreover have "last ?p \<in> set ?p" using assms(2) by (rule last_in_set)
  ultimately have "LF \<in> set ?p" by simp
  moreover have "LF \<notin> set (leading_digits ?p)"
    by (auto simp: leading_digits_def LF_def dest: set_takeWhileD)
  ultimately have "leading_digits ?p \<noteq> ?p" by metis
  then show ?thesis by (simp add: strtol64_def)
qed

text \<open>What a callback never touches.\<close>

definition same_handles :: "curl_ctx \<Rightarrow> curl_ctx \<Rightarrow> bool" where
  "same_handles t t' \<longleftrightarrow> easy t' = easy t \<and> multi t' = multi t \<and> hdrs t' = hdrs t"

lemma same_handles_refl [simp]: "same_handles t t"
  by (simp add: same_handles_def)

lemma same_handles_trans: "same_handles t u \<Longrightarrow> same_handles u v \<Longrightarrow> same_handles t v"
  by (simp add: same_handles_def)

lemma on_body_ok: "cctx_ok t \<Longrightarrow> returns (on_body b t) (\<lambda>(n, t'). cctx_ok t' \<and> same_handles t t')"
  using on_body_queue [of t b] by (auto simp: same_handles_def)

lemma on_header_ok:
  assumes "header_line_ok l" and "cctx_ok t"
  shows "returns (on_header l t) (\<lambda>(n, t'). cctx_ok t' \<and> same_handles t t' \<and> queue t' = queue t)"
proof -
  have q: "queue (t\<lparr>cu_retry_after_s := a\<rparr>) = queue t" "queue (t\<lparr>headers_done := b\<rparr>) = queue t"
    "queue (t\<lparr>cu_retry_after_s := a, headers_done := b, header_block_status := c\<rparr>) = queue t" for a b c
    by (simp_all add: queue_def)
  consider (status) "5 < length l \<and> take 5 l = bytes_of ''HTTP/''"
    | (blank) "\<not> (5 < length l \<and> take 5 l = bytes_of ''HTTP/'')" "length l \<le> 2"
    | (field) "\<not> (5 < length l \<and> take 5 l = bytes_of ''HTTP/'')" "2 < length l" by linarith
  then show ?thesis
  proof cases
    case status
    then show ?thesis using line_status_total [OF assms(1)] assms(2) q
      by (auto simp: on_header_def Let_def same_handles_def returns_iff)
  next
    case blank
    then show ?thesis using assms(2) q by (auto simp: on_header_def Let_def same_handles_def)
  next
    case field
    let ?p = "dropWhile (\<lambda>b. b = SPACE) (drop 12 l)"
    have "\<exists>v. strtol64 ?p = Some v" if "?p \<noteq> []"
      using strtol64_total [OF assms(1) that] by (simp only: returns_iff) blast
    then show ?thesis using field assms(2) q
      by (cases "?p = []") (auto simp: on_header_def Let_def same_handles_def simp del: dropWhile_eq_Nil_conv)
  qed
qed

lemma run_curl_ok:
  "run_all header_line_ok Q r \<Longrightarrow> cctx_ok t \<Longrightarrow>
   returns (run_curl r t) (\<lambda>(v, t'). Q v \<and> cctx_ok t' \<and> same_handles t t')"
proof (induction r arbitrary: t)
  case (CallBody b k)
  then obtain n t' where t': "on_body b t = Some (n, t')" "cctx_ok t'" "same_handles t t'"
    using on_body_ok [of t b] by (auto simp: returns_iff)
  have "returns (run_curl (k n) t') (\<lambda>(v, u). Q v \<and> cctx_ok u \<and> same_handles t' u)"
    using CallBody t'(2) by simp
  then show ?case using t' by (auto elim!: returns_mono intro: same_handles_trans)
next
  case (CallHeader l k)
  then obtain n t' where t': "on_header l t = Some (n, t')" "cctx_ok t'" "same_handles t t'"
    using on_header_ok [of l t] by (auto simp: returns_iff)
  have "returns (run_curl (k n) t') (\<lambda>(v, u). Q v \<and> cctx_ok u \<and> same_handles t' u)"
    using CallHeader t'(2) by simp
  then show ?case using t' by (auto elim!: returns_mono intro: same_handles_trans)
qed simp

section \<open>The pump and the waits\<close>

lemma harvest_ok [simp]: "cctx_ok (harvest ms t) = cctx_ok t" "same_handles u (harvest ms t) = same_handles u t"
proof -
  have "cctx_ok (harvest ms t) = cctx_ok t \<and> same_handles u (harvest ms t) = same_handles u t"
    by (induction ms arbitrary: t) (simp_all add: harvest_def same_handles_def split: prod.split)
  then show "cctx_ok (harvest ms t) = cctx_ok t" "same_handles u (harvest ms t) = same_handles u t" by simp_all
qed

lemma resume_ok:
  assumes "curl_laws api ticks" and "cctx_ok (cctx w)"
  shows "returns (resume_transfer api w) (\<lambda>w'. cctx_ok (cctx w') \<and> same_handles (cctx w) (cctx w') \<and>
     passes ticks (clib w) (clib w'))"
proof -
  have "run_all header_line_ok (passes ticks (clib w)) (cu_unpause api (clib w))"
    using assms(1) by (simp add: curl_laws_def)
  from run_curl_ok [OF this, of "(cctx w)\<lparr>paused := False\<rparr>"] assms(2)
  show ?thesis by (auto simp: resume_transfer_def same_handles_def passes_def elim!: returns_mono)
qed

lemma pump_ok:
  assumes laws: "curl_laws api ticks" and "cctx_ok (cctx w)"
  shows "returns (pump api ms w) (\<lambda>(ok, st, w'). cctx_ok (cctx w') \<and> same_handles (cctx w) (cctx w') \<and>
     (ms = 100 \<longrightarrow> ticks (clib w) \<le> ticks (clib w') \<and> ticks (clib w') \<le> ticks (clib w) + NS * 2 ^ 30))"
proof -
  obtain u where u: "resume_transfer api w = Some u" "cctx_ok (cctx u)" "same_handles (cctx w) (cctx u)"
      "passes ticks (clib w) (clib u)"
    using resume_ok [OF assms] by (auto simp: returns_iff)
  obtain r stp x where x: "cu_wait api (clib u) ms = (r, stp, x)" by (metis prod_cases3)
  have px: "ms = 100 \<longrightarrow> passes ticks (clib u) x" using laws x by (auto simp: curl_laws_def dest!: spec [of _ "clib u"])
  have "run_all header_line_ok (\<lambda>r. passes ticks x (snd r)) (cu_perform api x)"
    using laws by (simp add: curl_laws_def)
  from run_curl_ok [OF this u(2)] obtain q y t where y: "run_curl (cu_perform api x) (cctx u) = Some ((q, y), t)"
      "passes ticks x y" "cctx_ok t" "same_handles (cctx u) t"
    by (auto simp: returns_iff)
  obtain m z where z: "cu_messages api y = (m, z)" by (cases "cu_messages api y")
  have pz: "passes ticks y z" using laws z by (auto simp: curl_laws_def dest!: spec [of _ y])
  show ?thesis
    using u x y z px pz same_handles_trans [OF u(3) y(4)]
    by (auto simp: pump_def Let_def passes_def)
qed

text \<open>
  Elapsed time is computed in 32 bits. It is the true one as long as that is below 2^32
  milliseconds, which the bound on a single call keeps it.
\<close>

lemma elapsed_word:
  assumes "s \<le> c" and "c - s < 2 ^ 32"
  shows "unat (of_nat c - of_nat s :: u32) = c - s"
proof -
  have "of_nat c - of_nat s = (of_nat (c - s) :: u32)" using assms(1) by (simp add: of_nat_diff)
  then show ?thesis using assms(2) by (simp only: unat_of_nat) simp
qed

lemma tick_div_bound: "S \<le> c \<Longrightarrow> c \<le> S + res * k \<Longrightarrow> 0 < (res::nat) \<Longrightarrow> c div res - S div res \<le> k"
  using div_le_mono [of c "S + res * k" res] by simp

lemma tick_bound_div: "0 < (res::nat) \<Longrightarrow> c div res - S div res < k \<Longrightarrow> c < S + res * (k + 1)"
proof -
  assume r: "0 < res" and k: "c div res - S div res < k"
  have "c < res * (c div res + 1)" using r mod_less_divisor [OF r, of c] mult_div_mod_eq [of res c] by (simp only: distrib_left mult_1_right)
  also have "\<dots> \<le> res * (S div res + k)" using k by (intro mult_le_mono2) simp
  also have "\<dots> \<le> S + res * (k + 1)" by (simp add: distrib_left trans_le_add1)
  finally show ?thesis .
qed

lemma wait_for_ok:
  assumes laws: "curl_laws api ticks" and "cctx_ok (cctx w)"
    and "S \<le> ticks (clib w)" and "ticks (clib w) \<le> S + NS * 2 ^ 31"
  shows "returns (wait_for api ready (of_nat (S div NS)) w) (\<lambda>(ok, w'). cctx_ok (cctx w') \<and> same_handles (cctx w) (cctx w'))"
  using assms(2-)
proof (induction "S + NS * 30001 - ticks (clib w)" arbitrary: w rule: less_induct)
  case less
  obtain now x where x: "sse_now_ms_posix api (clib w) = (now, x)" by (cases "sse_now_ms_posix api (clib w)")
  note now = clock_laws [OF laws x]
  let ?e = "ticks (clib w) div NS - S div NS"
  have "?e \<le> 2 ^ 31" using tick_div_bound [OF less.prems(2,3) NS_pos] .
  then have e: "unat (now - of_nat (S div NS)) = ?e"
    using div_le_mono [OF less.prems(2), of NS] by (simp only: now(1)) (rule elapsed_word, simp_all)
  show ?case
  proof (cases "\<not> ready (cctx w) \<and> now - of_nat (S div NS) < OPEN_TIMEOUT_MS")
    case False
    then show ?thesis using less.prems x by (subst wait_for.simps) auto
  next
    case True
    then have "?e < 30000" using e by (simp add: word_less_nat_alt OPEN_TIMEOUT_MS_def)
    from tick_bound_div [OF NS_pos this] have lt: "ticks (clib w) < S + NS * 30001" by simp
    obtain ok stp u where u: "pump api 100 (w\<lparr>clib := x\<rparr>) = Some (ok, stp, u)" "cctx_ok (cctx u)"
        "same_handles (cctx w) (cctx u)" "ticks x \<le> ticks (clib u)" "ticks (clib u) \<le> ticks x + NS * 2 ^ 30"
      using pump_ok [OF laws, of "w\<lparr>clib := x\<rparr>" 100] less.prems(1) by (auto simp: returns_iff)
    have "S + NS * 30001 - ticks (clib u) < S + NS * 30001 - ticks (clib w)" "S \<le> ticks (clib u)"
      using lt now(2) u(4) less.prems(2) by linarith+
    moreover have "ticks (clib u) \<le> S + NS * 2 ^ 31"
      using lt now(3) u(5) by (simp add: passes_def)
    ultimately have "returns (wait_for api ready (of_nat (S div NS)) u)
        (\<lambda>(ok, w'). cctx_ok (cctx w') \<and> same_handles (cctx u) (cctx w'))"
      using u(2) by (intro less.hyps) simp_all
    then show ?thesis using True x u less.prems(1)
      by (subst wait_for.simps) (auto elim!: returns_mono intro: same_handles_trans)
  qed
qed

section \<open>Open, read and close\<close>

text \<open>The state between calls: handles exist exactly while a connection is open.\<close>

definition curl_T :: "'x curl_api \<Rightarrow> ('x \<Rightarrow> nat) \<Rightarrow> bool \<Rightarrow> 'x curl_sys \<Rightarrow> bool" where
  "curl_T api ticks b w \<longleftrightarrow> curl_laws api ticks \<and> cctx_ok (cctx w) \<and> easy (cctx w) = b \<and> multi (cctx w) = b"

lemma curl_T_same: "curl_T api ticks b w \<Longrightarrow> cctx_ok (cctx u) \<Longrightarrow> same_handles (cctx w) (cctx u) \<Longrightarrow> curl_T api ticks b u"
  by (simp add: curl_T_def same_handles_def)

lemma curl_T_lib [simp]: "curl_T api ticks b (w\<lparr>clib := x\<rparr>) = curl_T api ticks b w"
  by (simp add: curl_T_def)

lemma teardown_ctx [simp]: "cctx (teardown api w) = blank_ctx"
  by (simp add: teardown_def Let_def)

lemma teardown_T: "curl_T api ticks b w \<Longrightarrow> curl_T api ticks False (teardown api w)"
  by (simp add: curl_T_def)

lemma timed_wait_ok:
  assumes "curl_T api ticks True w"
  shows "returns (timed_wait api ready w) (\<lambda>(ok, w'). curl_T api ticks ok w' \<and> (ok \<longrightarrow> ready (cctx w')))"
proof -
  have laws: "curl_laws api ticks" and c: "cctx_ok (cctx w)" using assms by (simp_all add: curl_T_def)
  obtain start x where x: "sse_now_ms_posix api (clib w) = (start, x)" by (cases "sse_now_ms_posix api (clib w)")
  note now = clock_laws [OF laws x]
  then have "returns (wait_for api ready start (w\<lparr>clib := x\<rparr>)) (\<lambda>(ok, w'). cctx_ok (cctx w') \<and> same_handles (cctx w) (cctx w'))"
    using wait_for_ok [OF laws, of "w\<lparr>clib := x\<rparr>" "ticks (clib w)"] c by (simp add: passes_def)
  then obtain ok u where u: "wait_for api ready start (w\<lparr>clib := x\<rparr>) = Some (ok, u)" "curl_T api ticks True u"
    using curl_T_same [OF assms] by (auto simp: returns_iff)
  then show ?thesis using x teardown_T [OF u(2)] by (simp add: timed_wait_def)
qed

lemma next_hop_T: "curl_T api ticks b w \<Longrightarrow> curl_T api ticks b (next_hop api redir w)"
  by (simp add: curl_T_def next_hop_def cctx_ok_def)

lemma curl_hops_ok:
  "curl_T api ticks True w \<Longrightarrow> returns (curl_hops api hops w) (\<lambda>(ok, w'). curl_T api ticks ok w')"
proof (induction api hops w rule: curl_hops.induct)
  case (1 api hops w)
  obtain ok u where u: "timed_wait api headers_ready w = Some (ok, u)" "curl_T api ticks ok u"
    using timed_wait_ok [OF 1(2), of headers_ready] by (auto simp: returns_iff)
  show ?case
  proof (cases "ok \<and> \<not> (transfer_done (cctx u) \<and> transfer_result (cctx u) \<noteq> CURLE_OK \<and>
             \<not> headers_done (cctx u) \<and> \<not> body_started (cctx u)) \<and> in_redirect (cctx u)")
    case False
    then show ?thesis using u teardown_T [OF u(2)] by (subst curl_hops.simps) auto
  next
    case True
    then have "curl_T api ticks True u" using u(2) by simp
    from timed_wait_ok [OF this, of transfer_done] obtain ok' v
      where v: "timed_wait api transfer_done u = Some (ok', v)" "curl_T api ticks ok' v"
      by (auto simp: returns_iff)
    have "returns (curl_hops api (hops + 1) (next_hop api redir v)) (\<lambda>(ok, w'). curl_T api ticks ok w')"
      if "ok'" "\<not> hops \<ge> MAX_REDIRECT_HOPS" "redirect_target api (clib v) = Some redir" for redir
    proof (rule 1(1) [OF u(1) refl _ _ _ v(1) refl _ _ that(3)])
      show "curl_T api ticks True (next_hop api redir v)" using v(2) that(1) by (intro next_hop_T) simp
    qed (use True that in auto)
    then show ?thesis using u(1) True v by (subst curl_hops.simps) (auto split: option.split)
  qed
qed

lemma append_headers_ok:
  "null_terminated hs xs \<Longrightarrow> curl_T api ticks b w \<Longrightarrow>
   returns (append_headers api hs w) (\<lambda>(ok, w'). curl_T api ticks (ok \<and> b) w')"
proof (induction xs arbitrary: hs w)
  case Nil
  then show ?case by (cases hs) (auto simp: null_terminated_def)
next
  case (Cons h xs)
  then obtain hs' where hs: "hs = Some h # hs'" "null_terminated hs' xs"
    by (cases hs) (auto simp: null_terminated_def)
  obtain ok x where x: "cu_slist_append api (clib w) h = (ok, x)" by (cases "cu_slist_append api (clib w) h")
  have "curl_T api ticks b (w\<lparr>clib := x, cctx := (cctx w)\<lparr>hdrs := hdrs (cctx w) @ [h]\<rparr>\<rparr>)"
    using Cons.prems(2) by (simp add: curl_T_def)
  from Cons.IH [OF hs(2) this] show ?case
    using x hs(1) Cons.prems(2) by (auto simp: curl_T_def)
qed

lemma curl_open_ok:
  assumes "curl_T api ticks False w" and info: "info_wf i" and hs: "null_terminated (req_headers req) xs"
  shows "returns (curl_open_fn api w req i) (\<lambda>(r, i', w'). curl_T api ticks (r = 0) w' \<and> info_wf i')"
proof -
  let ?w = "teardown api w"
  obtain e x where e: "cu_easy_init api (clib ?w) = (e, x)" by (cases "cu_easy_init api (clib ?w)")
  obtain m y where m: "cu_multi_init api x = (m, y)" by (cases "cu_multi_init api x")
  let ?u = "?w\<lparr>cctx := blank_ctx\<lparr>easy := e, multi := m\<rparr>, clib := y\<rparr>"
  have laws: "curl_laws api ticks" using assms(1) by (simp add: curl_T_def)
  show ?thesis
  proof (cases "e \<and> m")
    case False
    then show ?thesis using e m laws info by (auto simp: curl_open_fn_def curl_T_def)
  next
    case True
    then have "curl_T api ticks True ?u" using laws by (simp add: curl_T_def)
    from append_headers_ok [OF hs this] obtain ok v
      where v: "append_headers api (req_headers req) ?u = Some (ok, v)" "curl_T api ticks ok v"
      by (auto simp: returns_iff)
    show ?thesis
    proof (cases ok)
      case False
      then show ?thesis using True e m v info by (simp add: curl_open_fn_def)
    next
      case ok: True
      let ?v = "v\<lparr>clib := cu_add_handle api (cu_set_options api (cu_set_url api (clib v) (req_url req)) (hdrs (cctx v)))\<rparr>"
      have "curl_T api ticks True ?v" using v(2) ok by simp
      from curl_hops_ok [OF this, of 0] obtain r z
        where "curl_hops api 0 ?v = Some (r, z)" "curl_T api ticks r z" by (auto simp: returns_iff)
      then show ?thesis
        using True e m v(1) ok info by (auto simp: curl_open_fn_def info_wf_def snprintf_to_def Let_def)
    qed
  qed
qed

lemma drain_ok:
  assumes "curl_T api ticks True w" and "len \<le> length m"
  shows "returns (drain api m len w) (\<lambda>(r, m', w'). curl_T api ticks True w' \<and> length m' = length m)"
proof -
  let ?t = "cctx w"
  let ?n = "min (r_len ?t) len"
  let ?u = "w\<lparr>cctx := ?t\<lparr>r_head := (r_head ?t + ?n) mod RING_CAP, r_len := r_len ?t - ?n\<rparr>\<rparr>"
  have c: "cctx_ok ?t" and laws: "curl_laws api ticks" using assms(1) by (simp_all add: curl_T_def)
  have "r_len ?t - ?n \<le> RING_CAP" using c by (intro le_trans [OF diff_le_self]) (simp add: cctx_ok_def)
  then have u: "cctx_ok (cctx ?u)" using c by (simp add: cctx_ok_def)
  have T: "curl_T api ticks True ?u" using assms(1) u by (simp add: curl_T_def)
  obtain v where "resume_transfer api ?u = Some v" "curl_T api ticks True v"
    using resume_ok [OF laws u] curl_T_same [OF T] by (auto simp: returns_iff)
  then show ?thesis using c assms(2) by (simp add: drain_def Let_def ring_get_view cctx_ok_def)
qed

lemma curl_read_ok:
  assumes "curl_T api ticks True w" and "len \<le> length m"
  shows "returns (curl_read_fn api w m len tmo) (\<lambda>(r, m', stopped, w'). curl_T api ticks True w' \<and> length m' = length m)"
proof -
  have c: "cctx_ok (cctx w)" and laws: "curl_laws api ticks" using assms(1) by (simp_all add: curl_T_def)
  obtain ok stp u where u: "pump api tmo w = Some (ok, stp, u)" "curl_T api ticks True u"
    using pump_ok [OF laws c, of tmo] curl_T_same [OF assms(1)] by (auto simp: returns_iff)
  obtain r1 m1 w1 where "drain api m len w = Some (r1, m1, w1)" "curl_T api ticks True w1" "length m1 = length m"
    using drain_ok [OF assms] by (auto simp: returns_iff)
  moreover obtain r2 m2 w2 where "drain api m len u = Some (r2, m2, w2)" "curl_T api ticks True w2" "length m2 = length m"
    using drain_ok [OF u(2) assms(2)] by (auto simp: returns_iff)
  ultimately show ?thesis using u assms(1) by (auto simp: curl_read_fn_def)
qed

lemma curl_close_ok: "curl_T api ticks True w \<Longrightarrow> returns (curl_close_fn api w) (curl_T api ticks False)"
  by (simp add: curl_close_fn_def teardown_T)

interpretation curl: sse_transport_contract "sse_transport_curl api" "curl_T api ticks" for api ticks
  by unfold_locales (auto simp: sse_transport_curl_def intro: curl_open_ok curl_read_ok curl_close_ok)

end
