(* ===== verification/Curl_Stream.thy ===== *)
theory Curl_Stream
  imports Curl_Safety Sse_Spec
begin

text \<open>
  What the POSIX transport makes of a response: its reads return the bytes libcurl
  delivered, in order and without loss, and a header block leaves the status, the end of
  headers and the retry delay in the context.
\<close>

section \<open>Body bytes\<close>

text \<open>The body bytes the transport takes over during a libcurl call.\<close>

primrec accepted :: "'r curl_run \<Rightarrow> curl_ctx \<Rightarrow> bytes" where
  "accepted (Finished r) t = []"
| "accepted (CallBody b k) t = (case on_body b t of None \<Rightarrow> []
     | Some (n, t') \<Rightarrow> (if n = length b \<and> \<not> in_redirect t then b else []) @ accepted (k n) t')"
| "accepted (CallHeader l k) t = (case on_header l t of None \<Rightarrow> [] | Some (n, t') \<Rightarrow> accepted (k n) t')"

text \<open>A chunk of libcurl is at most \<open>CURL_MAX_WRITE_SIZE\<close> bytes, so its length is not the pause code.\<close>

definition chunk_ok :: "bytes \<Rightarrow> bool" where
  "chunk_ok b \<longleftrightarrow> length b \<le> 16384"

primrec chunks_ok :: "'r curl_run \<Rightarrow> bool" where
  "chunks_ok (Finished r) = True"
| "chunks_ok (CallBody b k) = (chunk_ok b \<and> (\<forall>n. chunks_ok (k n)))"
| "chunks_ok (CallHeader l k) = (\<forall>n. chunks_ok (k n))"

definition chunk_laws :: "'x curl_api \<Rightarrow> bool" where
  "chunk_laws api \<longleftrightarrow> (\<forall>x. chunks_ok (cu_unpause api x) \<and> chunks_ok (cu_perform api x))"

lemma queue_upd [simp]:
  "queue (t\<lparr>paused := b\<rparr>) = queue t" "queue (t\<lparr>transfer_done := b\<rparr>) = queue t" "queue (t\<lparr>transfer_result := n\<rparr>) = queue t"
  by (simp_all add: queue_def)

lemma run_curl_queue:
  "run_all header_line_ok Q r \<Longrightarrow> chunks_ok r \<Longrightarrow> cctx_ok t \<Longrightarrow> run_curl r t = Some (v, t') \<Longrightarrow>
   queue t' = queue t @ accepted r t"
proof (induction r arbitrary: t)
  case (CallBody b k)
  obtain n u where u: "on_body b t = Some (n, u)" "cctx_ok u"
    "if in_redirect t then n = length b \<and> u = t
     else if length (queue t) + length b \<le> RING_CAP then n = length b \<and> queue u = queue t @ b \<and> paused u = paused t
     else n = CURL_WRITEFUNC_PAUSE \<and> queue u = queue t \<and> paused u"
    using on_body_queue [OF CallBody.prems(3), of b] by blast
  moreover have "length b < CURL_WRITEFUNC_PAUSE"
    using CallBody.prems(2) by (simp add: chunk_ok_def CURL_WRITEFUNC_PAUSE_def)
  ultimately have "queue u = queue t @ (if n = length b \<and> \<not> in_redirect t then b else [])"
    by (cases "in_redirect t"; cases "length (queue t) + length b \<le> RING_CAP") simp_all
  moreover have "queue t' = queue u @ accepted (k n) u"
    using CallBody.prems u by (intro CallBody.IH) auto
  ultimately show ?case using u(1) by simp
next
  case (CallHeader l k)
  obtain n u where u: "on_header l t = Some (n, u)" "cctx_ok u" "queue u = queue t"
    using on_header_ok [of l t] CallHeader.prems by (auto simp: returns_iff)
  have "queue t' = queue u @ accepted (k n) u"
    using CallHeader.prems u by (intro CallHeader.IH) auto
  then show ?case using u by simp
qed simp

lemma harvest_queue [simp]: "queue (harvest ms t) = queue t"
  by (induction ms arbitrary: t) (simp_all add: harvest_def split: prod.split)

section \<open>Reads\<close>

text \<open>The bytes taken over by a resumption, by a pump and by a read.\<close>

definition resume_bytes :: "'x curl_api \<Rightarrow> 'x curl_sys \<Rightarrow> bytes" where
  "resume_bytes api w =
     (if paused (cctx w) \<and> r_len (cctx w) < RING_CAP div 2
      then accepted (cu_unpause api (clib w)) ((cctx w)\<lparr>paused := False\<rparr>) else [])"

definition pump_bytes :: "'x curl_api \<Rightarrow> i32 \<Rightarrow> 'x curl_sys \<Rightarrow> bytes" where
  "pump_bytes api ms w = resume_bytes api w @ (case resume_transfer api w of None \<Rightarrow> []
     | Some u \<Rightarrow> (let (r, _, x) = cu_wait api (clib u) ms in
         if r \<noteq> CURLM_OK then [] else accepted (cu_perform api x) (cctx u)))"

definition dequeued :: "nat \<Rightarrow> curl_ctx \<Rightarrow> curl_ctx" where
  "dequeued len t = (let n = min (r_len t) len in t\<lparr>r_head := (r_head t + n) mod RING_CAP, r_len := r_len t - n\<rparr>)"

definition read_bytes :: "'x curl_api \<Rightarrow> nat \<Rightarrow> i32 \<Rightarrow> 'x curl_sys \<Rightarrow> bytes" where
  "read_bytes api len tmo w =
     (if r_len (cctx w) = 0 \<and> transfer_done (cctx w) then []
      else if r_len (cctx w) \<noteq> 0 then resume_bytes api (w\<lparr>cctx := dequeued len (cctx w)\<rparr>)
      else pump_bytes api tmo w @ (case pump api tmo w of
          Some (True, _, u) \<Rightarrow> if r_len (cctx u) = 0 then [] else resume_bytes api (u\<lparr>cctx := dequeued len (cctx u)\<rparr>)
        | _ \<Rightarrow> []))"

text \<open>What a read with return value \<open>r\<close> gave its caller in the buffer \<open>m\<close>.\<close>

definition given :: "i32 \<Rightarrow> bytes \<Rightarrow> bytes" where
  "given r m = (if sint r > 0 then take (unat r) m else [])"

lemma resume_queue:
  assumes "curl_laws api ticks" and "chunk_laws api" and "cctx_ok (cctx w)" and "resume_transfer api w = Some w'"
  shows "queue (cctx w') = queue (cctx w) @ resume_bytes api w"
proof -
  have "run_all header_line_ok (passes ticks (clib w)) (cu_unpause api (clib w))" "chunks_ok (cu_unpause api (clib w))"
    using assms(1,2) by (simp_all add: curl_laws_def chunk_laws_def)
  from run_curl_queue [OF this, of "(cctx w)\<lparr>paused := False\<rparr>"] assms(3,4)
  show ?thesis by (auto simp: resume_transfer_def resume_bytes_def bind_eq_Some_conv split: if_splits)
qed

lemma pump_queue:
  assumes "curl_laws api ticks" and "chunk_laws api" and "cctx_ok (cctx w)" and "pump api ms w = Some (ok, st, w')"
  shows "queue (cctx w') = queue (cctx w) @ pump_bytes api ms w"
proof -
  obtain u where u: "resume_transfer api w = Some u" "cctx_ok (cctx u)"
    using resume_ok [OF assms(1,3)] by (auto simp: returns_iff)
  note uq = resume_queue [OF assms(1-3) u(1)]
  obtain r stp x where x: "cu_wait api (clib u) ms = (r, stp, x)" by (metis prod_cases3)
  have run: "run_all header_line_ok (\<lambda>r. passes ticks x (snd r)) (cu_perform api x)" "chunks_ok (cu_perform api x)"
    using assms(1,2) by (simp_all add: curl_laws_def chunk_laws_def)
  from run_curl_ok [OF run(1) u(2)] obtain q y t where y: "run_curl (cu_perform api x) (cctx u) = Some ((q, y), t)"
    by (auto simp: returns_iff)
  obtain m z where z: "cu_messages api y = (m, z)" by (cases "cu_messages api y")
  show ?thesis using run_curl_queue [OF run u(2) y] u uq x y z assms(4)
    by (auto simp: pump_def pump_bytes_def split: if_splits)
qed

lemma dequeued_queue: "cctx_ok t \<Longrightarrow> queue t = ring_view (ring t) (r_head t) (min (r_len t) len) @ queue (dequeued len t)"
  using ring_view_add [of "ring t" "r_head t" "min (r_len t) len" "r_len t - min (r_len t) len"]
  by (simp add: queue_def dequeued_def Let_def ring_view_mod)

lemma dequeued_ok: "cctx_ok t \<Longrightarrow> cctx_ok (dequeued len t)"
  by (auto simp: cctx_ok_def dequeued_def Let_def intro: le_trans [OF diff_le_self])

lemma given_count: "n \<le> RING_CAP \<Longrightarrow> length d = n \<Longrightarrow> given (of_nat n) (d @ m) = d"
proof -
  assume n: "n \<le> RING_CAP" "length d = n"
  then have "unat (of_nat n :: i32) = n" "n < 2 ^ 31" by (simp_all add: RING_CAP_def unat_of_nat)
  then have "sint (of_nat n :: i32) = int n"
    by (simp add: signed_of_nat signed_take_bit_int_eq_self)
  then show ?thesis using n by (auto simp: given_def unat_of_nat RING_CAP_def)
qed

lemma drain_queue:
  assumes laws: "curl_laws api ticks" "chunk_laws api" and "cctx_ok (cctx w)" and "len \<le> length m"
    and "drain api m len w = Some (r, m', w')"
  shows "given r m' @ queue (cctx w') = queue (cctx w) @ resume_bytes api (w\<lparr>cctx := dequeued len (cctx w)\<rparr>)"
proof -
  let ?t = "cctx w"
  let ?n = "min (r_len ?t) len"
  let ?d = "ring_view (ring ?t) (r_head ?t) ?n"
  have len: "length (ring ?t) = RING_CAP" "?n \<le> RING_CAP" using assms(3) by (auto simp: cctx_ok_def min_le_iff_disj)
  have "dequeued len ?t = ?t\<lparr>r_head := (r_head ?t + ?n) mod RING_CAP, r_len := r_len ?t - ?n\<rparr>"
    by (simp add: dequeued_def Let_def)
  then have res: "resume_transfer api (w\<lparr>cctx := dequeued len ?t\<rparr>) = Some w'" and r: "r = of_nat ?n" and m': "m' = ?d @ drop ?n m"
    using assms(4,5) len by (auto simp: drain_def Let_def ring_get_view memcpy_def bind_eq_Some_conv split: if_splits)
  have "given r m' = ?d" using len by (simp only: r m') (rule given_count, simp_all)
  moreover have "queue (cctx w') = queue (dequeued len ?t) @ resume_bytes api (w\<lparr>cctx := dequeued len ?t\<rparr>)"
    using resume_queue [OF laws _ res] dequeued_ok [OF assms(3)] by simp
  ultimately show ?thesis using dequeued_queue [OF assms(3), of len] by simp
qed

lemma read_queue:
  assumes T: "curl_T api ticks True w" and chunks: "chunk_laws api" and "len \<le> length m"
    and rd: "curl_read_fn api w m len tmo = Some (r, m', st, w')"
  shows "given r m' @ queue (cctx w') = queue (cctx w) @ read_bytes api len tmo w"
proof -
  have laws: "curl_laws api ticks" and c: "cctx_ok (cctx w)" using T by (simp_all add: curl_T_def)
  have neg: "given SSE_READ_EOF b = []" "given SSE_READ_ERROR b = []" "given SSE_READ_TIMEOUT b = []" for b
    by (simp_all add: given_def SSE_READ_EOF_def SSE_READ_ERROR_def SSE_READ_TIMEOUT_def)
  have ends: "given (end_code t) b = []" for t b using neg by (simp add: end_code_def)
  obtain ok stp u where u: "pump api tmo w = Some (ok, stp, u)" "cctx_ok (cctx u)"
    using pump_ok [OF laws c, of tmo] by (auto simp: returns_iff)
  note pq = pump_queue [OF laws chunks c u(1)]
  consider (over) "r_len (cctx w) = 0" "transfer_done (cctx w)" | (ring) "r_len (cctx w) \<noteq> 0"
    | (failed) "r_len (cctx w) = 0" "\<not> transfer_done (cctx w)" "\<not> ok"
    | (empty) "r_len (cctx w) = 0" "\<not> transfer_done (cctx w)" "ok" "r_len (cctx u) = 0"
    | (data) "r_len (cctx w) = 0" "\<not> transfer_done (cctx w)" "ok" "r_len (cctx u) \<noteq> 0" by blast
  then show ?thesis
  proof cases
    case over
    then show ?thesis using rd ends by (auto simp: curl_read_fn_def read_bytes_def)
  next
    case ring
    then have "drain api m len w = Some (r, m', w')" using rd by (auto simp: curl_read_fn_def bind_eq_Some_conv)
    from drain_queue [OF laws chunks c assms(3) this] ring show ?thesis by (simp add: read_bytes_def)
  next
    case failed
    then show ?thesis using rd u pq neg by (auto simp: curl_read_fn_def read_bytes_def)
  next
    case empty
    then show ?thesis using rd u pq neg ends by (auto simp: curl_read_fn_def read_bytes_def split: if_splits)
  next
    case data
    then have "drain api m len u = Some (r, m', w')" using rd u by (auto simp: curl_read_fn_def bind_eq_Some_conv)
    from drain_queue [OF laws chunks u(2) assms(3) this] data u(1) pq show ?thesis by (simp add: read_bytes_def)
  qed
qed

section \<open>Histories of reads\<close>

text \<open>
  Reads with the given timeouts into a buffer \<open>m\<close>: the bytes the caller got, the bytes
  the transport took over meanwhile, and the last state.
\<close>

fun reads :: "'x curl_api \<Rightarrow> bytes \<Rightarrow> u32 list \<Rightarrow> 'x curl_sys \<Rightarrow> (bytes \<times> bytes \<times> 'x curl_sys) option" where
  "reads api m [] w = Some ([], [], w)"
| "reads api m (tmo # ts) w = do {
     (r, m', _, u) \<leftarrow> curl_read_fn api w m (length m) tmo;
     (out, inp, v) \<leftarrow> reads api m' ts u;
     Some (given r m' @ out, read_bytes api (length m) tmo w @ inp, v)
   }"

lemma reads_queue:
  "curl_T api ticks True w \<Longrightarrow> chunk_laws api \<Longrightarrow>
   returns (reads api m ts w) (\<lambda>(out, inp, v). curl_T api ticks True v \<and> out @ queue (cctx v) = queue (cctx w) @ inp)"
proof (induction ts arbitrary: m w)
  case (Cons tmo ts)
  obtain r m' st u where u: "curl_read_fn api w m (length m) tmo = Some (r, m', st, u)" "curl_T api ticks True u"
    "length m' = length m"
    using curl_read_ok [OF Cons.prems(1), of "length m" m tmo] by (auto simp: returns_iff)
  note q = read_queue [OF Cons.prems(1,2) _ u(1)]
  obtain out inp v where v: "reads api m' ts u = Some (out, inp, v)" "curl_T api ticks True v"
    "out @ queue (cctx v) = queue (cctx u) @ inp"
    using Cons.IH [OF u(2) Cons.prems(2), of m'] by (auto simp: returns_iff)
  have "given r m' @ out @ queue (cctx v) = queue (cctx w) @ read_bytes api (length m) tmo w @ inp"
    using q v(3) by (metis append.assoc order_refl)
  then show ?case using u v by simp
qed simp

section \<open>Header blocks\<close>

definition on_headers :: "bytes list \<Rightarrow> curl_ctx \<Rightarrow> curl_ctx option" where
  "on_headers ls t = foldM (\<lambda>l t. map_option snd (on_header l t)) ls t"

lemma on_headers_simps [simp]:
  "on_headers [] t = Some t"
  "on_headers (l # ls) t = do { t \<leftarrow> map_option snd (on_header l t); on_headers ls t }"
  by (simp_all add: on_headers_def)

lemma on_headers_append: "on_headers (xs @ ys) t = do { t \<leftarrow> on_headers xs t; on_headers ys t }"
  by (simp add: on_headers_def foldM_append)

definition status_line :: "bytes \<Rightarrow> bytes \<Rightarrow> bytes \<Rightarrow> bytes" where
  "status_line ver ds rest = bytes_of ''HTTP/'' @ ver @ SPACE # ds @ rest"

definition blank_line :: bytes where
  "blank_line = [CR, LF]"

text \<open>A field the transport does not look at.\<close>

definition other_field :: "bytes \<Rightarrow> bool" where
  "other_field l \<longleftrightarrow> 2 < length l \<and> take 5 l \<noteq> bytes_of ''HTTP/'' \<and> \<not> strncasecmp_prefix l (bytes_of ''retry-after:'')"

definition retry_field :: "bytes \<Rightarrow> nat \<Rightarrow> bytes \<Rightarrow> bytes" where
  "retry_field name spaces ds = name @ replicate spaces SPACE @ ds @ [CR, LF]"

lemma number_of_decimal: "list_all is_digit ds \<Longrightarrow> number_of ds = decimal ds"
proof -
  assume "list_all is_digit ds"
  then have "foldl (\<lambda>n b. 10 * n + unat (b - 48)) n ds = foldl (\<lambda>n b. 10 * n + (unat b - 48)) n ds" for n
    by (induction ds arbitrary: n) (simp_all add: is_digit_def unat_sub)
  then show ?thesis by (simp add: number_of_def decimal_def)
qed

lemma leading_digits_append: "list_all is_digit ds \<Longrightarrow> rest = [] \<or> \<not> is_digit (hd rest) \<Longrightarrow> leading_digits (ds @ rest) = ds"
  by (induction ds) (cases rest; auto simp: leading_digits_def is_digit_def)+

lemma memchr_append: "c \<notin> set xs \<Longrightarrow> memchr (xs @ c # ys) c = Some (length xs)"
  by (induction xs) auto

lemma on_status_line:
  assumes "SPACE \<notin> set ver" and "list_all is_digit ds" and "rest = [] \<or> \<not> is_digit (hd rest)" and "decimal ds \<le> INT_MAX"
  shows "on_header (status_line ver ds rest) t =
    Some (length (status_line ver ds rest), t\<lparr>cu_retry_after_s := -1, headers_done := False, header_block_status := of_nat (decimal ds)\<rparr>)"
proof -
  have len: "length (bytes_of ''HTTP/'') = 5" "SPACE \<notin> set (bytes_of ''HTTP/'')" by (simp_all add: bytes_of_def SPACE_def)
  have "memchr ((bytes_of ''HTTP/'' @ ver) @ SPACE # ds @ rest) SPACE = Some (length (bytes_of ''HTTP/'' @ ver))"
    using assms(1) len(2) by (intro memchr_append) simp
  then have "line_status (status_line ver ds rest) = Some (of_nat (decimal ds))"
    using leading_digits_append [OF assms(2,3)] number_of_decimal [OF assms(2)] assms(4)
    by (simp add: line_status_def status_line_def)
  then show ?thesis using len(1) by (simp add: on_header_def status_line_def)
qed

lemma on_blank_line: "on_header blank_line t = Some (2, if sint (header_block_status t) \<ge> 200 then t\<lparr>headers_done := True\<rparr> else t)"
  by (simp add: on_header_def blank_line_def)

lemma on_other_field: "other_field l \<Longrightarrow> on_header l t = Some (length l, t)"
  by (auto simp: on_header_def other_field_def)

lemma on_other_fields: "list_all other_field ls \<Longrightarrow> on_headers ls t = Some t"
  by (induction ls) (simp_all add: on_other_field)

lemma on_retry_field:
  assumes "map lower name = bytes_of ''retry-after:''" and "list_all is_digit ds" and "ds \<noteq> []"
  shows "on_header (retry_field name n ds) t =
    Some (length (retry_field name n ds), t\<lparr>cu_retry_after_s := of_nat (min (2 ^ 63 - 1) (decimal ds))\<rparr>)"
proof -
  let ?l = "retry_field name n ds"
  have "length name = length (bytes_of ''retry-after:'')" using assms(1) by (metis length_map)
  then have name: "length name = 12" by (simp add: bytes_of_def)
  have pre: "strncasecmp_prefix ?l (bytes_of ''retry-after:'')"
    using assms(1) name by (simp add: strncasecmp_prefix_def retry_field_def bytes_of_def)
  have "map lower (take 5 name) \<noteq> map lower (bytes_of ''HTTP/'')"
    using assms(1) by (simp add: take_map [symmetric]) (simp add: bytes_of_def lower_def)
  then have nh: "take 5 ?l \<noteq> bytes_of ''HTTP/''" using name by (auto simp: retry_field_def)
  obtain d ds' where ds: "ds = d # ds'" using assms(3) by (cases ds) auto
  then have d: "48 \<le> d" "d \<le> 57" using assms(2) by (simp_all add: is_digit_def)
  then have dS: "d \<noteq> SPACE" by (auto simp: SPACE_def)
  have "drop 12 ?l = replicate n SPACE @ ds @ [CR, LF]" using name by (simp add: retry_field_def)
  moreover have "dropWhile (\<lambda>b. b = SPACE) (replicate n SPACE @ xs) = dropWhile (\<lambda>b. b = SPACE) xs" for xs
    by (induction n) simp_all
  ultimately have p: "dropWhile (\<lambda>b. b = SPACE) (drop 12 ?l) = ds @ [CR, LF]" using ds dS by simp
  have ld: "leading_digits (ds @ [CR, LF]) = ds"
    using assms(2) by (intro leading_digits_append) (simp_all add: is_digit_def CR_def)
  then have "strtol64 (ds @ [CR, LF]) = Some (min (2 ^ 63 - 1) (decimal ds))"
    using number_of_decimal [OF assms(2)] by (simp add: strtol64_def)
  then show ?thesis using pre nh p ds d name by (simp add: on_header_def retry_field_def)
qed

end
