(* ===== verification/Curl_Invariant.thy ===== *)
theory Curl_Invariant
  imports Curl_Safety
begin

text \<open>
  Invariants of the POSIX transport, stated as what each libcurl call must keep. A property of
  context and library that the calls of the pump and the clock keep survives the timed waits;
  one that a new hop keeps too survives an open; and a property of libcurl's state alone that
  every call keeps survives open, read and close, also when they fail.
\<close>

section \<open>Pump and waits\<close>

locale curl_invariant =
  fixes api :: "'x curl_api" and P :: "'x curl_sys \<Rightarrow> bool"
  assumes unpause_law: "P w \<Longrightarrow> run_curl (cu_unpause api (clib w)) ((cctx w)\<lparr>paused := False\<rparr>) = Some (x, t) \<Longrightarrow>
        P (w\<lparr>cctx := t, clib := x\<rparr>)"
    and wait_law: "P w \<Longrightarrow> cu_wait api (clib w) ms = (r, stopped, x) \<Longrightarrow> P (w\<lparr>clib := x\<rparr>)"
    and perform_law: "P w \<Longrightarrow> run_curl (cu_perform api (clib w)) (cctx w) = Some ((r, x), t) \<Longrightarrow> P (w\<lparr>cctx := t, clib := x\<rparr>)"
    and messages_law: "P w \<Longrightarrow> cu_messages api (clib w) = (msgs, x) \<Longrightarrow> P (w\<lparr>cctx := harvest msgs (cctx w), clib := x\<rparr>)"
    and clock_law: "P w \<Longrightarrow> P (w\<lparr>clib := snd (cu_clock api (clib w))\<rparr>)"
begin

lemma resume_keeps: "resume_transfer api w = Some w' \<Longrightarrow> P w \<Longrightarrow> P w'"
  by (auto simp: resume_transfer_def bind_eq_Some_conv dest: unpause_law split: if_splits)

lemma pump_keeps:
  assumes "pump api ms w = Some (ok, st, w')" and "P w"
  shows "P w'"
proof -
  obtain u where u: "resume_transfer api w = Some u" using assms(1) by (cases "resume_transfer api w") (auto simp: pump_def)
  note pu = resume_keeps [OF u assms(2)]
  obtain r stp x where x: "cu_wait api (clib u) ms = (r, stp, x)" by (metis prod_cases3)
  note px = wait_law [OF pu x]
  show ?thesis
  proof (cases "r = CURLM_OK")
    case False
    then show ?thesis using assms(1) u x px by (auto simp: pump_def)
  next
    case True
    then obtain q y t where y: "run_curl (cu_perform api x) (cctx u) = Some ((q, y), t)"
      using assms(1) u x by (cases "run_curl (cu_perform api x) (cctx u)") (auto simp: pump_def)
    have py: "P (u\<lparr>cctx := t, clib := y\<rparr>)" using perform_law [of "u\<lparr>clib := x\<rparr>" q y t] px y by simp
    obtain m z where z: "cu_messages api y = (m, z)" by (cases "cu_messages api y")
    have "P (u\<lparr>cctx := harvest m t, clib := z\<rparr>)" using messages_law [of "u\<lparr>cctx := t, clib := y\<rparr>" m z] py z by simp
    then show ?thesis using assms(1) u x y z True py by (auto simp: pump_def split: if_splits)
  qed
qed

lemma now_keeps: "sse_now_ms_posix api (clib w) = (t, x) \<Longrightarrow> P w \<Longrightarrow> P (w\<lparr>clib := x\<rparr>)"
  using clock_law [of w] by (auto simp: sse_now_ms_posix_def split_beta)

lemma wait_for_keeps:
  assumes "wait_for api ready start w = Some (ok, w')" and "P w"
  shows "P w'"
proof -
  have "wait_for b f s x = Some r \<Longrightarrow> b = api \<longrightarrow> P x \<longrightarrow> P (snd r)" for b f s x r
  proof (rule wait_for.raw_induct [where P = "\<lambda>b f s x r. b = api \<longrightarrow> P x \<longrightarrow> P (snd r)"])
    fix wait :: "'x curl_api \<Rightarrow> (curl_ctx \<Rightarrow> bool) \<Rightarrow> u32 \<Rightarrow> 'x curl_sys \<Rightarrow> (bool \<times> 'x curl_sys) option" and b f s x r
    assume IH: "\<And>b f s x r. wait b f s x = Some r \<Longrightarrow> b = api \<longrightarrow> P x \<longrightarrow> P (snd r)"
      and run: "(if f (cctx x) then Some (True, x)
        else let (t, y) = sse_now_ms_posix b (clib x); x = x\<lparr>clib := y\<rparr>
             in if t - s < OPEN_TIMEOUT_MS
                then pump b 100 x \<bind> (\<lambda>(ok, _, x). if ok then wait b f s x else Some (False, x))
                else Some (True, x)) = Some r"
    show "b = api \<longrightarrow> P x \<longrightarrow> P (snd r)"
    proof (intro impI)
      assume b: "b = api" and px: "P x"
      obtain t y where y: "sse_now_ms_posix b (clib x) = (t, y)" by (cases "sse_now_ms_posix b (clib x)")
      note py = now_keeps [OF y [unfolded b] px]
      show "P (snd r)"
      proof (cases "\<not> f (cctx x) \<and> t - s < OPEN_TIMEOUT_MS")
        case False
        then show ?thesis using run y px py by (auto split: if_splits)
      next
        case True
        then have run': "pump b 100 (x\<lparr>clib := y\<rparr>) \<bind> (\<lambda>(ok, _, x). if ok then wait b f s x else Some (False, x)) = Some r"
          using run y by simp
        then obtain ok st u where u: "pump b 100 (x\<lparr>clib := y\<rparr>) = Some (ok, st, u)"
          by (cases "pump b 100 (x\<lparr>clib := y\<rparr>)") auto
        from pump_keeps [OF u [unfolded b] py] show ?thesis using run' u IH [of b f s u r] b by (cases ok) auto
      qed
    qed
  qed
  from this [OF assms(1)] assms(2) show ?thesis by simp
qed

text \<open>A timed wait that fails tears the context down.\<close>

lemma timed_wait_keeps:
  assumes "timed_wait api ready w = Some (ok, w')" and "P w"
  shows "if ok then P w' else (\<exists>u. P u \<and> w' = teardown api u)"
proof -
  obtain s x where x: "sse_now_ms_posix api (clib w) = (s, x)" by (cases "sse_now_ms_posix api (clib w)")
  obtain ok' u where u: "wait_for api ready s (w\<lparr>clib := x\<rparr>) = Some (ok', u)"
    using assms(1) x by (auto simp: timed_wait_def bind_eq_Some_conv)
  have "P u" by (rule wait_for_keeps [OF u now_keeps [OF x assms(2)]])
  then show ?thesis using assms(1) x u by (auto simp: timed_wait_def split: if_splits)
qed

end

section \<open>Hops\<close>

locale curl_hop_invariant = curl_invariant +
  assumes hop_law: "P w \<Longrightarrow> P (next_hop api redir w)"
begin

lemma hops_keep:
  "curl_hops b hops w = Some (ok, w') \<Longrightarrow> b = api \<Longrightarrow> P w \<Longrightarrow> if ok then P w' else (\<exists>u. P u \<and> w' = teardown api u)"
proof (induction b hops w rule: curl_hops.induct)
  case (1 b hops w)
  obtain o1 u where u: "timed_wait b headers_ready w = Some (o1, u)"
    using 1(2) by (subst (asm) curl_hops.simps) (auto simp: bind_eq_Some_conv)
  note ku = timed_wait_keeps [OF u [unfolded 1(3)] 1(4)]
  show ?case
  proof (cases "o1 \<and> \<not> (transfer_done (cctx u) \<and> transfer_result (cctx u) \<noteq> CURLE_OK \<and>
             \<not> headers_done (cctx u) \<and> \<not> body_started (cctx u)) \<and> in_redirect (cctx u)")
    case False
    then show ?thesis using 1(2,3) u ku by (subst (asm) curl_hops.simps) (auto split: if_splits)
  next
    case True
    then have pu: "P u" using ku by simp
    obtain o2 v where v: "timed_wait b transfer_done u = Some (o2, v)"
      using 1(2) u True by (subst (asm) curl_hops.simps) (auto simp: bind_eq_Some_conv)
    note kv = timed_wait_keeps [OF v [unfolded 1(3)] pu]
    show ?thesis
    proof (cases "o2 \<and> \<not> hops \<ge> MAX_REDIRECT_HOPS \<and> redirect_target b (clib v) \<noteq> None")
      case False
      then show ?thesis using 1(2,3) u v kv True by (subst (asm) curl_hops.simps) (auto split: if_splits option.splits)
    next
      case r: True
      then obtain redir where redir: "redirect_target b (clib v) = Some redir" by auto
      then have run: "curl_hops b (hops + 1) (next_hop b redir v) = Some (ok, w')"
        using 1(2) u v True r by (subst (asm) curl_hops.simps) simp
      have "P (next_hop b redir v)" using kv r 1(3) hop_law by simp
      from 1(1) [OF u refl _ _ _ v refl _ _ redir run 1(3) this] True r show ?thesis by auto
    qed
  qed
qed

end

section \<open>The library's state\<close>

lemma run_curl_result: "run_all (\<lambda>_. True) Q r \<Longrightarrow> run_curl r t = Some (v, t') \<Longrightarrow> Q v"
  by (induction r arbitrary: t) (auto split: option.splits)

locale curl_library_invariant =
  fixes api :: "'x curl_api" and Q :: "'x \<Rightarrow> bool"
  assumes inits: "Q x \<Longrightarrow> Q (snd (cu_easy_init api x))" "Q x \<Longrightarrow> Q (snd (cu_multi_init api x))"
      "Q x \<Longrightarrow> Q (snd (cu_slist_append api x h))"
    and settings: "Q x \<Longrightarrow> Q (cu_set_url api x u)" "Q x \<Longrightarrow> Q (cu_set_options api x hs)"
      "Q x \<Longrightarrow> Q (cu_add_handle api x)" "Q x \<Longrightarrow> Q (cu_remove_handle api x)"
    and cleanups: "Q x \<Longrightarrow> Q (cu_easy_cleanup api x)" "Q x \<Longrightarrow> Q (cu_multi_cleanup api x)" "Q x \<Longrightarrow> Q (cu_slist_free api x)"
    and runs: "Q x \<Longrightarrow> run_all (\<lambda>l. True) Q (cu_unpause api x)" "Q x \<Longrightarrow> run_all (\<lambda>l. True) (\<lambda>r. Q (snd r)) (cu_perform api x)"
    and waits: "Q x \<Longrightarrow> Q (snd (snd (cu_wait api x ms)))" "Q x \<Longrightarrow> Q (snd (cu_messages api x))" "Q x \<Longrightarrow> Q (snd (cu_clock api x))"

sublocale curl_library_invariant \<subseteq> kept: curl_hop_invariant api "\<lambda>w. Q (clib w)"
proof
  show "Q (clib (w\<lparr>clib := x\<rparr>))" if "Q (clib w)" "cu_wait api (clib w) ms = (r, stopped, x)" for w ms r stopped x
    using waits(1) [OF that(1), of ms] that(2) by simp
  show "Q (clib (w\<lparr>cctx := harvest msgs (cctx w), clib := x\<rparr>))" if "Q (clib w)" "cu_messages api (clib w) = (msgs, x)" for w msgs x
    using waits(2) [OF that(1)] that(2) by simp
  show "Q (clib (w\<lparr>cctx := t, clib := x\<rparr>))" if "Q (clib w)" "run_curl (cu_perform api (clib w)) (cctx w) = Some ((r, x), t)" for w r x t
    using run_curl_result [OF runs(2) [OF that(1)] that(2)] by simp
  show "Q (clib (w\<lparr>cctx := t, clib := x\<rparr>))"
    if "Q (clib w)" "run_curl (cu_unpause api (clib w)) ((cctx w)\<lparr>paused := False\<rparr>) = Some (x, t)" for w x t
    using run_curl_result [OF runs(1) [OF that(1)] that(2)] by simp
qed (simp_all add: waits settings next_hop_def)

context curl_library_invariant
begin

lemma teardown_keeps: "Q (clib w) \<Longrightarrow> Q (clib (teardown api w))"
  by (simp add: teardown_def Let_def settings cleanups)

lemma append_keeps: "append_headers api hs w = Some (ok, w') \<Longrightarrow> Q (clib w) \<Longrightarrow> Q (clib w')"
proof (induction hs arbitrary: w)
  case (Cons h hs)
  show ?case
  proof (cases h)
    case None
    then show ?thesis using Cons.prems by simp
  next
    case (Some l)
    obtain got x where x: "cu_slist_append api (clib w) l = (got, x)" by (cases "cu_slist_append api (clib w) l")
    then have qx: "Q x" using inits(3) [OF Cons.prems(2), of l] by simp
    show ?thesis
    proof (cases got)
      case True
      then have "append_headers api hs (w\<lparr>clib := x, cctx := (cctx w)\<lparr>hdrs := hdrs (cctx w) @ [l]\<rparr>\<rparr>) = Some (ok, w')"
        using Cons.prems(1) Some x by simp
      from Cons.IH [OF this] qx show ?thesis by simp
    next
      case False
      then show ?thesis using Cons.prems(1) Some x qx teardown_keeps [of "w\<lparr>clib := x\<rparr>"] by auto
    qed
  qed
qed simp

lemma open_keeps:
  assumes "curl_open_fn api w req i = Some (r, i', w')" and "Q (clib w)"
  shows "Q (clib w')"
proof -
  let ?w = "teardown api w"
  obtain e y where e: "cu_easy_init api (clib ?w) = (e, y)" by (cases "cu_easy_init api (clib ?w)")
  obtain m z where m: "cu_multi_init api y = (m, z)" by (cases "cu_multi_init api y")
  have "Q y" using inits(1) [OF teardown_keeps [OF assms(2)]] e by simp
  then have qz: "Q z" using inits(2) [of y] m by simp
  let ?u = "?w\<lparr>cctx := (cctx ?w)\<lparr>easy := e, multi := m\<rparr>, clib := z\<rparr>"
  show ?thesis
  proof (cases "e \<and> m")
    case False
    then have "w' = teardown api ?u" using assms(1) e m by (auto simp: curl_open_fn_def Let_def)
    then show ?thesis using teardown_keeps [of ?u] qz by simp
  next
    case True
    then obtain ok v where v: "append_headers api (req_headers req) ?u = Some (ok, v)"
      using assms(1) e m by (auto simp: curl_open_fn_def Let_def bind_eq_Some_conv)
    have qv: "Q (clib v)" using append_keeps [OF v] qz by simp
    show ?thesis
    proof (cases ok)
      case False
      then show ?thesis using assms(1) e m True v qv by (auto simp: curl_open_fn_def Let_def)
    next
      case ok: True
      let ?x = "cu_add_handle api (cu_set_options api (cu_set_url api (clib v) (req_url req)) (hdrs (cctx v)))"
      obtain o2 z where z: "curl_hops api 0 (v\<lparr>clib := ?x\<rparr>) = Some (o2, z)"
        using assms(1) e m True v ok by (auto simp: curl_open_fn_def Let_def bind_eq_Some_conv)
      have "Q (clib (v\<lparr>clib := ?x\<rparr>))" using qv settings by simp
      from kept.hops_keep [OF z refl this] have "Q (clib z)" using teardown_keeps by (auto split: if_splits)
      moreover have "w' = z"
        using assms(1) e m True v ok z by (auto simp: curl_open_fn_def Let_def bind_eq_Some_conv split: if_splits)
      ultimately show ?thesis by simp
    qed
  qed
qed

lemma drain_keeps: "drain api m len w = Some (r, m', w') \<Longrightarrow> Q (clib w) \<Longrightarrow> Q (clib w')"
  by (auto simp: drain_def Let_def bind_eq_Some_conv dest: kept.resume_keeps)

lemma read_keeps:
  assumes "curl_read_fn api w m len tmo = Some (r, m', st, w')" and "Q (clib w)"
  shows "Q (clib w')"
proof (cases "r_len (cctx w) = 0 \<and> \<not> transfer_done (cctx w)")
  case False
  then show ?thesis using assms drain_keeps [of m len w]
    by (auto simp: curl_read_fn_def bind_eq_Some_conv split: if_splits)
next
  case True
  then obtain ok stp u where u: "pump api tmo w = Some (ok, stp, u)"
    using assms(1) by (cases "pump api tmo w") (auto simp: curl_read_fn_def)
  from kept.pump_keeps [OF u assms(2)] show ?thesis using assms(1) True u drain_keeps [of m len u]
    by (auto simp: curl_read_fn_def bind_eq_Some_conv split: if_splits)
qed

lemma close_keeps: "curl_close_fn api w = Some w' \<Longrightarrow> Q (clib w) \<Longrightarrow> Q (clib w')"
  using teardown_keeps [of w] by (auto simp: curl_close_fn_def)

end

end
