(* ===== verification/Curl_Origin.thy ===== *)
theory Curl_Origin
  imports Curl_Invariant
begin

text \<open>
  Where the POSIX transport's redirects lead: with a libcurl that does not change the
  URL by itself (no \<open>FOLLOWLOCATION\<close>), the URL of the connection it leaves is of the
  requested origin. The wait loop is treated as it runs, whether or not it ends.
\<close>

section \<open>What libcurl promises about URLs\<close>

text \<open>
  \<open>cur\<close> is the URL of the easy handle. Only \<open>CURLOPT_URL\<close> sets it, it is the effective
  URL, and the URL parser depends on nothing but its argument.
\<close>

definition url_laws :: "'x curl_api \<Rightarrow> ('x \<Rightarrow> bytes) \<Rightarrow> bool" where
  "url_laws api cur \<longleftrightarrow>
     (\<forall>x. (\<forall>u. cur (cu_set_url api x u) = u) \<and> (\<forall>u. cu_effective_url api x = Some u \<longrightarrow> u = cur x) \<and>
          (\<forall>hs. cur (cu_set_options api x hs) = cur x) \<and> cur (cu_add_handle api x) = cur x \<and>
          cur (cu_remove_handle api x) = cur x \<and> cur (snd (cu_clock api x)) = cur x \<and>
          (\<forall>ms. cur (snd (snd (cu_wait api x ms))) = cur x) \<and> cur (snd (cu_messages api x)) = cur x \<and>
          run_all (\<lambda>_. True) (\<lambda>y. cur y = cur x) (cu_unpause api x) \<and>
          run_all (\<lambda>_. True) (\<lambda>r. cur (snd r) = cur x) (cu_perform api x) \<and>
          (\<forall>y. cu_url_parts api x = cu_url_parts api y))"

lemma url_lawsD:
  assumes "url_laws api cur"
  shows "cur (cu_set_url api x u) = u" "cur (cu_set_options api x hs) = cur x" "cur (cu_add_handle api x) = cur x"
    "cu_effective_url api x = Some u \<Longrightarrow> u = cur x" "cur (snd (cu_clock api x)) = cur x"
    "cur (snd (snd (cu_wait api x ms))) = cur x" "cur (snd (cu_messages api x)) = cur x"
    "run_all (\<lambda>_. True) (\<lambda>y. cur y = cur x) (cu_unpause api x)"
    "run_all (\<lambda>_. True) (\<lambda>r. cur (snd r) = cur x) (cu_perform api x)"
    "cu_url_parts api x = cu_url_parts api y"
  using assms unfolding url_laws_def by blast+

interpretation url_kept: curl_invariant api "\<lambda>w. url_laws api cur \<longrightarrow> cur (clib w) = u" for api cur u
proof (unfold_locales; intro impI)
  show "cur (clib (w\<lparr>clib := x\<rparr>)) = u"
    if "url_laws api cur \<longrightarrow> cur (clib w) = u" "cu_wait api (clib w) ms = (r, stopped, x)" "url_laws api cur" for w ms r stopped x
    using url_lawsD(6) [OF that(3), of "clib w" ms] that(1,2,3) by simp
  show "cur (clib (w\<lparr>cctx := harvest msgs (cctx w), clib := x\<rparr>)) = u"
    if "url_laws api cur \<longrightarrow> cur (clib w) = u" "cu_messages api (clib w) = (msgs, x)" "url_laws api cur" for w msgs x
    using url_lawsD(7) [OF that(3), of "clib w"] that(1,2,3) by simp
  show "cur (clib (w\<lparr>clib := snd (cu_clock api (clib w))\<rparr>)) = u"
    if "url_laws api cur \<longrightarrow> cur (clib w) = u" "url_laws api cur" for w
    using url_lawsD(5) [OF that(2), of "clib w"] that by simp
  show "cur (clib (w\<lparr>cctx := t, clib := x\<rparr>)) = u" if "url_laws api cur \<longrightarrow> cur (clib w) = u"
    "run_curl (cu_perform api (clib w)) (cctx w) = Some ((r, x), t)" "url_laws api cur" for w r x t
    using run_curl_result [OF url_lawsD(9) [OF that(3)] that(2)] that(1,3) by simp
  show "cur (clib (w\<lparr>cctx := t, clib := x\<rparr>)) = u" if "url_laws api cur \<longrightarrow> cur (clib w) = u"
    "run_curl (cu_unpause api (clib w)) ((cctx w)\<lparr>paused := False\<rparr>) = Some (x, t)" "url_laws api cur" for w x t
    using run_curl_result [OF url_lawsD(8) [OF that(3)] that(2)] that(1,3) by simp
qed

lemma timed_wait_url:
  "url_laws api cur \<Longrightarrow> timed_wait api ready w = Some (True, w') \<Longrightarrow> cur (clib w') = cur (clib w)"
  using url_kept.timed_wait_keeps [of api ready w True w' cur "cur (clib w)"] by simp

section \<open>Origins\<close>

text \<open>One URL, or two of the same origin.\<close>

definition within :: "'x curl_api \<Rightarrow> 'x \<Rightarrow> bytes \<Rightarrow> bytes \<Rightarrow> bool" where
  "within api x u v \<longleftrightarrow> u = v \<or> same_origin api x u v"

lemma same_origin_trans: "same_origin api x u v \<Longrightarrow> same_origin api x v w \<Longrightarrow> same_origin api x u w"
  by (auto simp: same_origin_def strcasecmp_eq_def split: option.splits)

lemma same_origin_lib: "url_laws api cur \<Longrightarrow> same_origin api x u v = same_origin api y u v"
  using url_lawsD(10) [of api cur x y] by (simp add: same_origin_def)

lemma within_trans: "within api x u v \<Longrightarrow> within api x v w \<Longrightarrow> within api x u w"
  by (auto simp: within_def intro: same_origin_trans)

lemma next_hop_url: "url_laws api cur \<Longrightarrow> cur (clib (next_hop api redir w)) = redir"
  by (simp add: next_hop_def url_lawsD)

lemma redirect_target_within:
  assumes "url_laws api cur" and "redirect_target api x = Some redir"
  shows "same_origin api y (cur x) redir"
proof -
  obtain c where c: "cu_effective_url api x = Some c" "same_origin api x c redir"
    using assms(2) by (auto simp: redirect_target_def split: option.splits if_splits)
  then have "c = cur x" using url_lawsD(4) [OF assms(1)] by blast
  then show ?thesis using c(2) same_origin_lib [OF assms(1), of x _ _ y] by simp
qed

lemma curl_hops_url:
  "curl_hops api hops w = Some (True, w') \<Longrightarrow> url_laws api cur \<Longrightarrow> within api x (cur (clib w)) (cur (clib w'))"
proof (induction api hops w rule: curl_hops.induct)
  case (1 api hops w)
  note laws = 1(3)
  obtain ok u where u: "timed_wait api headers_ready w = Some (ok, u)"
    using 1(2) by (subst (asm) curl_hops.simps) (auto simp: bind_eq_Some_conv)
  have ok: "ok" and go: "\<not> (transfer_done (cctx u) \<and> transfer_result (cctx u) \<noteq> CURLE_OK \<and>
             \<not> headers_done (cctx u) \<and> \<not> body_started (cctx u))"
    using 1(2) u by (subst (asm) curl_hops.simps, auto split: if_splits)+
  have cu: "cur (clib u) = cur (clib w)" using timed_wait_url [OF laws] u ok by simp
  show ?case
  proof (cases "in_redirect (cctx u)")
    case False
    then have "w' = u" using 1(2) u ok go by (subst (asm) curl_hops.simps) auto
    then show ?thesis by (simp add: within_def cu)
  next
    case True
    obtain ok' v where v: "timed_wait api transfer_done u = Some (ok', v)"
      using 1(2) u ok go True by (subst (asm) curl_hops.simps) (auto simp: bind_eq_Some_conv)
    have ok': "ok'" using 1(2) u ok go True v by (subst (asm) curl_hops.simps) (auto split: if_splits)
    have cv: "cur (clib v) = cur (clib w)" using timed_wait_url [OF laws] v ok' cu by simp
    show ?thesis
    proof (cases "hops \<ge> MAX_REDIRECT_HOPS \<or> redirect_target api (clib v) = None")
      case True
      then have "w' = v" using 1(2) u ok go \<open>in_redirect (cctx u)\<close> v ok' by (subst (asm) curl_hops.simps) (auto split: if_splits)
      then show ?thesis by (simp add: within_def cv)
    next
      case False
      then obtain redir where r: "redirect_target api (clib v) = Some redir" "\<not> hops \<ge> MAX_REDIRECT_HOPS" by auto
      then have run: "curl_hops api (hops + 1) (next_hop api redir v) = Some (True, w')"
        using 1(2) u ok go \<open>in_redirect (cctx u)\<close> v ok' by (subst (asm) curl_hops.simps) simp
      have "within api x redir (cur (clib w'))"
        using 1(1) [OF u refl _ go _ v refl _ r(2,1) run laws] ok ok' True next_hop_url [OF laws] by simp
      moreover have "within api x (cur (clib w)) redir"
        using redirect_target_within [OF laws r(1), of x] cv by (simp add: within_def)
      ultimately show ?thesis by (rule within_trans [rotated])
    qed
  qed
qed

lemma curl_open_url:
  assumes "curl_open_fn api w req i = Some (0, i', w')" and laws: "url_laws api cur"
  shows "within api x (req_url req) (cur (clib w'))"
proof -
  let ?w = "teardown api w"
  obtain e y where e: "cu_easy_init api (clib ?w) = (e, y)" by (cases "cu_easy_init api (clib ?w)")
  obtain m z where m: "cu_multi_init api y = (m, z)" by (cases "cu_multi_init api y")
  obtain v where v: "append_headers api (req_headers req) (?w\<lparr>cctx := (cctx ?w)\<lparr>easy := e, multi := m\<rparr>, clib := z\<rparr>) = Some (True, v)"
    using assms(1) e m by (auto simp: curl_open_fn_def Let_def bind_eq_Some_conv split: if_splits)
  let ?v = "v\<lparr>clib := cu_add_handle api (cu_set_options api (cu_set_url api (clib v) (req_url req)) (hdrs (cctx v)))\<rparr>"
  have hops: "curl_hops api 0 ?v = Some (True, w')"
    using assms(1) e m v by (auto simp: curl_open_fn_def Let_def bind_eq_Some_conv split: if_splits)
  show ?thesis using curl_hops_url [OF hops laws, of x] by (simp add: url_lawsD [OF laws])
qed

end
