(* ===== verification/Posix_Example.thy ===== *)
theory Posix_Example
  imports Curl_Safety Sse_Client_Properties
begin

text \<open>
  The program of \<open>examples/posix/main.c\<close>: a client on the libcurl transport with printing
  callbacks, polled by the main loop. It provides the environment the client's contract
  asks for.
\<close>

section \<open>Configuration\<close>

text \<open>What the example prints, with the arguments of the format strings, and where.\<close>

datatype print_line = PrintOpen u32 | PrintMessage bytes bytes bytes | PrintError sse_error | PrintClosed

record 'x host =
  ho_curl :: "'x curl_api"
  ho_print :: "print_line \<Rightarrow> 'x \<Rightarrow> 'x"

definition now_ms_posix :: "'x host \<Rightarrow> 'x curl_sys \<Rightarrow> u32 \<times> 'x curl_sys" where
  "now_ms_posix h w = (let (t, x) = sse_now_ms_posix (ho_curl h) (clib w) in (t, w\<lparr>clib := x\<rparr>))"

definition print_to :: "'x host \<Rightarrow> print_line \<Rightarrow> 'x curl_sys \<Rightarrow> ('x curl_sys, unit) script" where
  "print_to h l w = Return () (w\<lparr>clib := ho_print h l (clib w)\<rparr>)"

definition posix_on_open :: "'x host \<Rightarrow> 'x curl_sys \<Rightarrow> u32 \<Rightarrow> ('x curl_sys, unit) script" where
  "posix_on_open h w rc = print_to h (PrintOpen rc) w"

text \<open>\<open>%s\<close> stops at a NUL, \<open>%.*s\<close> also at the given length.\<close>

definition posix_on_message :: "'x host \<Rightarrow> 'x curl_sys \<Rightarrow> sse_message \<Rightarrow> ('x curl_sys, unit) script" where
  "posix_on_message h w m =
     (let text = takeWhile (\<lambda>b. b \<noteq> 0) in
      print_to h (PrintMessage (text (msg_event m)) (text (msg_last_event_id m))
                    (text (take (msg_data_len m) (msg_data m)))) w)"

definition posix_on_error :: "'x host \<Rightarrow> 'x curl_sys \<Rightarrow> sse_error \<Rightarrow> ('x curl_sys, unit) script" where
  "posix_on_error h w e = print_to h (PrintError e) w"

definition posix_on_closed :: "'x host \<Rightarrow> 'x curl_sys \<Rightarrow> unit \<Rightarrow> ('x curl_sys, unit) script" where
  "posix_on_closed h w x = print_to h PrintClosed w"

text \<open>The configuration \<open>main\<close> builds; \<open>d\<close>, \<open>i\<close>, \<open>e\<close> and \<open>r\<close> are the sizes of the static buffers.\<close>

definition posix_config_with :: "nat \<Rightarrow> nat \<Rightarrow> nat \<Rightarrow> nat \<Rightarrow> 'x host \<Rightarrow> bytes \<Rightarrow> 'x curl_sys sse_client_config" where
  "posix_config_with d i e r h u =
     \<lparr>url = Some u, extra_headers = None, default_retry_ms = 0, max_retry_ms = 30000, jitter_pct = 10,
      idle_timeout_ms = 60000, read_timeout_ms = 0, skip_content_type_check = False,
      buffers = \<lparr>buf_data = Some (replicate d 0), buf_data_len = d, buf_id = Some (replicate i 0), buf_id_len = i,
                 buf_event = Some (replicate e 0), buf_event_len = e\<rparr>,
      rx_buf = Some (replicate r 0), rx_buf_len = r, transport = Some (sse_transport_curl (ho_curl h)),
      now_ms = Some (now_ms_posix h),
      callbacks = \<lparr>on_open = Some (posix_on_open h), on_message = Some (posix_on_message h),
                   on_error = Some (posix_on_error h), on_closed = Some (posix_on_closed h)\<rparr>,
      reconnect_policy = None\<rparr>"

definition posix_config :: "'x host \<Rightarrow> bytes \<Rightarrow> 'x curl_sys sse_client_config" where
  "posix_config h u = posix_config_with 8192 128 64 1024 h u"

lemma posix_config_env:
  assumes "2 \<le> d" "2 \<le> i" "i \<le> SSE_CLIENT_ID_MAX + 1" "2 \<le> e" "0 < r"
  shows "client_env (sse_transport_curl (ho_curl h)) (curl_T (ho_curl h) ticks) (posix_config_with d i e r h u)"
proof
  show "callbacks_ok (curl_T (ho_curl h) ticks) (posix_config_with d i e r h u)"
    by (simp add: callbacks_ok_def callback_ok_def callback_at_def posix_config_with_def posix_on_open_def posix_on_message_def
        posix_on_error_def posix_on_closed_def print_to_def Let_def)
qed (use assms in \<open>auto simp: posix_config_with_def client_config_valid_def sse_transport_curl_def
      SSE_CLIENT_MAX_HEADERS_def memory_ok_def buffers_ok_def now_ms_posix_def split_beta\<close>)

interpretation posix_example: client_env "sse_transport_curl (ho_curl h)" "curl_T (ho_curl h) ticks" "posix_config h u"
  for h ticks u
  unfolding posix_config_def by (rule posix_config_env) (simp_all add: SSE_CLIENT_ID_MAX_def)

section \<open>The main loop\<close>

text \<open>
  One turn: \<open>None\<close> in the first component ends the loop, otherwise the microseconds to
  sleep. The loop itself runs as long as the client is not closed, so it is a partial
  function; \<open>usleep\<close> is the parameter \<open>sleep\<close>, and the \<open>SIGINT\<close> handler, which requests a
  stop, may run in it.
\<close>

definition main_turn :: "'w sys \<Rightarrow> (nat option \<times> 'w sys) option" where
  "main_turn s = do {
     (h, s) \<leftarrow> sse_client_poll s;
     if h = UINT32_MAX then Some (None, s)
     else Some (Some (if h > 0 then unat ((if h > 250 then 250 else h) * 1000) else 0), s)
   }"

partial_function (option) main_loop :: "(nat \<Rightarrow> 'w sys \<Rightarrow> 'w sys) \<Rightarrow> 'w sys \<Rightarrow> 'w sys option" where
  "main_loop sleep s = do {
     (us, s) \<leftarrow> main_turn s;
     case us of None \<Rightarrow> Some s | Some n \<Rightarrow> main_loop sleep (if n > 0 then sleep n s else s)
   }"

lemma sleep_bound:
  "unat ((if h > 250 then 250 else h) * 1000 :: u32) \<le> 250000"
proof -
  let ?m = "if h > 250 then 250 else h"
  have "unat ?m \<le> 250" by (simp add: word_le_nat_alt word_less_nat_alt not_less)
  then have "unat (?m * 1000) = unat ?m * 1000" by (simp add: unat_word_ariths)
  then show ?thesis using \<open>unat ?m \<le> 250\<close> by simp
qed

lemma main_turn_ok:
  assumes "client_env t T g" and "settled T g s"
  shows "returns (main_turn s) (\<lambda>(n, s'). settled T g s' \<and> (\<forall>us. n = Some us \<longrightarrow> us \<le> 250000))"
proof -
  obtain h s' where p: "sse_client_poll s = Some (h, s')" "settled T g s'"
    using client_env.poll_ok [OF assms] by (auto simp: returns_iff)
  then show ?thesis using sleep_bound [of h] by (auto simp: main_turn_def)
qed

lemma main_loop_ends_closed:
  assumes env: "client_env t T g" and tmo: "read_timeout_ms g \<noteq> UINT32_MAX"
    and sleep: "\<And>n s. settled T g s \<Longrightarrow> settled T g (sleep n s)"
    and "main_loop sleep s = Some s'" and "settled T g s"
  shows "settled T g s' \<and> state (cl s') = SSE_STATE_CLOSED"
proof -
  let ?P = "\<lambda>d x y. d = sleep \<longrightarrow> settled T g x \<longrightarrow> settled T g y \<and> state (cl y) = SSE_STATE_CLOSED"
  have "main_loop d x = Some y \<Longrightarrow> ?P d x y" for d x y
  proof (rule main_loop.raw_induct [where P = ?P])
    fix loop :: "(nat \<Rightarrow> 'a sys \<Rightarrow> 'a sys) \<Rightarrow> 'a sys \<Rightarrow> 'a sys option" and d x y
    assume IH: "\<And>d x y. loop d x = Some y \<Longrightarrow> ?P d x y"
      and run: "main_turn x \<bind> (\<lambda>(us, s). case us of None \<Rightarrow> Some s
          | Some n \<Rightarrow> loop d (if 0 < n then d n s else s)) = Some y"
    show "?P d x y"
    proof (intro impI)
      assume d: "d = sleep" and x: "settled T g x"
      obtain h u where p: "sse_client_poll x = Some (h, u)" "settled T g u"
        using client_env.poll_ok [OF env x] by (auto simp: returns_iff)
      show "settled T g y \<and> state (cl y) = SSE_STATE_CLOSED"
      proof (cases "h = UINT32_MAX")
        case True
        then show ?thesis using run p polled_max_iff [OF env x p(1) tmo] by (simp add: main_turn_def)
      next
        case False
        then obtain n where "main_turn x = Some (Some n, u)" using p by (simp add: main_turn_def)
        then have "loop d (if 0 < n then d n u else u) = Some y" using run by simp
        then show ?thesis using IH d sleep [OF p(2)] p(2) by (cases "0 < n") auto
      qed
    qed
  qed
  then show ?thesis using assms(4,5) by blast
qed

section \<open>The program\<close>

text \<open>
  \<open>main\<close>, with its arguments, the outcome of the transport's allocations, the initial
  contents of the static client, whether a \<open>SIGINT\<close> arrives before the first poll (\<open>early\<close>)
  and the passing of time in \<open>usleep\<close>: the exit code, and the system after the transport is
  freed. The transport's context is zeroed by then.
\<close>

definition default_url :: bytes where
  "default_url = bytes_of ''http://127.0.0.1:8080/stream''"

definition on_sigint :: "bool \<Rightarrow> 'w sys \<Rightarrow> 'w sys" where
  "on_sigint arrives s = (if arrives then sse_client_request_stop s else s)"

definition posix_main ::
  "bool \<Rightarrow> bool \<Rightarrow> 'x host \<Rightarrow> bytes list \<Rightarrow> 'x curl_sys sse_client \<Rightarrow> bool \<Rightarrow>
   (nat \<Rightarrow> 'x curl_sys sys \<Rightarrow> 'x curl_sys sys) \<Rightarrow> 'x \<Rightarrow> (nat \<times> 'x curl_sys sys option) option" where
  "posix_main got_tr got_ctx h argv c0 early sleep x =
     (let u = (if length argv > 1 then argv ! 1 else default_url) in
      case sse_transport_curl_new got_tr got_ctx (ho_curl h) of
        None \<Rightarrow> Some (1, None)
      | Some (tr, ctx) \<Rightarrow> do {
          (r, c, w) \<leftarrow> sse_client_init (Some c0) (Some (posix_config h u)) \<lparr>cctx = ctx, clib = x\<rparr>;
          case c of
            None \<Rightarrow> Some (1, None)
          | Some c \<Rightarrow>
              if r \<noteq> 0 then Some (1, None)
              else do {
                s \<leftarrow> main_loop sleep (on_sigint early (started c w));
                Some (0, Some (s\<lparr>env := sse_transport_curl_free (ho_curl h) (Some tr) (env s)\<rparr>))
              }
        })"

lemma on_sigint_reachable: "reachable g W s \<Longrightarrow> reachable g W (on_sigint b s)"
  by (auto simp: on_sigint_def intro: reachable.step client_step.stop)

lemma posix_init:
  assumes "curl_T (ho_curl h) ticks False w"
  shows "\<exists>c w'. sse_client_init (Some c0) (Some (posix_config h u)) w = Some (0, Some c, w') \<and>
      reachable (posix_config h u) (curl_T (ho_curl h) ticks False) (started c w')"
proof -
  note env = posix_example.client_env_axioms [where h = h and ticks = ticks and u = u]
  have clk: "now_ms (posix_config h u) = Some (now_ms_posix h)" by (simp add: posix_config_def posix_config_with_def)
  have init: "sse_client_init (Some c0) (Some (posix_config h u)) w =
      Some (0, Some (init_client (posix_config h u) (fst (now_ms_posix h w))), snd (now_ms_posix h w))"
    using client_env.config_valid [OF env] clk by (simp add: sse_client_init_def split_beta)
  have "reachable (posix_config h u) (curl_T (ho_curl h) ticks False)
      (started (init_client (posix_config h u) (fst (now_ms_posix h w))) (snd (now_ms_posix h w)))"
    by (rule reachable.init [where W = "curl_T (ho_curl h) ticks False", OF assms init])
  then show ?thesis using init by blast
qed

end
