(* ===== verification/Curl_Properties.thy ===== *)
theory Curl_Properties
  imports Curl_Stream Curl_Origin Posix_Example Esp_Properties
begin

text \<open>
  The properties of the POSIX port: its transport honours the client's contract and its
  waits end, it hands body bytes on in order, a paused transfer is resumed, header blocks
  are read as the code documents, redirects stay on one origin, and the example program
  runs.
\<close>

section \<open>A libcurl for the examples\<close>

text \<open>
  Its state is the time and the URL. The first URL answers with a redirect to the second,
  which answers 200; every transfer ends after its headers.
\<close>

definition first_url :: bytes where "first_url = bytes_of ''http://h/''"
definition second_url :: bytes where "second_url = bytes_of ''http://h/2''"

definition demo_response :: "bytes \<Rightarrow> bytes" where
  "demo_response u = status_line (bytes_of ''1.1'') (if u = first_url then bytes_of ''302'' else bytes_of ''200'') [CR, LF]"

definition demo_curl :: "(nat \<times> bytes) curl_api" where
  "demo_curl =
     \<lparr>cu_easy_init = (\<lambda>x. (True, x)), cu_multi_init = (\<lambda>x. (True, x)), cu_slist_append = (\<lambda>x h. (True, x)),
      cu_set_url = (\<lambda>x u. (fst x, u)), cu_set_options = (\<lambda>x hs. x), cu_add_handle = (\<lambda>x. x),
      cu_remove_handle = (\<lambda>x. x), cu_easy_cleanup = (\<lambda>x. x), cu_multi_cleanup = (\<lambda>x. x), cu_slist_free = (\<lambda>x. x),
      cu_unpause = (\<lambda>x. CallBody (bytes_of ''late'') (\<lambda>n. Finished x)), cu_wait = (\<lambda>x ms. (CURLM_OK, False, x)),
      cu_perform = (\<lambda>x. CallHeader (demo_response (snd x)) (\<lambda>n. CallHeader blank_line (\<lambda>n. Finished (CURLM_OK, x)))),
      cu_messages = (\<lambda>x. ([(True, CURLE_OK)], x)), cu_redirect_url = (\<lambda>x. Some second_url),
      cu_effective_url = (\<lambda>x. Some (snd x)), cu_response_code = (\<lambda>x. if snd x = first_url then 302 else 200),
      cu_content_type = (\<lambda>x. Some (bytes_of ''text/event-stream'')),
      cu_url_parts = (\<lambda>x u. Some (bytes_of ''http'', bytes_of ''h'', bytes_of ''80'')),
      cu_clock = (\<lambda>x. ((of_nat (fst x div 1000000000), of_nat (fst x mod 1000000000)), (fst x + 1, snd x)))\<rparr>"

definition fresh_curl :: "(nat \<times> bytes) curl_sys" where
  "fresh_curl = \<lparr>cctx = blank_ctx, clib = (0, [])\<rparr>"

lemma demo_digits:
  "list_all is_digit (bytes_of ''302'')" "list_all is_digit (bytes_of ''200'')" "decimal (bytes_of ''302'') = 302"
  "decimal (bytes_of ''200'') = 200" "SPACE \<notin> set (bytes_of ''1.1'')" "\<not> is_digit CR"
  by (simp_all add: bytes_of_def is_digit_def decimal_def SPACE_def CR_def)

lemma demo_status:
  "on_header (demo_response u) t = Some (length (demo_response u), t\<lparr>cu_retry_after_s := -1, headers_done := False,
     header_block_status := (if u = first_url then 302 else 200)\<rparr>)"
  using on_status_line [of "bytes_of ''1.1''" "bytes_of ''302''" "[CR, LF]" t]
    on_status_line [of "bytes_of ''1.1''" "bytes_of ''200''" "[CR, LF]" t] demo_digits
  by (simp add: demo_response_def INT_MAX_def)

lemma demo_header_lines: "header_line_ok (demo_response u)" "header_line_ok blank_line"
proof -
  have "bytes_of ''HTTP/'' @ bytes_of ''1.1'' = bytes_of ''HTTP/1.1''" by (simp add: bytes_of_def)
  then have "memchr (status_line (bytes_of ''1.1'') ds [CR, LF]) SPACE = Some 8" for ds
    using memchr_append [of SPACE "bytes_of ''HTTP/1.1''" "ds @ [CR, LF]"]
    by (simp add: status_line_def bytes_of_def SPACE_def)
  moreover have "leading_digits (drop 9 (status_line (bytes_of ''1.1'') ds [CR, LF])) = ds" if "list_all is_digit ds" for ds
    using leading_digits_append [OF that, of "[CR, LF]"] demo_digits(6) by (simp add: status_line_def bytes_of_def)
  moreover have "length (bytes_of ''302'') \<le> 3" "length (bytes_of ''200'') \<le> 3" by (simp_all add: bytes_of_def)
  ultimately show "header_line_ok (demo_response u)"
    using demo_digits(1,2) by (simp add: header_line_ok_def demo_response_def) (simp add: status_line_def)
  show "header_line_ok blank_line" by (simp add: header_line_ok_def blank_line_def bytes_of_def)
qed

lemma demo_laws: "curl_laws demo_curl fst" "url_laws demo_curl snd" "chunk_laws demo_curl"
  using demo_header_lines
  by (auto simp: curl_laws_def url_laws_def chunk_laws_def demo_curl_def passes_def NS_def chunk_ok_def bytes_of_def)

lemma fresh_curl_T: "curl_T demo_curl fst False fresh_curl"
  by (simp add: curl_T_def fresh_curl_def demo_laws)

section \<open>The contract\<close>



section \<open>Body bytes\<close>

text \<open>C29: The ring loses, repeats and reorders nothing: over any sequence of reads, the bytes handed to the caller followed by those still in the ring are the bytes that were in the ring followed by those the transport took over from libcurl meanwhile.\<close>

theorem reads_in_order:
  assumes "curl_T api ticks True w" and "chunk_laws api"
  shows "\<exists>out inp w'. reads api m ts w = Some (out, inp, w') \<and> out @ queue (cctx w') = queue (cctx w) @ inp \<and>
    length (queue (cctx w')) \<le> RING_CAP"
  using reads_queue [OF assms, of m ts] by (auto simp: returns_iff curl_T_def cctx_ok_def)

definition paused_curl :: "(nat \<times> bytes) curl_sys" where
  "paused_curl = \<lparr>cctx = blank_ctx\<lparr>easy := True, multi := True, paused := True, r_head := RING_CAP - 1\<rparr>, clib = (0, first_url)\<rparr>"

lemma paused_curl_T: "curl_T demo_curl fst True paused_curl"
  by (simp add: curl_T_def paused_curl_def demo_laws) (simp add: cctx_ok_def blank_ctx_def RING_CAP_def)

theorem reads_in_order_witness:
  "\<exists>out inp w'. reads demo_curl (replicate 3 0) [5, 5, 5] paused_curl = Some (out, inp, w') \<and> out @ queue (cctx w') = inp"
  using reads_in_order [OF paused_curl_T demo_laws(3), of "replicate 3 0" "[5, 5, 5]"]
  by (auto simp: paused_curl_def queue_def blank_ctx_def)

text \<open>C30: A paused transfer does not stay stuck: with at least half the ring filled a read returns bytes at once, and with less the next pump unpauses libcurl and the chunk it held back, being at most 16 KiB, is taken over.\<close>

theorem paused_transfer_resumes:
  assumes "curl_T api ticks True w" and "paused (cctx w)" and "\<not> in_redirect (cctx w)"
    and "0 < len" and "len \<le> length m"
    and "cu_unpause api (clib w) = CallBody chunk k" and "chunk_ok chunk"
  shows "if RING_CAP div 2 \<le> r_len (cctx w)
    then \<exists>r m' w'. curl_read_fn api w m len tmo = Some (r, m', False, w') \<and> 0 < sint r
    else \<exists>t. resume_transfer api w =
      (do { (x, t) \<leftarrow> run_curl (k (length chunk)) t; Some (w\<lparr>cctx := t, clib := x\<rparr>) }) \<and>
      queue t = queue (cctx w) @ chunk \<and> \<not> paused t"
proof (cases "RING_CAP div 2 \<le> r_len (cctx w)")
  case True
  have c: "cctx_ok (cctx w)" using assms(1) by (simp add: curl_T_def)
  let ?n = "min (r_len (cctx w)) len"
  have n: "0 < ?n" "?n \<le> RING_CAP" "r_len (cctx w) \<noteq> 0"
    using True assms(4) c by (auto simp: RING_CAP_def cctx_ok_def)
  then have "0 < sint (of_nat ?n :: i32)"
    by (simp add: RING_CAP_def signed_of_nat signed_take_bit_int_eq_self)
  moreover obtain r m' w' where d: "drain api m len w = Some (r, m', w')"
    using drain_ok [OF assms(1,5)] by (auto simp: returns_iff)
  moreover have "r = of_nat ?n" using d by (auto simp: drain_def Let_def bind_eq_Some_conv)
  ultimately show ?thesis using True n(3) by (simp add: curl_read_fn_def)
next
  case False
  let ?t = "(cctx w)\<lparr>paused := False\<rparr>"
  have c: "cctx_ok ?t" using assms(1) by (simp add: curl_T_def)
  have "length (queue ?t) + length chunk \<le> RING_CAP"
    using False assms(7) by (simp add: chunk_ok_def RING_CAP_def)
  moreover have "\<not> in_redirect ?t" using assms(3) by (simp add: in_redirect_def)
  ultimately obtain u where "on_body chunk ?t = Some (length chunk, u)" "queue u = queue ?t @ chunk" "\<not> paused u"
    using on_body_queue [OF c, of chunk] by auto
  then show ?thesis using False assms(2,6) by (auto simp: resume_transfer_def)
qed

theorem paused_transfer_resumes_witness:
  "\<exists>t. resume_transfer demo_curl paused_curl = Some (paused_curl\<lparr>cctx := t, clib := (0, first_url)\<rparr>) \<and> queue t = bytes_of ''late''"
proof -
  have "\<not> in_redirect (cctx paused_curl)" "paused (cctx paused_curl)" "r_len (cctx paused_curl) = 0"
    by (simp_all add: paused_curl_def in_redirect_def blank_ctx_def)
  moreover have "cu_unpause demo_curl (clib paused_curl) = CallBody (bytes_of ''late'') (\<lambda>n. Finished (0, first_url))"
    by (simp add: demo_curl_def paused_curl_def)
  moreover have "chunk_ok (bytes_of ''late'')" by (simp add: chunk_ok_def bytes_of_def)
  moreover have "queue (cctx paused_curl) = []" by (simp add: paused_curl_def queue_def blank_ctx_def)
  ultimately show ?thesis
    using paused_transfer_resumes [OF paused_curl_T, of 1 "[0]" "bytes_of ''late''" "\<lambda>n. Finished (0, first_url)"]
    by (auto simp: RING_CAP_def)
qed

section \<open>Headers\<close>

text \<open>C31: A header block sets the status, completes the open unless it is informational (1xx), and yields the retry delay of its \<open>Retry-After\<close> field, if it has one; a delay read from an earlier block is forgotten, and nothing else changes. The delay is the number in the field modulo 2^32, so one of at least 2^31 seconds becomes negative or small.\<close>

theorem header_block_read:
  assumes "SPACE \<notin> set ver" and "list_all is_digit ds" and "rest = [] \<or> \<not> is_digit (hd rest)" and "decimal ds < 1000"
    and "list_all other_field fs" and "list_all other_field gs"
    and "map lower name = bytes_of ''retry-after:''" and "list_all is_digit n" and "n \<noteq> []" and "decimal n < 2 ^ 63"
  shows "on_headers (status_line ver ds rest # fs @ (if has_retry then [retry_field name sp n] else []) @ gs @ [blank_line]) t =
    Some (t\<lparr>header_block_status := of_nat (decimal ds), headers_done := (200 \<le> decimal ds),
       cu_retry_after_s := (if has_retry then of_nat (decimal n) else -1)\<rparr>)"
proof -
  have d: "decimal ds \<le> INT_MAX" using assms(4) by (simp add: INT_MAX_def)
  have s: "sint (of_nat (decimal ds) :: i32) = int (decimal ds)"
    using assms(4) by (simp add: signed_of_nat signed_take_bit_int_eq_self)
  have m: "min (2 ^ 63 - 1) (decimal n) = decimal n" using assms(10) by simp
  show ?thesis
    using s m by (simp add: on_headers_append on_status_line [OF assms(1-3) d] on_other_fields [OF assms(5)]
        on_other_fields [OF assms(6)] on_retry_field [OF assms(7-9)] on_blank_line)
qed

theorem header_block_read_witness:
  "\<forall>t. on_headers [demo_response second_url, bytes_of ''X: y'' @ [CR, LF],
       retry_field (bytes_of ''Retry-After:'') 1 (bytes_of ''4294967296''), blank_line] t =
    Some (t\<lparr>header_block_status := 200, headers_done := True, cu_retry_after_s := 0\<rparr>)"
proof
  fix t
  have 1: "map lower (bytes_of ''Retry-After:'') = bytes_of ''retry-after:''" "bytes_of ''4294967296'' \<noteq> []"
    by code_simp+
  have 2: "list_all is_digit (bytes_of ''4294967296'')" "decimal (bytes_of ''4294967296'') = 4294967296"
    by (simp_all add: is_digit_def decimal_def bytes_of_def)
  have 3: "list_all other_field [bytes_of ''X: y'' @ [CR, LF]]" by code_simp
  have 4: "demo_response second_url = status_line (bytes_of ''1.1'') (bytes_of ''200'') [CR, LF]"
    by (simp add: demo_response_def first_url_def second_url_def bytes_of_def)
  have 5: "of_nat 4294967296 = (0 :: i32)" by simp
  show "on_headers [demo_response second_url, bytes_of ''X: y'' @ [CR, LF],
       retry_field (bytes_of ''Retry-After:'') 1 (bytes_of ''4294967296''), blank_line] t =
    Some (t\<lparr>header_block_status := 200, headers_done := True, cu_retry_after_s := 0\<rparr>)"
    using header_block_read [OF demo_digits(5,2) _ _ 3 _ 1(1) 2(1) 1(2), of "[CR, LF]" "[]" True 1 t] 4 5 2(2) demo_digits(4,6)
    by simp
qed

section \<open>Redirects\<close>

text \<open>C32: The connection a successful open leaves is to the requested URL or to one of the same scheme, host and port: request headers never travel to another origin.\<close>

theorem curl_open_stays_on_origin:
  assumes "url_laws api cur" and "curl_open_fn api w req i = Some (0, i', w')"
  shows "cur (clib w') = req_url req \<or> same_origin api (clib w') (req_url req) (cur (clib w'))"
  using curl_open_url [OF assms(2,1), of "clib w'"] by (auto simp: within_def)

lemma demo_pump:
  assumes "\<not> paused (cctx w)"
  shows "pump demo_curl 100 w = Some (True, False, w\<lparr>cctx := (cctx w)\<lparr>cu_retry_after_s := -1, headers_done := True,
     header_block_status := (if snd (clib w) = first_url then 302 else 200), transfer_done := True, transfer_result := CURLE_OK\<rparr>\<rparr>)"
  using assms by (simp add: pump_def resume_transfer_def) (simp add: demo_curl_def demo_status on_blank_line harvest_def)

lemma demo_now:
  assumes "fst x < 1000"
  shows "sse_now_ms_posix demo_curl x = (0, (fst x + 1, snd x))"
proof -
  obtain now y where y: "sse_now_ms_posix demo_curl x = (now, y)" by (cases "sse_now_ms_posix demo_curl x") auto
  then have "y = (fst x + 1, snd x)" by (auto simp: sse_now_ms_posix_def demo_curl_def)
  moreover have "now = 0" using clock_laws(1) [OF demo_laws(1) y] assms by (simp add: NS_def)
  ultimately show ?thesis using y by simp
qed

lemma demo_wait_done: "transfer_done (cctx w) \<Longrightarrow> fst (clib w) < 999 \<Longrightarrow>
   timed_wait demo_curl transfer_done w = Some (True, w\<lparr>clib := (fst (clib w) + 1, snd (clib w))\<rparr>)"
  by (simp add: timed_wait_def demo_now) (subst wait_for.simps, simp)

text \<open>The context after the headers of a hop.\<close>

definition answered :: "bytes \<Rightarrow> curl_ctx \<Rightarrow> curl_ctx" where
  "answered u t = t\<lparr>cu_retry_after_s := -1, headers_done := True,
     header_block_status := (if u = first_url then 302 else 200), transfer_done := True, transfer_result := CURLE_OK\<rparr>"

lemma answered_simps [simp]:
  "headers_ready (answered u t)" "transfer_done (answered u t)" "headers_done (answered u t)"
  "in_redirect (answered u t) \<longleftrightarrow> u = first_url" "paused (answered u t) = paused t"
  by (simp_all add: answered_def headers_ready_def in_redirect_def)

lemma demo_wait_headers:
  assumes "\<not> paused (cctx w)" and "\<not> headers_ready (cctx w)" and "fst (clib w) < 998"
  shows "timed_wait demo_curl headers_ready w =
    Some (True, w\<lparr>clib := (fst (clib w) + 2, snd (clib w)), cctx := answered (snd (clib w)) (cctx w)\<rparr>)"
proof -
  have fin: "wait_for demo_curl headers_ready 0 (v\<lparr>cctx := answered u t\<rparr>) = Some (True, v\<lparr>cctx := answered u t\<rparr>)" for u t v
    by (subst wait_for.simps) simp
  have "wait_for demo_curl headers_ready 0 v = Some (True, v\<lparr>clib := (fst (clib v) + 1, snd (clib v)), cctx := answered (snd (clib v)) (cctx v)\<rparr>)"
    if "\<not> paused (cctx v)" "\<not> headers_ready (cctx v)" "fst (clib v) < 999" for v
    using that fin [where v = "v\<lparr>clib := (fst (clib v) + 1, snd (clib v))\<rparr>"]
    by (subst wait_for.simps) (simp add: demo_now OPEN_TIMEOUT_MS_def demo_pump [folded answered_def])
  from this [of "w\<lparr>clib := (fst (clib w) + 1, snd (clib w))\<rparr>"] show ?thesis
    using assms by (simp add: timed_wait_def demo_now)
qed

lemma demo_hops:
  assumes "\<not> paused (cctx w)" and "\<not> headers_ready (cctx w)" and "clib w = (0, first_url)"
  shows "\<exists>w'. curl_hops demo_curl 0 w = Some (True, w') \<and> clib w' = (5, second_url)"
proof -
  have ne: "first_url \<noteq> second_url" by (simp add: first_url_def second_url_def bytes_of_def)
  have tgt: "redirect_target demo_curl x = Some second_url" for x
    by (simp add: redirect_target_def demo_curl_def same_origin_def strcasecmp_eq_def)
  have go: "clib (next_hop demo_curl second_url v) = (fst (clib v), second_url)" "\<not> paused (cctx (next_hop demo_curl second_url v))"
    "\<not> headers_ready (cctx (next_hop demo_curl second_url v))" for v
    by (simp_all add: next_hop_def demo_curl_def headers_ready_def)
  have last: "\<exists>w'. curl_hops demo_curl 1 v = Some (True, w') \<and> clib w' = (5, second_url)"
    if "\<not> paused (cctx v)" "\<not> headers_ready (cctx v)" "clib v = (3, second_url)" for v
    using that ne [symmetric] by (subst curl_hops.simps) (simp add: demo_wait_headers)
  show ?thesis
    using assms last [OF go(2,3)]
    by (subst curl_hops.simps) (simp add: demo_wait_headers demo_wait_done tgt go(1) MAX_REDIRECT_HOPS_def)
qed

theorem curl_open_stays_on_origin_witness:
  "\<exists>i' w'. curl_open_fn demo_curl fresh_curl \<lparr>req_url = first_url, req_headers = [None]\<rparr> fresh_info = Some (0, i', w') \<and>
     snd (clib w') = second_url \<and> same_origin demo_curl (clib w') first_url second_url"
proof -
  let ?w = "\<lparr>cctx = blank_ctx\<lparr>easy := True, multi := True\<rparr>, clib = (0, first_url)\<rparr> :: (nat \<times> bytes) curl_sys"
  let ?req = "\<lparr>req_url = first_url, req_headers = [None]\<rparr>"
  have "\<not> paused (cctx ?w)" "\<not> headers_ready (cctx ?w)" by (simp_all add: blank_ctx_def headers_ready_def)
  then obtain v where hops: "curl_hops demo_curl 0 ?w = Some (True, v)" "clib v = (5, second_url)"
    using demo_hops [of ?w] by auto
  have pre: "teardown demo_curl fresh_curl = fresh_curl" by (simp add: teardown_def fresh_curl_def)
  obtain m where "snprintf_to (content_type fresh_info) 64 (bytes_of ''text/event-stream'') = Some m"
    by (simp add: snprintf_to_def fresh_info_def Let_def)
  then obtain i' w' where o: "curl_open_fn demo_curl fresh_curl ?req fresh_info = Some (0, i', w')" "snd (clib w') = second_url"
    using hops pre
    by (simp add: curl_open_fn_def) (simp add: demo_curl_def fresh_curl_def)
  have "first_url \<noteq> second_url" by (simp add: first_url_def second_url_def bytes_of_def)
  then show ?thesis using curl_open_stays_on_origin [OF demo_laws(2) o(1)] o by auto
qed

section \<open>The example program\<close>

text \<open>The POSIX example keeps its client running: for any libcurl that keeps its promises, \<open>sse_client_init\<close> accepts the configuration of \<open>main\<close>, and every turn of its loop from any state reached later returns, sleeping at most 250 ms.\<close>

theorem posix_example_runs:
  assumes "curl_T (ho_curl h) ticks False w"
  shows "\<exists>c w'. sse_client_init (Some c0) (Some (posix_config h u)) w = Some (0, Some c, w') \<and>
      reachable (posix_config h u) (curl_T (ho_curl h) ticks False) (started c w') \<and>
    (reachable (posix_config h u) (curl_T (ho_curl h) ticks False) s \<longrightarrow>
      (\<exists>n s'. main_turn s = Some (n, s') \<and> (\<forall>us. n = Some us \<longrightarrow> us \<le> 250000)))"
proof -
  note env = posix_example.client_env_axioms [where h = h and ticks = ticks and u = u]
  have "\<exists>n s'. main_turn s = Some (n, s') \<and> (\<forall>us. n = Some us \<longrightarrow> us \<le> 250000)"
    if "reachable (posix_config h u) (curl_T (ho_curl h) ticks False) s"
    using main_turn_ok [OF env reach_settled [OF env that]] by (auto simp: returns_iff)
  then show ?thesis using posix_init [OF assms, of c0 u] by blast
qed

definition demo_host :: "(nat \<times> bytes) host" where
  "demo_host = \<lparr>ho_curl = demo_curl, ho_print = (\<lambda>l x. x)\<rparr>"

lemma demo_host_T: "curl_T (ho_curl demo_host) fst False fresh_curl"
  using fresh_curl_T by (simp add: demo_host_def)

theorem posix_example_runs_witness:
  "\<forall>c0. \<exists>c w' n s'. sse_client_init (Some c0) (Some (posix_config demo_host first_url)) fresh_curl = Some (0, Some c, w') \<and>
     main_turn (started c w') = Some (n, s')"
proof
  fix c0
  obtain c w' where "sse_client_init (Some c0) (Some (posix_config demo_host first_url)) fresh_curl = Some (0, Some c, w')"
    "reachable (posix_config demo_host first_url) (curl_T (ho_curl demo_host) fst False) (started c w')"
    using posix_example_runs [OF demo_host_T, of c0 first_url] by blast
  then show "\<exists>c w' n s'. sse_client_init (Some c0) (Some (posix_config demo_host first_url)) fresh_curl = Some (0, Some c, w') \<and>
     main_turn (started c w') = Some (n, s')"
    using posix_example_runs [OF demo_host_T, of c0 first_url "started c w'"] by auto
qed

text \<open>C33: The program exits with 1 exactly when the transport cannot be allocated; otherwise, if its loop ends, it exits with 0, the client CLOSED, its transport closed and every libcurl handle released, whatever stop requests arrive before the loop or while it sleeps.\<close>

theorem posix_main_exit:
  assumes "curl_laws (ho_curl h) ticks" and "posix_main got_tr got_ctx h argv c0 early sleep x = Some (code, final)"
    and "\<And>u n s. settled (curl_T (ho_curl h) ticks) (posix_config h u) s \<Longrightarrow>
      settled (curl_T (ho_curl h) ticks) (posix_config h u) (sleep n s)"
  shows "if got_tr \<and> got_ctx
    then code = 0 \<and> (\<exists>s. final = Some s \<and> state (cl s) = SSE_STATE_CLOSED \<and> \<not> transport_open (cl s) \<and>
           curl_T (ho_curl h) ticks False (env s))
    else code = 1 \<and> final = None"
proof (cases "got_tr \<and> got_ctx")
  case False
  then show ?thesis using assms(2) by (auto simp: posix_main_def sse_transport_curl_new_def)
next
  case True
  let ?u = "if length argv > 1 then argv ! 1 else default_url"
  let ?g = "posix_config h ?u" and ?T = "curl_T (ho_curl h) ticks"
  note env = posix_example.client_env_axioms [where h = h and ticks = ticks and u = "?u"]
  have T: "?T False \<lparr>cctx = blank_ctx, clib = x\<rparr>" using assms(1) by (simp add: curl_T_def)
  obtain c w' where c: "sse_client_init (Some c0) (Some ?g) \<lparr>cctx = blank_ctx, clib = x\<rparr> = Some (0, Some c, w')"
    "reachable ?g (?T False) (started c w')"
    using posix_init [OF T, of c0 "?u"] by blast
  have new: "sse_transport_curl_new got_tr got_ctx (ho_curl h) = Some (sse_transport_curl (ho_curl h), blank_ctx)"
    using True by (simp add: sse_transport_curl_new_def)
  obtain s where s: "main_loop sleep (on_sigint early (started c w')) = Some s" "code = 0"
      "final = Some (s\<lparr>env := sse_transport_curl_free (ho_curl h) (Some (sse_transport_curl (ho_curl h))) (env s)\<rparr>)"
    using assms(2) c(1) new by (auto simp: posix_main_def Let_def bind_eq_Some_conv)
  have "read_timeout_ms ?g \<noteq> UINT32_MAX"
    by (simp add: posix_config_def posix_config_with_def UINT32_MAX_def)
  from main_loop_ends_closed [OF env this assms(3) s(1) reach_settled [OF env on_sigint_reachable [OF c(2)]]]
  have "state (cl s) = SSE_STATE_CLOSED" "\<not> transport_open (cl s)" by (simp_all add: settled_def)
  moreover have "?T False (sse_transport_curl_free (ho_curl h) (Some (sse_transport_curl (ho_curl h))) (env s))"
    using assms(1) by (simp add: sse_transport_curl_free_def curl_T_def)
  ultimately show ?thesis using True s(2,3) by auto
qed

lemma demo_host_stopped:
  "\<exists>s. posix_main True True demo_host [[], first_url] c0 True (\<lambda>n s. s) (0, []) = Some (0, Some s)"
proof -
  let ?g = "posix_config demo_host first_url"
  obtain c w' where c: "sse_client_init (Some c0) (Some ?g) fresh_curl = Some (0, Some c, w')"
    "reachable ?g (curl_T (ho_curl demo_host) fst False) (started c w')"
    using posix_init [OF demo_host_T, of c0 first_url] by blast
  let ?s = "on_sigint True (started c w')"
  note env = posix_example.client_env_axioms [where h = demo_host and ticks = fst and u = first_url]
  have s: "settled (curl_T (ho_curl demo_host) fst) ?g ?s"
    by (rule reach_settled [OF env on_sigint_reachable [OF c(2)]])
  obtain h u where p: "sse_client_poll ?s = Some (h, u)" "polled (settled (curl_T (ho_curl demo_host) fst) ?g) ?s h u"
    using client_env.poll_ok [OF env s] by (auto simp: returns_iff)
  then have "h = UINT32_MAX" by (auto simp: polled_def on_sigint_def sse_client_request_stop_def split: if_splits)
  then have "main_loop (\<lambda>n s. s) ?s = Some u" using p(1) by (subst main_loop.simps) (simp add: main_turn_def)
  then show ?thesis using c(1) by (simp add: posix_main_def sse_transport_curl_new_def fresh_curl_def)
qed

theorem posix_main_exit_witness:
  "\<forall>c0. \<exists>s. posix_main True True demo_host [[], first_url] c0 True (\<lambda>n s. s) (0, []) = Some (0, Some s) \<and>
     state (cl s) = SSE_STATE_CLOSED \<and> curl_T demo_curl fst False (env s)"
proof
  fix c0
  obtain s where s: "posix_main True True demo_host [[], first_url] c0 True (\<lambda>n s. s) (0, []) = Some (0, Some s)"
    using demo_host_stopped by blast
  have "curl_laws (ho_curl demo_host) fst" using demo_laws(1) by (simp add: demo_host_def)
  from posix_main_exit [OF this s] s
  show "\<exists>s. posix_main True True demo_host [[], first_url] c0 True (\<lambda>n s. s) (0, []) = Some (0, Some s) \<and>
     state (cl s) = SSE_STATE_CLOSED \<and> curl_T demo_curl fst False (env s)"
    by (simp add: demo_host_def)
qed

end
