(* ===== verification/Sse_Client_History.thy ===== *)
theory Sse_Client_History
  imports Sse_Client_Stream
begin

text \<open>
  The history of the client against the state of its world: a relation between the two that
  each call of the transport, reading the clock and each user callback respect holds in every
  reachable state. It lets a program say what the bytes in its history have to do with the
  state of its transport.
\<close>

section \<open>What respects a relation\<close>

text \<open>A move of the world from \<open>w\<close> to \<open>w'\<close> that leaves every history as fitting as it was.\<close>

definition fits :: "(obs list \<Rightarrow> 'w \<Rightarrow> bool) \<Rightarrow> 'w \<Rightarrow> 'w \<Rightarrow> bool" where
  "fits H w w' \<longleftrightarrow> (\<forall>tr. H tr w \<longrightarrow> H tr w')"

primrec script_fits :: "(obs list \<Rightarrow> 'w \<Rightarrow> bool) \<Rightarrow> ('w, 'r) script \<Rightarrow> 'w \<Rightarrow> bool" where
  "script_fits H (Return r w) w0 = fits H w0 w"
| "script_fits H (Invoke a w k) w0 = (fits H w0 w \<and> (\<forall>v w'. script_fits H (k v w') w'))"

text \<open>
  A callback moves the world while its call joins the history; what it does after calling the
  client back is a move like any other.
\<close>

primrec script_joins :: "(obs list \<Rightarrow> 'w \<Rightarrow> bool) \<Rightarrow> obs \<Rightarrow> ('w, 'r) script \<Rightarrow> 'w \<Rightarrow> bool" where
  "script_joins H ob (Return r w) w0 = (\<forall>tr. H tr w0 \<longrightarrow> H (tr @ [ob]) w)"
| "script_joins H ob (Invoke a w k) w0 = ((\<forall>tr. H tr w0 \<longrightarrow> H (tr @ [ob]) w) \<and> (\<forall>v w'. script_fits H (k v w') w'))"

definition callback_joins :: "(obs list \<Rightarrow> 'w \<Rightarrow> bool) \<Rightarrow> ('w \<Rightarrow> 'a \<Rightarrow> ('w, 'r) script) option \<Rightarrow> ('a \<Rightarrow> obs) \<Rightarrow> bool" where
  "callback_joins H f ob \<longleftrightarrow> (\<forall>h w x. f = Some h \<longrightarrow> script_joins H (ob x) (h w x) w)"

locale world_history =
  fixes g :: "'w sse_client_config" and t :: "'w sse_transport" and H :: "obs list \<Rightarrow> 'w \<Rightarrow> bool"
  assumes transport_is: "transport g = Some t"
    and open_law: "tr_open t = Some fo \<Longrightarrow> H tr w \<Longrightarrow> fo w req fresh_info = Some (r, i, w') \<Longrightarrow> H (tr @ [TOpen req (r = 0)]) w'"
    and read_law: "tr_read t = Some fr \<Longrightarrow> H tr w \<Longrightarrow> fr w m len tmo = Some (r, m', stopped, w') \<Longrightarrow>
          H (tr @ [TRead r (rx_bytes len r m')]) w'"
    and close_law: "tr_close t = Some fc \<Longrightarrow> H tr w \<Longrightarrow> fc w = Some w' \<Longrightarrow> H (tr @ [TClose]) w'"
    and clock_law: "now_ms g = Some clk \<Longrightarrow> H tr w \<Longrightarrow> H tr (snd (clk w))"
    and callback_laws: "callback_joins H (on_open (callbacks g)) CbOpen" "callback_joins H (on_message (callbacks g)) CbMessage"
          "callback_joins H (on_error (callbacks g)) CbError" "callback_joins H (on_closed (callbacks g)) (\<lambda>x. CbClosed)"
          "callback_joins H (reconnect_policy g) CbPolicy"
begin

definition follows :: "'w sys \<Rightarrow> bool" where
  "follows s \<longleftrightarrow> H (trace s) (env s) \<and> transport (cfg (cl s)) = Some t \<and> now_ms (cfg (cl s)) = now_ms g \<and>
     callbacks (cfg (cl s)) = callbacks g \<and> reconnect_policy (cfg (cl s)) = reconnect_policy g"

lemma follows_cl: "follows s \<Longrightarrow> cfg (f (cl s)) = cfg (cl s) \<Longrightarrow> follows (upd f s)"
  by (simp add: follows_def)

lemma follows_set [simp]: "follows (set_state st s) = follows s" "follows (sse_client_request_stop s) = follows s"
  by (simp_all add: follows_def sse_client_request_stop_def)

lemma follows_world: "follows s \<Longrightarrow> fits H (env s) w \<Longrightarrow> follows (s\<lparr>env := w\<rparr>)"
  by (simp add: follows_def fits_def)

lemma read_clock_follows: "read_clock s = Some (n, s') \<Longrightarrow> follows s \<Longrightarrow> follows s'"
  by (auto simp: read_clock_def follows_def split_beta dest: clock_law split: bind_splits)

lemma close_transport_follows: "close_transport s = Some s' \<Longrightarrow> follows s \<Longrightarrow> follows s'"
  by (auto simp: close_transport_def follows_def dest: close_law split: if_splits bind_splits)

section \<open>Callbacks\<close>

lemma run_script_follows:
  assumes close: "\<And>s s'. close s = Some s' \<Longrightarrow> follows s \<Longrightarrow> follows s'"
    and "run_script close sc s = Some (r, s')" and "follows s" and "script_fits H sc (env s)"
  shows "follows s'"
  using assms(2-4)
proof (induction sc arbitrary: s)
  case (Return r w)
  then show ?case using follows_world by auto
next
  case (Invoke a w k)
  let ?s = "s\<lparr>env := w\<rparr>"
  have s: "follows ?s" using Invoke.prems follows_world by simp
  obtain u where u: "follows u" "run_script close (k (view_of u) (env u)) u = Some (r, s')"
    using Invoke.prems(1) s close that [of "sse_client_request_stop ?s"] by (cases a) (auto split: bind_splits)
  moreover have "script_fits H (k (view_of u) (env u)) (env u)" using Invoke.prems(3) by simp
  ultimately show ?case using Invoke.IH by blast
qed

lemma noted_follows:
  assumes close: "\<And>s s'. close s = Some s' \<Longrightarrow> follows s \<Longrightarrow> follows s'"
    and "run_script close sc (note_obs ob s) = Some (r, s')" and "follows s" and "script_joins H ob sc (env s)"
  shows "follows s'"
proof (cases sc)
  case (Return v w)
  then show ?thesis using assms(2-4) by (auto simp: follows_def)
next
  case (Invoke a w k)
  let ?s = "(note_obs ob s)\<lparr>env := w\<rparr>"
  have s: "follows ?s" using assms(3,4) Invoke by (simp add: follows_def)
  obtain u where u: "follows u" "run_script close (k (view_of u) (env u)) u = Some (r, s')"
    using assms(2) Invoke s close that [of "sse_client_request_stop ?s"] by (cases a) (auto split: bind_splits)
  have "script_fits H (k (view_of u) (env u)) (env u)" using assms(4) Invoke by simp
  from run_script_follows [where close = close, OF _ u(2,1) this] close show ?thesis by blast
qed

lemma call_user_follows:
  assumes close: "\<And>s s'. close s = Some s' \<Longrightarrow> follows s \<Longrightarrow> follows s'"
    and "call_user close f x (ob x) s = Some s'" and "follows s" and "callback_joins H f ob"
  shows "follows s'"
proof (cases f)
  case None
  then show ?thesis using assms(2,3) by (simp add: call_user_def)
next
  case (Some h)
  then obtain r where r: "run_script close (h (env s) x) (note_obs (ob x) s) = Some (r, s')"
    using assms(2) by (auto simp: call_user_def split: bind_splits)
  have "script_joins H (ob x) (h (env s) x) (env s)" using assms(4) Some by (simp add: callback_joins_def)
  from noted_follows [OF close r assms(3) this] show ?thesis .
qed

lemma to_closed_follows: "to_closed s = Some s' \<Longrightarrow> follows s \<Longrightarrow> follows s'"
proof -
  assume run: "to_closed s = Some s'" and s: "follows s"
  obtain u where u: "close_transport s = Some u" using run by (auto simp: to_closed_def split: bind_splits)
  then have fu: "follows u" using s by (rule close_transport_follows)
  show ?thesis
  proof (cases "state (cl u) = SSE_STATE_CLOSED")
    case True
    then show ?thesis using run u fu by (simp add: to_closed_def)
  next
    case False
    then have "call_user close_transport (on_closed (callbacks g)) () CbClosed (set_state SSE_STATE_CLOSED u) = Some s'"
      using run u fu by (simp add: to_closed_def follows_def)
    from call_user_follows [where close = close_transport and ob = "\<lambda>x. CbClosed", OF _ this _ callback_laws(4)] fu
    show ?thesis by (simp add: close_transport_follows)
  qed
qed

lemma user_follows:
  "call_user to_closed f x (ob x) s = Some s' \<Longrightarrow> follows s \<Longrightarrow> callback_joins H f ob \<Longrightarrow> follows s'"
  by (rule call_user_follows [where close = to_closed]) (auto intro: to_closed_follows)

section \<open>Received bytes\<close>

lemma apply_out_follows:
  assumes "apply_out bridge x s = Some s'" and "follows s"
  shows "follows s'"
proof (cases "state (cl s) = SSE_STATE_OPEN")
  case False
  then show ?thesis using assms
    by (cases x) (auto simp: bridge_def bridge_on_event_def bridge_on_id_def bridge_on_retry_def bridge_on_perr_def)
next
  case True
  have cb: "callbacks (cfg (cl s)) = callbacks g" using assms(2) by (simp add: follows_def)
  show ?thesis
  proof (cases x)
    case (OEvent ev)
    let ?s = "upd (\<lambda>c. c\<lparr>attempts := 0\<rparr>) s"
    have "call_user to_closed (on_message (callbacks g)) (message_of ?s ev) (CbMessage (message_of ?s ev)) ?s = Some s'"
      using assms(1) True OEvent cb by (simp add: bridge_def bridge_on_event_def Let_def)
    from user_follows [OF this follows_cl [OF assms(2)] callback_laws(2)] show ?thesis by simp
  next
    case (OId m n)
    then show ?thesis using assms
      by (auto simp: bridge_def bridge_on_id_def intro!: follows_cl split: if_splits bind_splits)
  next
    case (ORetry ms)
    then show ?thesis using assms
      by (auto simp: bridge_def bridge_on_retry_def intro!: follows_cl split: if_splits)
  next
    case (OError e)
    then show ?thesis using assms True cb user_follows [OF _ assms(2) callback_laws(3)]
      by (auto simp: bridge_def bridge_on_perr_def Let_def split: option.splits)
  qed
qed

lemma client_feed_follows:
  assumes "client_feed chunk len s = Some s'" and "follows s"
  shows "follows s'"
proof -
  from client_feed_run [OF assms(1)] obtain p outs u where u: "replay bridge outs s = Some u" "s' = upd (\<lambda>c. c\<lparr>parser := p\<rparr>) u"
    by blast
  have "replay bridge outs s = Some u \<Longrightarrow> follows s \<Longrightarrow> follows u" for s
    by (induction outs arbitrary: s) (auto split: bind_splits dest: apply_out_follows)
  then show ?thesis using u assms(2) follows_cl by simp
qed

section \<open>Failing and connecting\<close>

lemma schedule_retry_follows:
  assumes "schedule_retry reason status ra s = Some s'" and "follows s"
  shows "follows s'"
proof -
  let ?x = "upd (\<lambda>c. c\<lparr>prng := snd (retry_delay (cl s) ra), attempts := attempts c + 1\<rparr>) s"
  obtain n u where u: "read_clock ?x = Some (n, u)"
    using assms(1) by (auto simp: schedule_retry_def split_beta Let_def split: bind_splits)
  have fu: "follows u" by (rule read_clock_follows [OF u]) (rule follows_cl [OF assms(2)], simp)
  let ?y = "upd (\<lambda>c. c\<lparr>retry_deadline := n + fst (retry_delay (cl s) ra), state := SSE_STATE_WAITING_RETRY\<rparr>) u"
  have y: "follows ?y" by (rule follows_cl [OF fu]) simp
  let ?e = "\<lparr>err_reason = reason, err_http_status = status, err_will_retry = True, err_retry_in_ms = fst (retry_delay (cl s) ra)\<rparr>"
  have "call_user to_closed (on_error (callbacks g)) ?e (CbError ?e) ?y = Some s'"
    using assms(1) u fu by (simp add: schedule_retry_def split_beta Let_def follows_def)
  from user_follows [OF this y callback_laws(3)] show ?thesis by simp
qed

lemma give_up_follows:
  assumes "give_up reason status s = Some s'" and "follows s"
  shows "follows s'"
proof -
  let ?e = "\<lparr>err_reason = reason, err_http_status = status, err_will_retry = False, err_retry_in_ms = 0\<rparr>"
  obtain u where u: "call_user to_closed (on_error (callbacks g)) ?e (CbError ?e) s = Some u" "to_closed u = Some s'"
    using assms by (auto simp: give_up_def Let_def follows_def split: bind_splits)
  from user_follows [OF u(1) assms(2) callback_laws(3)] have "follows u" by simp
  with u(2) show ?thesis by (rule to_closed_follows)
qed

lemma decide_retry_follows:
  assumes "decide_retry reason status ra s = Some (b, s')" and "follows s"
  shows "follows s'"
proof (cases "reconnect_policy g")
  case None
  then show ?thesis using assms by (simp add: decide_retry_def follows_def Let_def)
next
  case (Some f)
  let ?e = "\<lparr>err_reason = reason, err_http_status = status, err_will_retry = default_should_retry reason status ra, err_retry_in_ms = 0\<rparr>"
  have run: "run_script to_closed (f (env s) ?e) (note_obs (CbPolicy ?e) s) = Some (b, s')"
    using assms Some by (simp add: decide_retry_def follows_def Let_def)
  have "script_joins H (CbPolicy ?e) (f (env s) ?e) (env s)"
    using callback_laws(5) Some by (simp add: callback_joins_def)
  from noted_follows [where close = to_closed, OF _ run assms(2) this] to_closed_follows show ?thesis by blast
qed

lemma fail_conn_follows: "fail_conn reason status ra s = Some s' \<Longrightarrow> follows s \<Longrightarrow> follows s'"
  by (auto simp: fail_conn_def split: bind_splits if_splits
      dest!: close_transport_follows decide_retry_follows give_up_follows schedule_retry_follows)

lemma enter_open_follows:
  assumes "enter_open s = Some s'" and "follows s"
  shows "follows s'"
proof -
  let ?x = "upd (\<lambda>c. c\<lparr>parser := sse_parser_reset (parser c)\<rparr>) s"
  obtain n u where u: "read_clock ?x = Some (n, u)"
    using assms(1) by (auto simp: enter_open_def split_beta Let_def split: bind_splits)
  have fu: "follows u" by (rule read_clock_follows [OF u]) (rule follows_cl [OF assms(2)], simp)
  let ?y = "upd (\<lambda>c. c\<lparr>last_rx_ms := n, state := SSE_STATE_OPEN\<rparr>) u"
  have y: "follows ?y" by (rule follows_cl [OF fu]) simp
  have "call_user to_closed (on_open (callbacks g)) (attempts (cl u)) (CbOpen (attempts (cl u))) ?y = Some s'"
    using assms(1) u fu by (simp add: enter_open_def Let_def follows_def)
  from user_follows [OF this y callback_laws(1)] show ?thesis by simp
qed

lemma check_response_follows: "check_response i s = Some s' \<Longrightarrow> follows s \<Longrightarrow> follows s'"
  by (auto simp: check_response_def split: bind_splits if_splits dest: fail_conn_follows enter_open_follows)

lemma build_headers_cfg: "build_headers c = Some c' \<Longrightarrow> cfg c' = cfg c"
  by (auto simp: build_headers_def put_id_header_def split: bind_splits if_splits)

lemma do_connect_follows:
  assumes "do_connect s = Some s'" and "follows s"
  shows "follows s'"
proof -
  let ?s = "set_state SSE_STATE_CONNECTING s"
  obtain c where c: "build_headers (cl ?s) = Some c" using assms(1) by (auto simp: do_connect_def Let_def split: bind_splits)
  have cfgs: "cfg c = cfg (cl s)" using build_headers_cfg [OF c] by simp
  obtain u fo r i w where run: "tr_open t = Some fo" "fo (env s) \<lparr>req_url = u, req_headers = headers c\<rparr> fresh_info = Some (r, i, w)"
    and rest: "(if r \<noteq> 0
        then fail_conn SSE_ERR_TRANSPORT 0 (-1)
               (note_obs (TOpen \<lparr>req_url = u, req_headers = headers c\<rparr> (r = 0)) (?s\<lparr>cl := c, env := w\<rparr>))
        else check_response i (upd (\<lambda>c. c\<lparr>transport_open := True\<rparr>)
               (note_obs (TOpen \<lparr>req_url = u, req_headers = headers c\<rparr> (r = 0)) (?s\<lparr>cl := c, env := w\<rparr>)))) = Some s'"
    using assms c cfgs by (auto simp: do_connect_def Let_def follows_def simp del: set_state_simps(1) split: bind_splits)
  let ?u = "note_obs (TOpen \<lparr>req_url = u, req_headers = headers c\<rparr> (r = 0)) (?s\<lparr>cl := c, env := w\<rparr>)"
  have fu: "follows ?u" using assms(2) open_law [OF run(1) _ run(2)] cfgs by (simp add: follows_def)
  then have "follows (upd (\<lambda>c. c\<lparr>transport_open := True\<rparr>) ?u)" by (rule follows_cl) simp
  with fu rest show ?thesis by (cases "r = 0") (auto intro: fail_conn_follows elim!: check_response_follows)
qed

section \<open>Polls and steps\<close>

lemma poll_received_follows:
  assumes "poll_received r s = Some (h, s')" and "follows s"
  shows "follows s'"
proof -
  have fed: "follows s'" if "read_clock s = Some (n, u)" "client_feed m k (upd (\<lambda>c. c\<lparr>last_rx_ms := n\<rparr>) u) = Some s'" for n u m k
  proof -
    have "follows u" by (rule read_clock_follows [OF that(1) assms(2)])
    then have "follows (upd (\<lambda>c. c\<lparr>last_rx_ms := n\<rparr>) u)" by (rule follows_cl) simp
    with that(2) show ?thesis by (rule client_feed_follows)
  qed
  have clocked: "follows u" if "read_clock s = Some (n, u)" for n u
    by (rule read_clock_follows [OF that assms(2)])
  show ?thesis using assms fed clocked
    by (auto simp: poll_received_def hint_def Let_def split: if_splits bind_splits elim!: fail_conn_follows)
qed

lemma poll_open_follows:
  assumes "poll_open s = Some (h, s')" and "follows s"
  shows "follows s'"
proof -
  obtain fr m r m' stopped w where run: "tr_read t = Some fr"
      "fr (env s) m (rx_buf_len (cfg (cl s))) (read_timeout_ms (cfg (cl s))) = Some (r, m', stopped, w)"
    and rest: "(let s = upd (\<lambda>c. c\<lparr>cfg := (cfg c)\<lparr>rx_buf := Some m'\<rparr>, stop_requested := (stop_requested c \<or> stopped)\<rparr>)
         (note_obs (TRead r (rx_bytes (rx_buf_len (cfg (cl s))) r m')) (s\<lparr>env := w\<rparr>)) in
       if stop_requested (cl s) then do { s \<leftarrow> to_closed s; Some (UINT32_MAX, s) } else poll_received r s) = Some (h, s')"
    using assms by (auto simp: poll_open_def follows_def split: bind_splits)
  let ?u = "upd (\<lambda>c. c\<lparr>cfg := (cfg c)\<lparr>rx_buf := Some m'\<rparr>, stop_requested := (stop_requested c \<or> stopped)\<rparr>)
         (note_obs (TRead r (rx_bytes (rx_buf_len (cfg (cl s))) r m')) (s\<lparr>env := w\<rparr>))"
  have "follows ?u" using assms(2) read_law [OF run(1) _ run(2)] by (simp add: follows_def)
  then show ?thesis using rest
    by (auto simp: Let_def split: if_splits bind_splits dest: to_closed_follows poll_received_follows)
qed

lemma poll_follows:
  assumes "sse_client_poll s = Some (h, s')" and "follows s"
  shows "follows s'"
proof -
  obtain u where u: "follows u" "(case state (cl u) of
        SSE_STATE_CLOSED \<Rightarrow> Some (UINT32_MAX, u) | SSE_STATE_IDLE \<Rightarrow> poll_connect u
      | SSE_STATE_CONNECTING \<Rightarrow> poll_connect u | SSE_STATE_WAITING_RETRY \<Rightarrow> poll_waiting u
      | SSE_STATE_OPEN \<Rightarrow> poll_open u) = Some (h, s')"
    using assms by (auto simp: sse_client_poll_def split: if_splits bind_splits dest: to_closed_follows)
  have "follows s'" if "poll_connect u = Some (h, s')"
    using that u(1) by (auto simp: poll_connect_def hint_def split: bind_splits dest: do_connect_follows)
  moreover have "follows s'" if "poll_waiting u = Some (h, s')"
    using that u(1) by (auto simp: poll_waiting_def Let_def split: bind_splits if_splits dest!: read_clock_follows)
  ultimately show ?thesis using u by (cases "state (cl u)") (auto dest: poll_open_follows)
qed

lemma step_follows: "client_step a s s' \<Longrightarrow> follows s \<Longrightarrow> follows s'"
  by (cases rule: client_step.cases) (auto simp: sse_client_close_def dest: poll_follows to_closed_follows)

lemma reachable_follows:
  assumes "reachable g W s" and "\<And>w. W w \<Longrightarrow> H [] w"
  shows "follows s"
  using assms(1)
proof (induction rule: reachable.induct)
  case (init w c0 c w')
  then obtain clk where "now_ms g = Some clk" "w' = snd (clk w)" "c = init_client g (fst (clk w))"
    by (auto simp: sse_client_init_def split_beta split: if_splits bind_splits)
  then show ?case using clock_law [of clk "[]" w] assms(2) [OF init(1)] transport_is
    by (simp add: follows_def started_def init_client_def with_defaults_def Let_def)
next
  case (step s a s')
  then show ?case using step_follows by blast
qed

lemma reachable_history_fits: "reachable g W s \<Longrightarrow> (\<And>w. W w \<Longrightarrow> H [] w) \<Longrightarrow> H (trace s) (env s)"
  using reachable_follows by (simp add: follows_def)

end

end
