(* ===== verification/Curl_Delivery.thy ===== *)
theory Curl_Delivery
  imports Curl_Stream Curl_Invariant Posix_Example Sse_Client_History
begin

text \<open>
  The POSIX port end to end: the bytes the client has received are the bytes of response
  bodies that libcurl handed over, less those still in the ring, and the lines printed are
  those of the calls to the user. libcurl and the output are watched for that: what they
  deliver and print is recorded beside their state, which the record never influences.
\<close>

section \<open>A watched libcurl\<close>

text \<open>
  A libcurl's state with the body bytes of the current response it could hand over, those of
  redirects aside, the response's status, and the lines printed so far.
\<close>

record 'x watched =
  lib :: 'x
  body :: bytes
  status :: i32
  printed :: "print_line list"

definition redirects :: "i32 \<Rightarrow> bool" where
  "redirects st \<longleftrightarrow> 300 \<le> sint st \<and> sint st < 400"

definition status_after :: "bytes \<Rightarrow> i32 \<Rightarrow> i32" where
  "status_after l st =
     (if 5 < length l \<and> take 5 l = bytes_of ''HTTP/''
      then (case line_status l of None \<Rightarrow> st | Some v \<Rightarrow> v) else st)"

text \<open>A call with its record; \<open>f\<close> puts the result and the record together.\<close>

primrec watch_run :: "('r \<Rightarrow> bytes \<Rightarrow> i32 \<Rightarrow> 's) \<Rightarrow> 'r curl_run \<Rightarrow> bytes \<Rightarrow> i32 \<Rightarrow> 's curl_run" where
  "watch_run f (Finished r) d st = Finished (f r d st)"
| "watch_run f (CallBody b k) d st =
     CallBody b (\<lambda>n. watch_run f (k n) (if n = length b \<and> \<not> redirects st then d @ b else d) st)"
| "watch_run f (CallHeader l k) d st = CallHeader l (\<lambda>n. watch_run f (k n) d (status_after l st))"

text \<open>An operation on the library below.\<close>

definition under :: "('x \<Rightarrow> 'r \<times> 'x) \<Rightarrow> 'x watched \<Rightarrow> 'r \<times> 'x watched" where
  "under f w = (let (r, x) = f (lib w) in (r, w\<lparr>lib := x\<rparr>))"

definition below :: "('x \<Rightarrow> 'x) \<Rightarrow> 'x watched \<Rightarrow> 'x watched" where
  "below f w = w\<lparr>lib := f (lib w)\<rparr>"

definition watch :: "'x curl_api \<Rightarrow> 'x watched curl_api" where
  "watch a =
     \<lparr>cu_easy_init = under (cu_easy_init a), cu_multi_init = under (cu_multi_init a),
      cu_slist_append = (\<lambda>w h. under (\<lambda>x. cu_slist_append a x h) w),
      cu_set_url = (\<lambda>w u. below (\<lambda>x. cu_set_url a x u) w),
      cu_set_options = (\<lambda>w hs. below (\<lambda>x. cu_set_options a x hs) w),
      cu_add_handle = (\<lambda>w. (below (cu_add_handle a) w)\<lparr>body := [], status := 0\<rparr>),
      cu_remove_handle = below (cu_remove_handle a), cu_easy_cleanup = below (cu_easy_cleanup a),
      cu_multi_cleanup = below (cu_multi_cleanup a), cu_slist_free = below (cu_slist_free a),
      cu_unpause = (\<lambda>w. watch_run (\<lambda>x d st. w\<lparr>lib := x, body := d, status := st\<rparr>) (cu_unpause a (lib w)) (body w) (status w)),
      cu_wait = (\<lambda>w ms. let (r, stopped, x) = cu_wait a (lib w) ms in (r, stopped, w\<lparr>lib := x\<rparr>)),
      cu_perform = (\<lambda>w. watch_run (\<lambda>(r, x) d st. (r, w\<lparr>lib := x, body := d, status := st\<rparr>)) (cu_perform a (lib w)) (body w) (status w)),
      cu_messages = under (cu_messages a),
      cu_redirect_url = (\<lambda>w. cu_redirect_url a (lib w)), cu_effective_url = (\<lambda>w. cu_effective_url a (lib w)),
      cu_response_code = (\<lambda>w. cu_response_code a (lib w)), cu_content_type = (\<lambda>w. cu_content_type a (lib w)),
      cu_url_parts = (\<lambda>w. cu_url_parts a (lib w)), cu_clock = under (cu_clock a)\<rparr>"

definition watch_host :: "'x host \<Rightarrow> 'x watched host" where
  "watch_host h = \<lparr>ho_curl = watch (ho_curl h), ho_print = (\<lambda>l w. (below (ho_print h l) w)\<lparr>printed := printed w @ [l]\<rparr>)\<rparr>"

lemma below_simps [simp]: "lib (below f w) = f (lib w)" "body (below f w) = body w" "status (below f w) = status w" "printed (below f w) = printed w"
  by (simp_all add: below_def)

lemma under_keeps: "under f w = (r, w') \<Longrightarrow> body w' = body w \<and> status w' = status w \<and> printed w' = printed w"
  by (auto simp: under_def split: prod.splits)

lemma run_all_watch:
  "run_all H Q r \<Longrightarrow> (\<And>v d st. Q v \<Longrightarrow> Q' (f v d st)) \<Longrightarrow> run_all H Q' (watch_run f r d st)"
  by (induction r arbitrary: d st) simp_all

lemma run_all_any: "run_all (\<lambda>l. True) (\<lambda>r. True) r"
  by (induction r) simp_all

lemma chunks_watch: "chunks_ok r \<Longrightarrow> chunks_ok (watch_run f r d st)"
  by (induction r arbitrary: d st) simp_all

text \<open>Watching keeps the promises of the library.\<close>

lemma watch_laws:
  assumes "curl_laws a ticks"
  shows "curl_laws (watch a) (\<lambda>w. ticks (lib w))"
proof -
  have perform: "run_all header_line_ok (\<lambda>r. passes (\<lambda>w. ticks (lib w)) w (snd r)) (cu_perform (watch a) w)" for w
    using assms by (auto simp: curl_laws_def watch_def passes_def intro!: run_all_watch)
  have unpause: "run_all header_line_ok (passes (\<lambda>w. ticks (lib w)) w) (cu_unpause (watch a) w)" for w
    using assms by (auto simp: curl_laws_def watch_def passes_def intro!: run_all_watch)
  show ?thesis using assms perform unpause
    by (auto simp: curl_laws_def passes_def watch_def under_def split_beta Let_def)
qed

lemma watch_chunks: "chunk_laws a \<Longrightarrow> chunk_laws (watch a)"
  by (simp add: chunk_laws_def watch_def chunks_watch)

section \<open>The account\<close>

text \<open>What was given to the client and what is in the ring is what was handed over.\<close>

definition account :: "bytes \<Rightarrow> 'x watched curl_sys \<Rightarrow> bool" where
  "account got w \<longleftrightarrow> cctx_ok (cctx w) \<and> body (clib w) = got @ queue (cctx w) \<and>
     status (clib w) = header_block_status (cctx w)"

lemma on_body_status: "on_body b t = Some (n, u) \<Longrightarrow> header_block_status u = header_block_status t"
  by (auto simp: on_body_def Let_def split: if_splits bind_splits)

lemma on_header_status: "on_header l t = Some (n, u) \<Longrightarrow> header_block_status u = status_after l (header_block_status t)"
  by (auto simp: on_header_def status_after_def Let_def split: if_splits bind_splits)

lemma run_watch:
  "run_all header_line_ok Q r \<Longrightarrow> chunks_ok r \<Longrightarrow> cctx_ok t \<Longrightarrow>
   run_curl (watch_run f r (got @ queue t) (header_block_status t)) t = Some (v, t') \<Longrightarrow>
   \<exists>v0. v = f v0 (got @ queue t') (header_block_status t') \<and> cctx_ok t'"
proof (induction r arbitrary: t)
  case (CallBody b k)
  obtain n u where u: "on_body b t = Some (n, u)" "cctx_ok u"
    "if in_redirect t then n = length b \<and> u = t
     else if length (queue t) + length b \<le> RING_CAP then n = length b \<and> queue u = queue t @ b \<and> paused u = paused t
     else n = CURL_WRITEFUNC_PAUSE \<and> queue u = queue t \<and> paused u"
    using on_body_queue [OF CallBody.prems(3), of b] by blast
  have "length b < CURL_WRITEFUNC_PAUSE"
    using CallBody.prems(2) by (simp add: chunk_ok_def CURL_WRITEFUNC_PAUSE_def)
  then have "queue u = queue t @ (if n = length b \<and> \<not> redirects (header_block_status t) then b else [])"
    using u(3) by (cases "in_redirect t"; cases "length (queue t) + length b \<le> RING_CAP") (simp_all add: in_redirect_def redirects_def)
  then have q: "(if n = length b \<and> \<not> redirects (header_block_status t) then (got @ queue t) @ b else got @ queue t) = got @ queue u"
    by simp
  show ?case
  proof (rule CallBody.IH [of "k n" u])
    show "run_curl (watch_run f (k n) (got @ queue u) (header_block_status u)) u = Some (v, t')"
      using CallBody.prems(4) u(1) q on_body_status [OF u(1)] by simp
  qed (use CallBody.prems u(2) in simp_all)
next
  case (CallHeader l k)
  obtain n u where u: "on_header l t = Some (n, u)" "cctx_ok u" "queue u = queue t"
    using on_header_ok [of l t] CallHeader.prems by (auto simp: returns_iff)
  show ?case
  proof (rule CallHeader.IH [of "k n" u])
    show "run_curl (watch_run f (k n) (got @ queue u) (header_block_status u)) u = Some (v, t')"
      using CallHeader.prems(4) u on_header_status [OF u(1)] by simp
  qed (use CallHeader.prems u(2) in simp_all)
qed auto

lemma harvest_status [simp]: "header_block_status (harvest ms t) = header_block_status t"
  by (induction ms arbitrary: t) (simp_all add: harvest_def split: prod.split)

lemma account_lib: "account got w \<Longrightarrow> body x = body (clib w) \<Longrightarrow> status x = status (clib w) \<Longrightarrow> account got (w\<lparr>clib := x\<rparr>)"
  by (simp add: account_def)

lemma watch_lib_calls:
  "cu_wait (watch a) w ms = (r, stopped, x) \<Longrightarrow> body x = body w \<and> status x = status w \<and> printed x = printed w"
  "cu_messages (watch a) w = (msgs, x) \<Longrightarrow> body x = body w \<and> status x = status w \<and> printed x = printed w"
  "body (snd (cu_clock (watch a) w)) = body w" "status (snd (cu_clock (watch a) w)) = status w"
  "printed (snd (cu_clock (watch a) w)) = printed w"
  using under_keeps [of "cu_messages a" w msgs x] by (auto simp: watch_def under_def split_beta split: prod.splits)

text \<open>The account of a connection is kept by the pump and the waits.\<close>

interpretation accounts: curl_invariant "watch a" "\<lambda>w. curl_laws a ticks \<longrightarrow> chunk_laws a \<longrightarrow> account got w"
  for a :: "'x curl_api" and ticks got
proof (unfold_locales; intro impI)
  fix w :: "'x watched curl_sys"
  assume kept: "curl_laws a ticks \<longrightarrow> chunk_laws a \<longrightarrow> account got w" and laws: "curl_laws a ticks" "chunk_laws a"
  then have w: "account got w" by blast
  have runs: "run_all header_line_ok (passes ticks x) (cu_unpause a x)" "chunks_ok (cu_unpause a x)"
    "run_all header_line_ok (\<lambda>r. passes ticks x (snd r)) (cu_perform a x)" "chunks_ok (cu_perform a x)" for x
    using laws by (simp_all add: curl_laws_def chunk_laws_def)
  show "account got (w\<lparr>clib := x\<rparr>)" if "cu_wait (watch a) (clib w) ms = (r, stopped, x)" for ms r stopped x
    using watch_lib_calls(1) [OF that] account_lib [OF w] by blast
  show "account got (w\<lparr>cctx := harvest msgs (cctx w), clib := x\<rparr>)" if "cu_messages (watch a) (clib w) = (msgs, x)" for msgs x
    using watch_lib_calls(2) [OF that] w by (simp add: account_def)
  show "account got (w\<lparr>clib := snd (cu_clock (watch a) (clib w))\<rparr>)"
    by (rule account_lib [OF w]) (simp_all add: watch_lib_calls)
  show "account got (w\<lparr>cctx := t, clib := x\<rparr>)" if "run_curl (cu_perform (watch a) (clib w)) (cctx w) = Some ((r, x), t)" for r x t
    using run_watch [OF runs(3,4), of "cctx w"] that w by (fastforce simp: account_def watch_def)
  show "account got (w\<lparr>cctx := t, clib := x\<rparr>)"
    if "run_curl (cu_unpause (watch a) (clib w)) ((cctx w)\<lparr>paused := False\<rparr>) = Some (x, t)" for x t
    using run_watch [OF runs(1,2), of "(cctx w)\<lparr>paused := False\<rparr>"] that w by (fastforce simp: account_def watch_def)
qed

section \<open>Connections\<close>

text \<open>A new hop and a new connection start an account.\<close>

lemma account_new:
  "cctx_ok t \<Longrightarrow> r_len t = 0 \<Longrightarrow> header_block_status t = 0 \<Longrightarrow> account [] \<lparr>cctx = t, clib = cu_add_handle (watch a) x\<rparr>"
  by (simp add: account_def watch_def queue_def)

lemma next_hop_account: "account got w \<Longrightarrow> account [] (next_hop (watch a) redir w)"
  using account_new [of "cctx (next_hop (watch a) redir w)" a "cu_set_url (watch a) (cu_remove_handle (watch a) (clib w)) redir"]
  by (simp add: next_hop_def account_def cctx_ok_def)

interpretation new_accounts: curl_hop_invariant "watch a" "\<lambda>w. curl_laws a ticks \<longrightarrow> chunk_laws a \<longrightarrow> account [] w" for a ticks
  by unfold_locales (blast intro: next_hop_account)

lemma append_headers_ctx:
  "append_headers b hs w = Some (True, v) \<Longrightarrow> \<exists>xs. cctx v = (cctx w)\<lparr>hdrs := xs\<rparr>"
proof (induction b hs w rule: append_headers.induct)
  case (3 b h hs w)
  then show ?case by (fastforce split: prod.splits if_splits)
qed (auto intro: exI [of _ "hdrs (cctx v)"])

lemma open_account:
  assumes laws: "curl_laws a ticks" "chunk_laws a" and "curl_open_fn (watch a) w req i = Some (r, i', w')" and "r = 0"
  shows "account [] w'"
proof -
  let ?b = "watch a" and ?w = "teardown (watch a) w"
  obtain e y where e: "cu_easy_init ?b (clib ?w) = (e, y)" by (cases "cu_easy_init ?b (clib ?w)")
  obtain m z where m: "cu_multi_init ?b y = (m, z)" by (cases "cu_multi_init ?b y")
  obtain v where v: "append_headers ?b (req_headers req) (?w\<lparr>cctx := (cctx ?w)\<lparr>easy := e, multi := m\<rparr>, clib := z\<rparr>) = Some (True, v)"
    using assms(3,4) e m by (auto simp: curl_open_fn_def Let_def bind_eq_Some_conv split: if_splits)
  let ?x = "cu_set_options ?b (cu_set_url ?b (clib v) (req_url req)) (hdrs (cctx v))"
  have hops: "curl_hops ?b 0 (v\<lparr>clib := cu_add_handle ?b ?x\<rparr>) = Some (True, w')"
    using assms(3,4) e m v by (auto simp: curl_open_fn_def Let_def bind_eq_Some_conv split: if_splits)
  obtain xs where xs: "cctx v = blank_ctx\<lparr>easy := e, multi := m, hdrs := xs\<rparr>"
    using append_headers_ctx [OF v] by auto
  have "cctx_ok (cctx v)" "r_len (cctx v) = 0" "header_block_status (cctx v) = 0"
    by (simp_all add: xs) (simp_all add: blank_ctx_def)
  from account_new [OF this, of a ?x] have "account [] (v\<lparr>clib := cu_add_handle ?b ?x\<rparr>)"
    by (simp add: account_def)
  with new_accounts.hops_keep [OF hops refl, of ticks] laws show ?thesis by simp
qed

section \<open>Reads\<close>

lemma rx_codes [simp]:
  "rx_bytes len SSE_READ_EOF m = []" "rx_bytes len SSE_READ_ERROR m = []" "rx_bytes len SSE_READ_TIMEOUT m = []"
  "rx_bytes len (end_code t) m = []"
  by (simp_all add: rx_bytes_def end_code_def SSE_READ_EOF_def SSE_READ_ERROR_def SSE_READ_TIMEOUT_def)

lemma rx_count: "n \<le> RING_CAP \<Longrightarrow> n \<le> len \<Longrightarrow> length d = n \<Longrightarrow> rx_bytes len (of_nat n) (d @ m) = d"
proof -
  assume n: "n \<le> RING_CAP" "n \<le> len" "length d = n"
  then have "unat (of_nat n :: i32) = n" by (simp add: RING_CAP_def unat_of_nat)
  then have "rx_bytes len (of_nat n) (d @ m) = given (of_nat n) (d @ m)" using n by (simp add: rx_bytes_def given_def)
  then show ?thesis using given_count [of n d m] n by simp
qed

lemma drain_account:
  assumes laws: "curl_laws a ticks" "chunk_laws a" and "account got w" and "drain (watch a) m len w = Some (r, m', w')"
  shows "account (got @ rx_bytes len r m') w'"
proof -
  let ?t = "cctx w"
  let ?n = "min (r_len ?t) len"
  let ?d = "ring_view (ring ?t) (r_head ?t) ?n"
  have ok: "cctx_ok ?t" and cap: "length (ring ?t) = RING_CAP" "?n \<le> RING_CAP"
    using assms(3) by (auto simp: account_def cctx_ok_def min_le_iff_disj)
  have "dequeued len ?t = ?t\<lparr>r_head := (r_head ?t + ?n) mod RING_CAP, r_len := r_len ?t - ?n\<rparr>"
    by (simp add: dequeued_def Let_def)
  then have res: "resume_transfer (watch a) (w\<lparr>cctx := dequeued len ?t\<rparr>) = Some w'" and r: "r = of_nat ?n" and m': "m' = ?d @ drop ?n m"
    using assms(4) cap by (auto simp: drain_def Let_def ring_get_view memcpy_def bind_eq_Some_conv split: if_splits)
  have "rx_bytes len r m' = ?d" using cap by (simp only: r m') (rule rx_count, simp_all)
  moreover have "header_block_status (dequeued len ?t) = header_block_status ?t" by (simp add: dequeued_def Let_def)
  ultimately have "account (got @ rx_bytes len r m') (w\<lparr>cctx := dequeued len ?t\<rparr>)"
    using assms(3) dequeued_queue [OF ok, of len] dequeued_ok [OF ok] by (simp add: account_def)
  with accounts.resume_keeps [OF res, of ticks] laws show ?thesis by simp
qed

lemma read_account:
  assumes laws: "curl_laws a ticks" "chunk_laws a" and "account got w"
    and rd: "curl_read_fn (watch a) w m len tmo = Some (r, m', st, w')"
  shows "account (got @ rx_bytes len r m') w'"
proof -
  have drained: "account (got @ rx_bytes len r m') w'" if "account got v" "drain (watch a) m len v \<bind> (\<lambda>(r, m, w). Some (r, m, stp, w)) = Some (r, m', st, w')" for v stp
    using drain_account [OF laws that(1)] that(2) by (cases "drain (watch a) m len v") auto
  consider (over) "r_len (cctx w) = 0" "transfer_done (cctx w)" | (ring) "r_len (cctx w) \<noteq> 0"
    | (pump) "r_len (cctx w) = 0" "\<not> transfer_done (cctx w)" by blast
  then show ?thesis
  proof cases
    case over
    then have "r = end_code (cctx w)" "w' = w" using rd by (auto simp: curl_read_fn_def)
    then show ?thesis using assms(3) by simp
  next
    case ring
    then show ?thesis using drained [OF assms(3)] rd by (simp add: curl_read_fn_def)
  next
    case pump
    then obtain ok stp u where u: "pump (watch a) tmo w = Some (ok, stp, u)"
      using rd by (cases "pump (watch a) tmo w") (auto simp: curl_read_fn_def)
    have au: "account got u" using accounts.pump_keeps [OF u, of ticks got] laws assms(3) by simp
    show ?thesis
    proof (cases "ok \<and> r_len (cctx u) \<noteq> 0")
      case True
      then show ?thesis using drained [OF au] rd u pump by (simp add: curl_read_fn_def)
    next
      case False
      then have "w' = u" "r \<in> {SSE_READ_ERROR, SSE_READ_TIMEOUT, end_code (cctx u)}"
        using rd u pump by (auto simp: curl_read_fn_def split: if_splits)
      then show ?thesis using au by auto
    qed
  qed
qed

section \<open>The client's history\<close>

text \<open>The line the example prints for a call to the user.\<close>

fun shown :: "obs \<Rightarrow> print_line list" where
  "shown (CbOpen n) = [PrintOpen n]"
| "shown (CbMessage m) = [PrintMessage (c_string (msg_event m)) (c_string (msg_last_event_id m))
     (c_string (take (msg_data_len m) (msg_data m)))]"
| "shown (CbError e) = [PrintError e]"
| "shown CbClosed = [PrintClosed]"
| "shown _ = []"

text \<open>
  While a connection is open, the bytes of the history and the account agree; the lines printed
  are always those of the history.
\<close>

definition books :: "'x curl_api \<Rightarrow> ('x \<Rightarrow> nat) \<Rightarrow> obs list \<Rightarrow> 'x watched curl_sys \<Rightarrow> bool" where
  "books a ticks tr w \<longleftrightarrow> printed (clib w) = concat (map shown tr) \<and> (curl_laws a ticks \<longrightarrow> chunk_laws a \<longrightarrow>
     (\<forall>d. foldM obs_step tr (False, False) = Some (True, d) \<longrightarrow> account (last (conn_bytes tr)) w))"

lemma booksI:
  "printed (clib w) = concat (map shown tr) \<Longrightarrow>
   (\<And>d. curl_laws a ticks \<Longrightarrow> chunk_laws a \<Longrightarrow> foldM obs_step tr (False, False) = Some (True, d) \<Longrightarrow>
      account (last (conn_bytes tr)) w) \<Longrightarrow> books a ticks tr w"
  by (simp add: books_def)

interpretation prints: curl_library_invariant "watch a" "\<lambda>x. printed x = ls" for a ls
proof (unfold_locales)
  show "run_all (\<lambda>l. True) (\<lambda>x. printed x = ls) (cu_unpause (watch a) x)" if "printed x = ls" for x
    using that run_all_any [of "cu_unpause a (lib x)"] by (auto simp: watch_def intro!: run_all_watch)
  show "run_all (\<lambda>l. True) (\<lambda>r. printed (snd r) = ls) (cu_perform (watch a) x)" if "printed x = ls" for x
    using that run_all_any [of "cu_perform a (lib x)"] by (auto simp: watch_def intro!: run_all_watch)
qed (auto simp: watch_def under_def split_beta)

lemma opened_before: "foldM obs_step (tr @ [ob]) (False, False) = Some (True, d) \<Longrightarrow>
   (\<exists>req. ob = TOpen req True) \<or> (\<exists>d'. foldM obs_step tr (False, False) = Some (True, d'))"
  by (auto simp: foldM_append bind_eq_Some_conv split: if_splits obs.splits)

lemma books_open:
  assumes "curl_open_fn (watch a) w req i = Some (r, i', w')" and "books a ticks tr w"
  shows "books a ticks (tr @ [TOpen q (r = 0)]) w'"
proof (rule booksI)
  fix d
  assume laws: "curl_laws a ticks" "chunk_laws a" and run: "foldM obs_step (tr @ [TOpen q (r = 0)]) (False, False) = Some (True, d)"
  then have "r = 0" by (auto simp: foldM_append bind_eq_Some_conv split: if_splits)
  from open_account [OF laws assms(1) this] show "account (last (conn_bytes (tr @ [TOpen q (r = 0)]))) w'" by simp
qed (use prints.open_keeps [OF assms(1)] assms(2) in \<open>simp add: books_def\<close>)

lemma books_read:
  assumes "curl_read_fn (watch a) w m len tmo = Some (r, m', st, w')" and "books a ticks tr w"
  shows "books a ticks (tr @ [TRead r (rx_bytes len r m')]) w'"
proof (rule booksI)
  fix d
  assume laws: "curl_laws a ticks" "chunk_laws a"
    and run: "foldM obs_step (tr @ [TRead r (rx_bytes len r m')]) (False, False) = Some (True, d)"
  from opened_before [OF run] have "account (last (conn_bytes tr)) w" using assms(2) laws by (auto simp: books_def)
  from read_account [OF laws this assms(1)]
  show "account (last (conn_bytes (tr @ [TRead r (rx_bytes len r m')]))) w'" by simp
qed (use prints.read_keeps [OF assms(1)] assms(2) in \<open>simp add: books_def\<close>)

lemma books_closed:
  assumes "curl_close_fn (watch a) w = Some w'" and "books a ticks tr w"
  shows "books a ticks (tr @ [TClose]) w'"
  using prints.close_keeps [OF assms(1)] assms(2)
  by (auto simp: books_def foldM_append bind_eq_Some_conv split: if_splits)

lemma books_clock: "books (ho_curl h) ticks tr w \<Longrightarrow> books (ho_curl h) ticks tr (snd (now_ms_posix (watch_host h) w))"
proof -
  assume w: "books (ho_curl h) ticks tr w"
  obtain t x where x: "sse_now_ms_posix (watch (ho_curl h)) (clib w) = (t, x)" by (cases "sse_now_ms_posix (watch (ho_curl h)) (clib w)")
  then have "x = snd (cu_clock (watch (ho_curl h)) (clib w))" by (auto simp: sse_now_ms_posix_def split_beta)
  then have "body x = body (clib w)" "status x = status (clib w)" "printed x = printed (clib w)"
    by (simp_all add: watch_lib_calls)
  then show ?thesis using w x by (simp add: books_def account_def now_ms_posix_def watch_host_def)
qed

lemma books_print:
  assumes "shown ob = [l]" and "\<And>cs. conn_step cs ob = cs"
  shows "script_joins (books a ticks) ob (print_to (watch_host h) l w) w"
proof -
  have "books a ticks (tr @ [ob]) (w\<lparr>clib := ho_print (watch_host h) l (clib w)\<rparr>)" if "books a ticks tr w" for tr
  proof (rule booksI)
    show "printed (clib (w\<lparr>clib := ho_print (watch_host h) l (clib w)\<rparr>)) = concat (map shown (tr @ [ob]))"
      using that assms(1) by (simp add: books_def watch_host_def)
    fix d
    assume laws: "curl_laws a ticks" "chunk_laws a" and run: "foldM obs_step (tr @ [ob]) (False, False) = Some (True, d)"
    have "\<not> (\<exists>req. ob = TOpen req True)" using assms(1) by auto
    then have "account (last (conn_bytes tr)) w" using opened_before [OF run] that laws by (auto simp: books_def)
    then show "account (last (conn_bytes (tr @ [ob]))) (w\<lparr>clib := ho_print (watch_host h) l (clib w)\<rparr>)"
      using assms(2) by (simp add: account_def watch_host_def)
  qed
  then show ?thesis by (simp add: print_to_def)
qed

interpretation posix_books: world_history "posix_config (watch_host h) u" "sse_transport_curl (watch (ho_curl h))" "books (ho_curl h) ticks"
  for h u ticks
proof
  show "transport (posix_config (watch_host h) u) = Some (sse_transport_curl (watch (ho_curl h)))"
    by (simp add: posix_config_def posix_config_with_def watch_host_def)
qed (auto simp: sse_transport_curl_def posix_config_def posix_config_with_def callback_joins_def posix_on_open_def
    posix_on_message_def posix_on_error_def posix_on_closed_def Let_def c_string_def
    intro: books_open books_read books_closed books_clock intro!: books_print)

end
