(* ===== verification/Posix_Properties.thy ===== *)
theory Posix_Properties
  imports Curl_Properties Curl_Delivery
begin

text \<open>
  The POSIX example end to end: what the user of the program is given, in terms of the
  response bodies libcurl handed over.
\<close>

section \<open>A libcurl that streams\<close>

text \<open>The library of \<open>Curl_Properties\<close>, with an event in the body of each answer and no end.\<close>

definition demo_event :: bytes where
  "demo_event = bytes_of ''data: hi'' @ [LF, LF]"

definition stream_curl :: "(nat \<times> bytes) curl_api" where
  "stream_curl = demo_curl\<lparr>
     cu_perform := (\<lambda>x. CallHeader (demo_response (snd x)) (\<lambda>n. CallHeader blank_line
       (\<lambda>n. CallBody demo_event (\<lambda>n. Finished (CURLM_OK, x))))),
     cu_messages := (\<lambda>x. ([], x))\<rparr>"

definition stream_host :: "(nat \<times> bytes) host" where
  "stream_host = \<lparr>ho_curl = stream_curl, ho_print = (\<lambda>l x. x)\<rparr>"

lemma stream_laws: "curl_laws stream_curl fst" "chunk_laws stream_curl"
  using demo_laws(1,3) demo_header_lines
  by (auto simp: curl_laws_def chunk_laws_def stream_curl_def passes_def chunk_ok_def demo_event_def bytes_of_def)

abbreviation "watched_stream \<equiv> watch stream_curl"

text \<open>The pump of the open: the headers, and the event in the ring.\<close>

lemma stream_status: "status_after (demo_response second_url) st = 200" "status_after blank_line st = st"
proof -
  have ne: "second_url \<noteq> first_url" by (simp add: first_url_def second_url_def bytes_of_def)
  show "status_after (demo_response second_url) st = 200"
    using on_header_status [OF demo_status [of second_url "blank_ctx\<lparr>header_block_status := st\<rparr>"]] ne by simp
  show "status_after blank_line st = st" by (simp add: status_after_def blank_line_def)
qed

lemma stream_pump:
  assumes "cctx_ok (cctx w)" and "r_len (cctx w) = 0" and "\<not> paused (cctx w)" and "clib w = \<lparr>lib = (n, second_url), body = [], status = st, printed = ls\<rparr>"
  shows "\<exists>t. pump watched_stream 100 w = Some (True, False, \<lparr>cctx = t, clib = \<lparr>lib = (n, second_url), body = demo_event, status = 200, printed = ls\<rparr>\<rparr>) \<and>
    headers_done t \<and> \<not> in_redirect t"
proof -
  have ne: "second_url \<noteq> first_url" by (simp add: first_url_def second_url_def bytes_of_def)
  let ?t = "(cctx w)\<lparr>cu_retry_after_s := -1, header_block_status := 200, headers_done := True\<rparr>"
  have t: "cctx_ok ?t" "\<not> in_redirect ?t" "queue ?t = []"
    using assms(1,2) by (simp_all add: in_redirect_def queue_def)
  have small: "length demo_event \<le> RING_CAP" by (simp add: demo_event_def bytes_of_def RING_CAP_def)
  obtain u where u: "on_body demo_event ?t = Some (length demo_event, u)"
    using on_body_queue [OF t(1), of demo_event] t(2,3) small by auto
  have kept: "headers_done u" "header_block_status u = 200"
    using u by (auto simp: on_body_def Let_def split: if_splits bind_splits)
  have "\<not> redirects 200" by (simp add: redirects_def)
  then have "run_curl (cu_perform watched_stream (clib w)) (cctx w) =
      Some ((CURLM_OK, \<lparr>lib = (n, second_url), body = demo_event, status = 200, printed = ls\<rparr>), u)"
    using assms(4) u ne by (simp add: watch_def stream_curl_def demo_status on_blank_line stream_status)
  moreover have "cu_wait watched_stream x ms = (CURLM_OK, False, x)" "cu_messages watched_stream x = ([], x)" for x ms
    by (simp_all add: watch_def stream_curl_def demo_curl_def under_def)
  ultimately have "pump watched_stream 100 w =
      Some (True, False, \<lparr>cctx = u, clib = \<lparr>lib = (n, second_url), body = demo_event, status = 200, printed = ls\<rparr>\<rparr>)"
    using assms(3) by (simp add: pump_def resume_transfer_def harvest_def)
  then show ?thesis using kept by (auto simp: in_redirect_def)
qed

lemma stream_now:
  assumes "n < 1000"
  shows "sse_now_ms_posix watched_stream (w\<lparr>lib := (n, u)\<rparr>) = (0, w\<lparr>lib := (n + 1, u)\<rparr>)"
  using demo_now [of "(n, u)"] assms by (simp add: sse_now_ms_posix_def watch_def under_def stream_curl_def split_beta Let_def)

text \<open>The whole open of the second URL.\<close>

lemma stream_hops:
  assumes "cctx_ok t" and "r_len t = 0" and "\<not> paused t" and "\<not> headers_ready t" and "n < 900"
  shows "\<exists>t'. curl_hops watched_stream 0 \<lparr>cctx = t, clib = \<lparr>lib = (n, second_url), body = [], status = st, printed = ls\<rparr>\<rparr> =
    Some (True, \<lparr>cctx = t', clib = \<lparr>lib = (n + 2, second_url), body = demo_event, status = 200, printed = ls\<rparr>\<rparr>)"
proof -
  let ?x = "\<lambda>k. \<lparr>lib = (k, second_url), body = [], status = st, printed = ls\<rparr>"
  let ?y = "\<lparr>lib = (n + 2, second_url), body = demo_event, status = 200, printed = ls\<rparr>"
  have now: "sse_now_ms_posix watched_stream (?x k) = (0, ?x (k + 1))" if "k < 1000" for k
    using stream_now [OF that, where w = "?x k" and u = second_url] by simp
  obtain t' where t': "pump watched_stream 100 \<lparr>cctx = t, clib = ?x (n + 2)\<rparr> = Some (True, False, \<lparr>cctx = t', clib = ?y\<rparr>)"
    "headers_done t'" "\<not> in_redirect t'"
    using stream_pump [of "\<lparr>cctx = t, clib = ?x (n + 2)\<rparr>" "n + 2" st] assms by auto
  have fin: "wait_for watched_stream headers_ready 0 \<lparr>cctx = t', clib = ?y\<rparr> = Some (True, \<lparr>cctx = t', clib = ?y\<rparr>)"
    using t'(2) by (subst wait_for.simps) (simp add: headers_ready_def)
  have "wait_for watched_stream headers_ready 0 \<lparr>cctx = t, clib = ?x (n + 1)\<rparr> = Some (True, \<lparr>cctx = t', clib = ?y\<rparr>)"
    using assms(4,5) now [of "n + 1"] t'(1) fin by (subst wait_for.simps) (simp add: OPEN_TIMEOUT_MS_def)
  then have "timed_wait watched_stream headers_ready \<lparr>cctx = t, clib = ?x n\<rparr> = Some (True, \<lparr>cctx = t', clib = ?y\<rparr>)"
    using now [of n] assms(5) t'(2) by (simp add: timed_wait_def headers_ready_def)
  then have "curl_hops watched_stream 0 \<lparr>cctx = t, clib = ?x n\<rparr> = Some (True, \<lparr>cctx = t', clib = ?y\<rparr>)"
    using t'(2,3) by (subst curl_hops.simps) simp
  then show ?thesis by blast
qed

lemma stream_slist:
  "null_terminated hs xs \<Longrightarrow> \<exists>ys. append_headers watched_stream hs w = Some (True, w\<lparr>cctx := (cctx w)\<lparr>hdrs := ys\<rparr>\<rparr>)"
proof (induction xs arbitrary: hs w)
  case Nil
  then show ?case by (cases hs) (auto simp: null_terminated_def intro: exI [of _ "hdrs (cctx w)"])
next
  case (Cons h xs)
  then obtain hs' where hs: "hs = Some h # hs'" "null_terminated hs' xs"
    by (cases hs) (auto simp: null_terminated_def)
  have "cu_slist_append watched_stream x h = (True, x)" for x
    by (simp add: watch_def under_def stream_curl_def demo_curl_def)
  then show ?case using hs(1) Cons.IH [OF hs(2), of "w\<lparr>cctx := (cctx w)\<lparr>hdrs := hdrs (cctx w) @ [h]\<rparr>\<rparr>"] by simp
qed

lemma stream_content_type:
  "\<exists>m. snprintf_to (replicate 64 0) 64 (bytes_of ''text/event-stream'') = Some m \<and> ct_is_event_stream m = Some True"
proof -
  have "(case snprintf_to (replicate 64 0) 64 (bytes_of ''text/event-stream'') of None \<Rightarrow> None | Some m \<Rightarrow> ct_is_event_stream m) = Some True"
    by code_simp
  then show ?thesis by (auto split: option.splits)
qed

lemma stream_open:
  assumes "null_terminated (req_headers req) xs" and "req_url req = second_url" and "cctx w = blank_ctx" and "fst (lib (clib w)) < 900"
  shows "\<exists>i t'. curl_open_fn watched_stream w req fresh_info =
      Some (0, i, \<lparr>cctx = t', clib = \<lparr>lib = (fst (lib (clib w)) + 2, second_url), body = demo_event, status = 200, printed = printed (clib w)\<rparr>\<rparr>) \<and>
    status_code i = 200 \<and> ct_is_event_stream (content_type i) = Some True"
proof -
  have tear: "teardown watched_stream w = w" using assms(3) by (simp add: teardown_def)
  let ?u = "w\<lparr>cctx := blank_ctx\<lparr>easy := True, multi := True\<rparr>\<rparr>"
  obtain ys where ys: "append_headers watched_stream (req_headers req) ?u = Some (True, ?u\<lparr>cctx := (cctx ?u)\<lparr>hdrs := ys\<rparr>\<rparr>)"
    using stream_slist [OF assms(1)] by blast
  let ?t = "blank_ctx\<lparr>easy := True, multi := True, hdrs := ys\<rparr>"
  have t: "cctx_ok ?t" "r_len ?t = 0" "\<not> paused ?t" "\<not> headers_ready ?t" by (simp_all, simp_all add: blank_ctx_def headers_ready_def)
  obtain t' where t': "curl_hops watched_stream 0 \<lparr>cctx = ?t, clib = \<lparr>lib = (fst (lib (clib w)), second_url), body = [], status = 0, printed = printed (clib w)\<rparr>\<rparr> =
      Some (True, \<lparr>cctx = t', clib = \<lparr>lib = (fst (lib (clib w)) + 2, second_url), body = demo_event, status = 200, printed = printed (clib w)\<rparr>\<rparr>)"
    using stream_hops [OF t assms(4)] by blast
  have ne: "second_url \<noteq> first_url" by (simp add: first_url_def second_url_def bytes_of_def)
  have inits: "cu_easy_init watched_stream x = (True, x)" "cu_multi_init watched_stream x = (True, x)" for x
    by (simp_all add: watch_def under_def stream_curl_def demo_curl_def)
  have add: "cu_add_handle watched_stream (cu_set_options watched_stream (cu_set_url watched_stream x u) ys) =
      \<lparr>lib = (fst (lib x), u), body = [], status = 0, printed = printed x\<rparr>" for x u
    by (simp add: watch_def below_def stream_curl_def demo_curl_def)
  have answer: "cu_content_type watched_stream x = Some (bytes_of ''text/event-stream'')"
    "snd (lib x) = second_url \<Longrightarrow> cu_response_code watched_stream x = 200" for x
    using ne by (simp_all add: watch_def stream_curl_def demo_curl_def)
  obtain m where m: "snprintf_to (replicate 64 0) 64 (bytes_of ''text/event-stream'') = Some m" "ct_is_event_stream m = Some True"
    using stream_content_type by blast
  show ?thesis
    using assms(2,3) tear ys t' m inits add answer
    by (cases w) (simp add: curl_open_fn_def fresh_info_def)
qed

section \<open>The first poll\<close>

lemma stream_first_poll:
  assumes "cctx (env s) = blank_ctx" and "fst (lib (clib (env s))) < 900" and "state (cl s) = SSE_STATE_IDLE" and "\<not> stop_requested (cl s)"
    and "base_inv (posix_config (watch_host stream_host) second_url) (cl s)"
  shows "\<exists>h s'. sse_client_poll s = Some (h, s') \<and> state (cl s') = SSE_STATE_OPEN \<and> body (clib (env s')) = demo_event"
proof -
  let ?g = "posix_config (watch_host stream_host) second_url"
  have valid: "client_config_valid ?g"
    using client_env.config_valid [OF posix_example.client_env_axioms] by blast
  obtain m where cfg: "cfg (cl s) = (with_defaults ?g)\<lparr>rx_buf := Some m\<rparr>"
    using assms(5) by (auto simp: base_inv_def config_inv_def)
  let ?s = "set_state SSE_STATE_CONNECTING s"
  have "base_inv ?g (cl ?s)" using assms(5) by simp
  from build_headers_run [OF this valid] obtain m' hs
    where hs: "build_headers (cl ?s) = Some ((cl ?s)\<lparr>id_header := m', headers := hs\<rparr>)" "null_terminated hs (header_list (cl ?s))"
    by blast
  let ?req = "\<lparr>req_url = second_url, req_headers = hs\<rparr>"
  obtain i t' where o: "curl_open_fn watched_stream (env s) ?req fresh_info =
      Some (0, i, \<lparr>cctx = t', clib = \<lparr>lib = (fst (lib (clib (env s))) + 2, second_url), body = demo_event, status = 200, printed = printed (clib (env s))\<rparr>\<rparr>)"
    "status_code i = 200" "ct_is_event_stream (content_type i) = Some True"
    using stream_open [of ?req "header_list (cl ?s)", OF _ _ assms(1,2)] hs(2) by (simp del: set_state_simps) blast
  have parts: "url (cfg (cl s)) = Some second_url" "transport (cfg (cl s)) = Some (sse_transport_curl watched_stream)"
    "now_ms (cfg (cl s)) = Some (now_ms_posix (watch_host stream_host))" "skip_content_type_check (cfg (cl s)) = False"
    "on_open (callbacks (cfg (cl s))) = Some (posix_on_open (watch_host stream_host))"
    by (simp_all add: cfg with_defaults_def posix_config_def posix_config_with_def) (simp add: watch_host_def stream_host_def)
  have "tr_open (sse_transport_curl watched_stream) = Some (curl_open_fn watched_stream)"
    by (simp add: sse_transport_curl_def)
  moreover have "now_ms_posix (watch_host stream_host) \<lparr>cctx = t', clib = \<lparr>lib = (k, second_url), body = b, status = st, printed = printed (clib (env s))\<rparr>\<rparr> =
      (0, \<lparr>cctx = t', clib = \<lparr>lib = (k + 1, second_url), body = b, status = st, printed = printed (clib (env s))\<rparr>\<rparr>)" if "k < 1000" for k b st
    using stream_now [OF that, where w = "\<lparr>lib = (k, second_url), body = b, status = st, printed = printed (clib (env s))\<rparr>" and u = second_url]
    by (simp add: now_ms_posix_def watch_host_def stream_host_def)
  ultimately show ?thesis
    using assms(2-4) hs(1) o parts
    by (simp add: sse_client_poll_def poll_connect_def do_connect_def check_response_def enter_open_def read_clock_def
        call_user_def posix_on_open_def print_to_def watch_host_def stream_host_def hint_def)
qed

section \<open>End to end\<close>

text \<open>The world in which \<open>main\<close> calls \<open>sse_client_init\<close>: the transport's context as it was allocated, nothing printed.\<close>

definition new_world :: "'x watched curl_sys \<Rightarrow> bool" where
  "new_world w \<longleftrightarrow> cctx w = blank_ctx \<and> printed (clib w) = []"

text \<open>The lines printed for messages, and those a stream calls for; \<open>%.*s\<close> stops at a NUL.\<close>

definition message_line :: "print_line \<Rightarrow> bool" where
  "message_line l = (case l of PrintMessage ty i d \<Rightarrow> True | _ \<Rightarrow> False)"

fun lines_for :: "notice list \<Rightarrow> print_line list" where
  "lines_for [] = []"
| "lines_for (NMessage ty d i # ns) = PrintMessage ty i (c_string d) # lines_for ns"
| "lines_for (NError r # ns) = lines_for ns"

lemma lines_for_append: "lines_for (xs @ ys) = lines_for xs @ lines_for ys"
  by (induction xs rule: lines_for.induct) simp_all

lemma lines_shown: "filter message_line (concat (map shown tr)) = lines_for (delivered tr)"
proof (induction tr)
  case (Cons ob tr)
  have "filter message_line (shown ob) = lines_for (obs_notices ob)"
    by (cases ob) (simp_all add: message_line_def)
  then show ?case using Cons.IH by (simp add: lines_for_append)
qed simp

lemma reachable_weaken: "reachable g W s \<Longrightarrow> (\<And>w. W w \<Longrightarrow> W' w) \<Longrightarrow> reachable g W' s"
  by (induction rule: reachable.induct) (auto intro: reachable.intros)

text \<open>C5: The POSIX example prints what the server sends, whatever libcurl does within its promises: every turn of the main loop returns, sleeping at most 250 ms; until the client is CLOSED, the message lines printed, the messages and informational errors handed to the callbacks and the last event id are those the stream specification assigns to the bytes received; and while a connection is open, the bytes received on it are the body bytes libcurl handed over for it, redirect bodies aside, up to a remainder of at most 32 KiB that waits in the ring. The library and the output are watched, which adds a record of deliveries and lines and changes nothing else.\<close>

theorem posix_example_delivers:
  assumes "curl_laws (ho_curl h) ticks" and "chunk_laws (ho_curl h)"
    and "reachable (posix_config (watch_host h) u) new_world s"
  shows "(\<exists>n s'. main_turn s = Some (n, s') \<and> (\<forall>us. n = Some us \<longrightarrow> us \<le> 250000)) \<and>
    (state (cl s) \<noteq> SSE_STATE_CLOSED \<longrightarrow>
      (case resume (buffer_limits (buffers (posix_config h u))) [] (conn_bytes (trace s)) of (ns, i) \<Rightarrow>
        filter message_line (printed (clib (env s))) = lines_for ns \<and> delivered (trace s) = ns \<and> id_bytes (cl s) = i)) \<and>
    (state (cl s) = SSE_STATE_OPEN \<longrightarrow>
      body (clib (env s)) = last (conn_bytes (trace s)) @ queue (cctx (env s)) \<and> length (queue (cctx (env s))) \<le> RING_CAP)"
proof -
  let ?g = "posix_config (watch_host h) u"
  let ?T = "curl_T (ho_curl (watch_host h)) (\<lambda>w. ticks (lib w))"
  note env = posix_example.client_env_axioms [where h = "watch_host h" and ticks = "\<lambda>w. ticks (lib w)" and u = u]
  have new: "?T False w" if "new_world w" for w
    using that watch_laws [OF assms(1)] by (simp add: curl_T_def new_world_def watch_host_def)
  have reach: "reachable ?g (?T False) s" by (rule reachable_weaken [OF assms(3) new])
  note settled = reach_settled [OF env reach]
  have turn: "\<exists>n s'. main_turn s = Some (n, s') \<and> (\<forall>us. n = Some us \<longrightarrow> us \<le> 250000)"
    using main_turn_ok [OF env settled] by (auto simp: returns_iff)
  have wanted: "wanted ?g = (\<lambda>n. True)"
    by (simp add: fun_eq_iff wanted_def posix_config_def posix_config_with_def split: notice.split)
  have bufs: "buffers ?g = buffers (posix_config h u)" by (simp add: posix_config_def posix_config_with_def)
  have books: "books (ho_curl h) ticks (trace s) (env s)"
    by (rule posix_books.reachable_history_fits [OF assms(3)]) (simp add: books_def new_world_def)
  have stream: "case resume (buffer_limits (buffers (posix_config h u))) [] (conn_bytes (trace s)) of (ns, i) \<Rightarrow>
      filter message_line (printed (clib (env s))) = lines_for ns \<and> delivered (trace s) = ns \<and> id_bytes (cl s) = i"
    if "state (cl s) \<noteq> SSE_STATE_CLOSED"
    using reach_history [OF env reach] books that
    by (auto simp: history_inv_def caught_up_def wanted bufs books_def lines_shown split: prod.splits)
  have "\<exists>d. foldM obs_step (trace s) (False, False) = Some (True, d)" if "state (cl s) = SSE_STATE_OPEN"
    using settled that by (auto simp: settled_def client_inv_def obs_ok_def)
  then have "account (last (conn_bytes (trace s))) (env s)" if "state (cl s) = SSE_STATE_OPEN"
    using assms(1,2) that books by (auto simp: books_def)
  then show ?thesis using turn stream by (auto simp: account_def cctx_ok_def)
qed

theorem posix_example_delivers_witness:
  "\<exists>s. reachable (posix_config (watch_host stream_host) second_url) new_world s \<and> state (cl s) = SSE_STATE_OPEN \<and>
     last (conn_bytes (trace s)) @ queue (cctx (env s)) = demo_event"
proof -
  fix c0
  let ?g = "posix_config (watch_host stream_host) second_url"
  let ?w = "\<lparr>cctx = blank_ctx, clib = \<lparr>lib = (0, []), body = [], status = 0, printed = []\<rparr>\<rparr> :: (nat \<times> bytes) watched curl_sys"
  let ?v = "\<lparr>cctx = blank_ctx, clib = \<lparr>lib = (1, []), body = [], status = 0, printed = []\<rparr>\<rparr> :: (nat \<times> bytes) watched curl_sys"
  have laws: "curl_laws (ho_curl stream_host) fst" "chunk_laws (ho_curl stream_host)"
    using stream_laws by (simp_all add: stream_host_def)
  have "now_ms_posix (watch_host stream_host) ?w = (0, ?v)"
    using stream_now [of 0, where w = "\<lparr>lib = (0, []), body = [], status = 0, printed = []\<rparr>" and u = "[]"]
    by (simp add: now_ms_posix_def watch_host_def stream_host_def)
  moreover have "client_config_valid ?g" "now_ms ?g = Some (now_ms_posix (watch_host stream_host))"
    using client_env.config_valid [OF posix_example.client_env_axioms]
    by (blast, simp add: posix_config_def posix_config_with_def)
  ultimately have init: "sse_client_init (Some c0) (Some ?g) ?w = Some (0, Some (init_client ?g 0), ?v)"
    by (simp add: sse_client_init_def)
  let ?s = "started (init_client ?g 0) ?v"
  have r0: "reachable ?g new_world ?s"
    by (rule reachable.init [OF _ init]) (simp add: new_world_def)
  have T: "curl_T (ho_curl (watch_host stream_host)) (\<lambda>w. fst (lib w)) False w" if "new_world w" for w
    using that watch_laws [OF laws(1)] by (simp add: curl_T_def new_world_def watch_host_def)
  have "base_inv ?g (cl ?s)"
    by (rule reach_base [OF posix_example.client_env_axioms reachable_weaken [OF r0 T]])
  then obtain n s' where s': "sse_client_poll ?s = Some (n, s')" "state (cl s') = SSE_STATE_OPEN" "body (clib (env s')) = demo_event"
    using stream_first_poll [of ?s] by (auto simp: started_def init_client_def Let_def)
  have r1: "reachable ?g new_world s'" by (rule reachable.step [OF r0 client_step.poll [OF s'(1)]])
  from posix_example_delivers [OF laws r1] s'(2)
  have "body (clib (env s')) = last (conn_bytes (trace s')) @ queue (cctx (env s'))" by blast
  then show ?thesis using s'(2,3) r1 by (intro exI [of _ s']) simp
qed

end
