(* ===== verification/Tdisplay.thy ===== *)
theory Tdisplay
  imports Td_Font Sse_Client
begin

text \<open>
  The status display of \<open>examples/esp32-tdisplay\<close>: the text renderer of \<open>display.c\<close> on its
  static framebuffer, and of \<open>main.c\<close> the status strings, the renderer and the client's
  four callbacks. The panel, the timer, the heap counter, the log and the JSON library are
  the parameter \<open>b\<close>.
\<close>

type_synonym u16 = "16 word"

section \<open>The framebuffer\<close>

definition DISP_W :: int where "DISP_W = 240"
definition DISP_H :: int where "DISP_H = 135"

definition COL_WHITE :: u16 where "COL_WHITE = 0xFFFF"
definition COL_GREEN :: u16 where "COL_GREEN = 0x07E0"
definition COL_RED :: u16 where "COL_RED = 0xF800"
definition COL_YELLOW :: u16 where "COL_YELLOW = 0xFFE0"
definition COL_CYAN :: u16 where "COL_CYAN = 0x07FF"
definition COL_GREY :: u16 where "COL_GREY = 0x8410"

definition display_clear :: "u16 list \<Rightarrow> u16 list" where
  "display_clear fb = replicate (length fb) 0"

text \<open>
  Coordinates are C \<open>int\<close>s; texts are far too short for them to overflow, so they are
  \<open>int\<close> here. A loop \<open>for (v = 0; v < n; v++)\<close> runs over \<open>upto_int n\<close>.
\<close>

definition upto_int :: "int \<Rightarrow> int list" where
  "upto_int n = map int [0..<nat n]"

definition put_px :: "int \<Rightarrow> int \<Rightarrow> u16 \<Rightarrow> u16 list \<Rightarrow> u16 list option" where
  "put_px x y swapped fb =
     (if x < 0 \<or> x \<ge> DISP_W \<or> y < 0 \<or> y \<ge> DISP_H then Some fb
      else buf_write fb (nat (y * DISP_W + x)) swapped)"

definition draw_bit :: "int \<Rightarrow> int \<Rightarrow> int \<Rightarrow> u16 \<Rightarrow> u16 list \<Rightarrow> u16 list option" where
  "draw_bit x y scale swapped fb =
     foldM (\<lambda>sy. foldM (\<lambda>sx. put_px (x + sx) (y + sy) swapped) (upto_int scale)) (upto_int scale) fb"

definition draw_row :: "int \<Rightarrow> int \<Rightarrow> int \<Rightarrow> u16 \<Rightarrow> u8 \<Rightarrow> u16 list \<Rightarrow> u16 list option" where
  "draw_row x y scale swapped bits fb =
     foldM (\<lambda>col fb. if bit bits (nat col) then draw_bit (x + col * scale) y scale swapped fb else Some fb) (upto_int 8) fb"

definition draw_char :: "int \<Rightarrow> int \<Rightarrow> int \<Rightarrow> u16 \<Rightarrow> u8 \<Rightarrow> u16 list \<Rightarrow> u16 list option" where
  "draw_char x y scale swapped c fb =
     (let c = (if c > 127 then 63 else c) in
      foldM (\<lambda>row fb. do {
          g \<leftarrow> buf_read font8x8_basic (unat c);
          bits \<leftarrow> buf_read g (nat row);
          draw_row x (y + row * scale) scale swapped bits fb
        }) (upto_int 8) fb)"

fun draw_chars :: "int \<Rightarrow> int \<Rightarrow> int \<Rightarrow> u16 \<Rightarrow> bytes \<Rightarrow> u16 list \<Rightarrow> u16 list option" where
  "draw_chars x y scale swapped [] fb = Some fb"
| "draw_chars x y scale swapped (c # cs) fb = do {
     fb \<leftarrow> draw_char x y scale swapped c fb;
     draw_chars (x + 8 * scale) y scale swapped cs fb
   }"

definition display_text :: "int \<Rightarrow> int \<Rightarrow> int \<Rightarrow> u16 \<Rightarrow> bytes \<Rightarrow> u16 list \<Rightarrow> u16 list option" where
  "display_text x y scale color text fb = do {
     s \<leftarrow> c_str text;
     draw_chars x y scale (drop_bit 8 color OR push_bit 8 color) s fb
   }"

section \<open>The status\<close>

text \<open>The static \<open>st\<close>, and \<open>on_open\<close>'s static flag.\<close>

record td_status =
  td_wifi :: bytes
  td_sse :: bytes
  td_events :: u32
  td_dropped :: u32
  td_reconnects :: u32
  td_last_event :: bytes
  td_last_id :: bytes
  td_last_data :: bytes
  td_sse_color :: u16
  td_last_render_ms :: u32
  td_first_open :: bool

text \<open>What is logged, with the arguments of the format strings.\<close>

datatype td_log =
  LogTdOpen u32 u32 | LogTdMessage bytes u32 bytes | LogTdDropped u32 | LogTdError sse_error | LogTdClosed

text \<open>
  \<open>tb_json\<close> is \<open>cJSON_Parse\<close>: NULL, or the root's string-valued fields by name.
\<close>

record 'p td_board =
  tb_now :: "'p \<Rightarrow> u32 \<times> 'p"
  tb_heap :: "'p \<Rightarrow> u32 \<times> 'p"
  tb_flush :: "u16 list \<Rightarrow> 'p \<Rightarrow> 'p"
  tb_log :: "td_log \<Rightarrow> 'p \<Rightarrow> 'p"
  tb_json :: "bytes \<Rightarrow> (bytes \<Rightarrow> bytes option) option"

record 'p td_sys =
  td_st :: td_status
  td_fb :: "u16 list"
  td_hw :: 'p

definition with_st :: "(td_status \<Rightarrow> td_status) \<Rightarrow> 'p td_sys \<Rightarrow> 'p td_sys" where
  "with_st f w = w\<lparr>td_st := f (td_st w)\<rparr>"

section \<open>Strings\<close>

text \<open>Decimal output of \<open>%u\<close> and \<open>%d\<close>.\<close>

fun dec_nat :: "nat \<Rightarrow> bytes" where
  "dec_nat n = (if n < 10 then [of_nat (48 + n)] else dec_nat (n div 10) @ [of_nat (48 + n mod 10)])"

declare dec_nat.simps [simp del]

definition dec_u :: "u32 \<Rightarrow> bytes" where
  "dec_u n = dec_nat (unat n)"

definition dec_d :: "i32 \<Rightarrow> bytes" where
  "dec_d n = (if sint n < 0 then 45 # dec_nat (nat (- sint n)) else dec_nat (nat (sint n)))"

text \<open>\<open>memcpy(dst + off, src, n)\<close>.\<close>

definition memcpy_at :: "bytes \<Rightarrow> nat \<Rightarrow> bytes \<Rightarrow> nat \<Rightarrow> bytes option" where
  "memcpy_at dst off src n =
     (if off \<le> length dst then map_option ((@) (take off dst)) (memcpy (drop off dst) src n) else None)"

definition copy_trunc :: "bytes \<Rightarrow> nat \<Rightarrow> bytes \<Rightarrow> nat \<Rightarrow> bytes option" where
  "copy_trunc dst cap src len =
     (let n = (if len < cap - 1 then len else cap - 1) in do { m \<leftarrow> memcpy dst src n; buf_write m n 0 })"

definition ellipsize :: "bytes \<Rightarrow> nat \<Rightarrow> bytes \<Rightarrow> bytes option" where
  "ellipsize dst cols src = do {
     s \<leftarrow> c_str src;
     if length s \<le> cols then memcpy dst src (length s + 1)
     else do {
       m \<leftarrow> memcpy dst src (cols - 3);
       memcpy_at m (cols - 3) (bytes_of ''...'' @ [0]) 4
     }
   }"

text \<open>\<open>strstr\<close> on the bytes before the NUL.\<close>

fun strstr :: "bytes \<Rightarrow> bytes \<Rightarrow> bytes option" where
  "strstr hay pat =
     (if take (length pat) hay = pat then Some hay
      else (case hay of [] \<Rightarrow> None | b # bs \<Rightarrow> strstr bs pat))"

declare strstr.simps [simp del]

definition TIMESTAMP :: bytes where
  "TIMESTAMP = 34 # bytes_of ''timestamp'' @ [34, 58]"

section \<open>Rendering\<close>

text \<open>The buffer of \<open>render\<close>; it is written before it is read, so its first contents do not matter.\<close>

definition new_line :: bytes where
  "new_line = replicate 40 0"

text \<open>The line with the last event id, or with the timestamp inside it.\<close>

definition id_line :: "td_status \<Rightarrow> bytes \<Rightarrow> bytes option" where
  "id_line st line = do {
     s \<leftarrow> c_str (td_last_id st);
     (case strstr s TIMESTAMP of
        Some ts \<Rightarrow>
          (let ts = drop (length TIMESTAMP) ts in
           snprintf_to line 40 (bytes_of ''id: ...'' @ takeWhile (\<lambda>b. 48 \<le> b \<and> b \<le> 57) ts @ bytes_of ''...''))
      | None \<Rightarrow> do {
          m \<leftarrow> ellipsize (replicate 27 0) 26 (td_last_id st);
          p \<leftarrow> c_str m;
          snprintf_to line 40 (bytes_of ''id: '' @ p)
        })
   }"

text \<open>
  The loop over the three rows of data; \<open>data\<close> is the array and \<open>len\<close> its string's length.
  Once an offset is past the string so are the later ones, so the \<open>break\<close> is a row left out.
\<close>

definition data_rows :: "bytes \<Rightarrow> nat \<Rightarrow> u16 list \<Rightarrow> u16 list option" where
  "data_rows data len fb =
     foldM (\<lambda>row fb.
        (let off = nat row * 28 in
         if off \<ge> len then Some fb
         else do {
           chunk \<leftarrow> copy_trunc (replicate 29 0) 29 (drop off data) (len - off);
           display_text 2 (86 + row * 12) 1 COL_GREEN chunk fb
         })) (upto_int 3) fb"

text \<open>The frame, and the board after its heap was asked for.\<close>

definition render_frame :: "'p td_board \<Rightarrow> 'p td_sys \<Rightarrow> (u16 list \<times> 'p) option" where
  "render_frame b w = do {
     let st = td_st w;
     let fb = display_clear (td_fb w);
     fb \<leftarrow> display_text 2 2 2 COL_CYAN (bytes_of ''eventsource-c'' @ [0]) fb;
     fb \<leftarrow> display_text 2 22 1 COL_WHITE (td_wifi st) fb;
     fb \<leftarrow> display_text 2 34 1 (td_sse_color st) (td_sse st) fb;
     let (heap, p) = tb_heap b (td_hw w);
     line \<leftarrow> snprintf_to new_line 40
       (bytes_of ''ev:'' @ dec_u (td_events st) @ bytes_of '' drop:'' @ dec_u (td_dropped st) @ bytes_of '' heap:'' @ dec_u heap);
     fb \<leftarrow> display_text 2 46 1 COL_WHITE line fb;
     ev \<leftarrow> c_str (td_last_event st);
     line \<leftarrow> snprintf_to line 40 (bytes_of ''type: '' @ ev);
     fb \<leftarrow> display_text 2 58 1 COL_YELLOW line fb;
     line \<leftarrow> id_line st line;
     fb \<leftarrow> display_text 2 70 1 COL_GREY line fb;
     data \<leftarrow> c_str (td_last_data st);
     fb \<leftarrow> data_rows (td_last_data st) (length data) fb;
     Some (fb, p)
   }"

text \<open>
  \<open>display_flush\<close> ends the program if the panel refuses the frame. In the callbacks
  \<open>tb_flush\<close> is the flush that is accepted; the start of the program looks at its result.
\<close>

definition render :: "'p td_board \<Rightarrow> 'p td_sys \<Rightarrow> 'p td_sys option" where
  "render b w = do {
     (fb, p) \<leftarrow> render_frame b w;
     Some (w\<lparr>td_fb := fb, td_hw := tb_flush b fb p\<rparr>)
   }"

section \<open>Callbacks\<close>

definition logged :: "'p td_board \<Rightarrow> td_log \<Rightarrow> 'p td_sys \<Rightarrow> 'p td_sys" where
  "logged b l w = w\<lparr>td_hw := tb_log b l (td_hw w)\<rparr>"

definition td_on_open :: "'p td_board \<Rightarrow> 'p td_sys \<Rightarrow> u32 \<Rightarrow> 'p td_sys option" where
  "td_on_open b w n = do {
     let w = (if td_first_open (td_st w) then w else with_st (\<lambda>st. st\<lparr>td_reconnects := td_reconnects st + 1\<rparr>) w);
     m \<leftarrow> snprintf_to (td_sse (td_st w)) 28
       (bytes_of ''sse: open (reconnects: '' @ dec_u (td_reconnects (td_st w)) @ bytes_of '')'');
     let w = with_st (\<lambda>st. st\<lparr>td_first_open := False, td_sse := m, td_sse_color := COL_GREEN\<rparr>) w;
     render b (logged b (LogTdOpen (td_reconnects (td_st w)) n) w)
   }"

text \<open>The new \<open>last_data\<close>.\<close>

definition summarize_data :: "'p td_board \<Rightarrow> bytes \<Rightarrow> bytes \<Rightarrow> nat \<Rightarrow> bytes option" where
  "summarize_data b last_data data len = do {
     s \<leftarrow> c_str data;
     (case tb_json b s of
        Some root \<Rightarrow>
          (case (root (bytes_of ''user''), root (bytes_of ''title'')) of
             (Some user, Some title) \<Rightarrow>
               snprintf_to last_data 85 (bytes_of ''['' @ user @ bytes_of ''] '' @ title)
           | _ \<Rightarrow> copy_trunc last_data 85 data len)
      | None \<Rightarrow> copy_trunc last_data 85 data len)
   }"

definition td_on_message :: "'p td_board \<Rightarrow> 'p td_sys \<Rightarrow> sse_message \<Rightarrow> 'p td_sys option" where
  "td_on_message b w m = do {
     let st = td_st w;
     ev \<leftarrow> c_str (msg_event m);
     e \<leftarrow> copy_trunc (td_last_event st) 28 (msg_event m) (length ev);
     ident \<leftarrow> c_str (msg_last_event_id m);
     i \<leftarrow> copy_trunc (td_last_id st) 101 (msg_last_event_id m) (length ident);
     d \<leftarrow> summarize_data b (td_last_data st) (msg_data m) (msg_data_len m);
     text \<leftarrow> c_str d;
     let w = with_st (\<lambda>st. st\<lparr>td_events := td_events st + 1, td_last_event := e, td_last_id := i, td_last_data := d\<rparr>) w;
     let w = logged b (LogTdMessage ev (of_nat (msg_data_len m)) text) w;
     let (now, p) = tb_now b (td_hw w);
     if now - td_last_render_ms (td_st w) \<ge> 250 then
       (let (now, p) = tb_now b p in
        render b (with_st (\<lambda>st. st\<lparr>td_last_render_ms := now\<rparr>) (w\<lparr>td_hw := p\<rparr>)))
     else Some (w\<lparr>td_hw := p\<rparr>)
   }"

fun reason_code :: "sse_error_reason \<Rightarrow> nat" where
  "reason_code SSE_ERR_TRANSPORT = 0" | "reason_code SSE_ERR_HTTP_STATUS = 1"
| "reason_code SSE_ERR_BAD_CONTENT_TYPE = 2" | "reason_code SSE_ERR_SERVER_STOP = 3"
| "reason_code SSE_ERR_IDLE_TIMEOUT = 4" | "reason_code SSE_ERR_MESSAGE_TOO_LARGE = 5"
| "reason_code SSE_ERR_EVENT_TYPE_INVALID = 6"

definition td_on_error :: "'p td_board \<Rightarrow> 'p td_sys \<Rightarrow> sse_error \<Rightarrow> 'p td_sys option" where
  "td_on_error b w e =
     (if err_reason e = SSE_ERR_MESSAGE_TOO_LARGE then
        (let w = with_st (\<lambda>st. st\<lparr>td_dropped := td_dropped st + 1\<rparr>) w in
         Some (logged b (LogTdDropped (td_dropped (td_st w))) w))
      else do {
        m \<leftarrow> snprintf_to (td_sse (td_st w)) 28
          (if err_will_retry e
           then bytes_of ''sse: retry in '' @ dec_u (err_retry_in_ms e) @ bytes_of ''ms (r'' @ dec_nat (reason_code (err_reason e)) @ bytes_of '')''
           else bytes_of ''sse: failed (r'' @ dec_nat (reason_code (err_reason e)) @ bytes_of '' s'' @ dec_d (err_http_status e) @ bytes_of '')'');
        let w = with_st (\<lambda>st. st\<lparr>td_sse := m, td_sse_color := (if err_will_retry e then COL_YELLOW else COL_RED)\<rparr>) w;
        render b (logged b (LogTdError e) w)
      })"

definition td_on_closed :: "'p td_board \<Rightarrow> 'p td_sys \<Rightarrow> 'p td_sys option" where
  "td_on_closed b w = do {
     m \<leftarrow> snprintf_to (td_sse (td_st w)) 28 (bytes_of ''sse: closed'');
     render b (logged b LogTdClosed (with_st (\<lambda>st. st\<lparr>td_sse := m, td_sse_color := COL_RED\<rparr>) w))
   }"

section \<open>Startup\<close>

text \<open>The zeroed statics, and what \<open>app_main\<close> shows before and after joining the network.\<close>

definition blank_status :: td_status where
  "blank_status = \<lparr>td_wifi = replicate 28 0, td_sse = replicate 28 0, td_events = 0, td_dropped = 0, td_reconnects = 0,
     td_last_event = replicate 28 0, td_last_id = replicate 101 0, td_last_data = replicate 85 0, td_sse_color = 0,
     td_last_render_ms = 0, td_first_open = True\<rparr>"

definition joining_status :: "bytes \<Rightarrow> td_status \<Rightarrow> td_status option" where
  "joining_status ssid st = do {
     m \<leftarrow> snprintf_to (td_wifi st) 28 (bytes_of ''wifi: joining '' @ take 10 ssid @ bytes_of ''...'');
     s \<leftarrow> snprintf_to (td_sse st) 28 (bytes_of ''sse: waiting for wifi'');
     e \<leftarrow> snprintf_to (td_last_event st) 28 (bytes_of ''-'');
     i \<leftarrow> snprintf_to (td_last_id st) 101 (bytes_of ''-'');
     Some (st\<lparr>td_wifi := m, td_sse := s, td_sse_color := COL_GREY, td_last_event := e, td_last_id := i\<rparr>)
   }"

definition joined_status :: "bytes \<Rightarrow> td_status \<Rightarrow> td_status option" where
  "joined_status ssid st = do {
     m \<leftarrow> snprintf_to (td_wifi st) 28 (bytes_of ''wifi: '' @ take 20 ssid);
     s \<leftarrow> snprintf_to (td_sse st) 28 (bytes_of ''sse: connecting...'');
     Some (st\<lparr>td_wifi := m, td_sse := s\<rparr>)
   }"

end
