(* ===== verification/Tdisplay_App.thy ===== *)
theory Tdisplay_App
  imports Tdisplay Esp_Boot
begin

text \<open>
  The program of \<open>examples/esp32-tdisplay\<close>: \<open>display_init\<close> and \<open>display_flush\<close> of
  \<open>display.c\<close>, and of \<open>main.c\<close> \<open>now_ms\<close>, the Wi-Fi code and \<open>app_main\<close>, which puts a
  client with the display's callbacks on the ESP-IDF transport. The project builds the client with
  a larger \<open>SSE_CLIENT_ID_MAX\<close>; nothing here depends on its value.
\<close>

section \<open>The chip\<close>

text \<open>
  What the program uses besides the calls of \<open>idf\<close>: the HTTP client, the timer in
  microseconds, the free heap, the log and the JSON parser.
\<close>

record 'x chip =
  ch_http :: "'x http_api"
  ch_time :: "'x \<Rightarrow> u64 \<times> 'x"
  ch_heap :: "'x \<Rightarrow> u32 \<times> 'x"
  ch_log :: "td_log \<Rightarrow> 'x \<Rightarrow> 'x"
  ch_json :: "bytes \<Rightarrow> (bytes \<Rightarrow> bytes option) option"

definition td_now_ms :: "'x chip \<Rightarrow> 'x boot \<Rightarrow> u32 \<times> 'x boot" where
  "td_now_ms ch s = (let (us, s) = on_part bt_hw put_hw (ch_time ch) s in (ucast (us div 1000), s))"

definition panel_draw :: "u16 list \<Rightarrow> idf_call" where
  "panel_draw fb = PanelDrawBitmap 0 0 DISP_W DISP_H fb"

definition td_board_of :: "'x idf \<Rightarrow> 'x chip \<Rightarrow> 'x boot td_board" where
  "td_board_of i ch =
     \<lparr>tb_now = td_now_ms ch, tb_heap = on_part bt_hw put_hw (ch_heap ch),
      tb_flush = (\<lambda>fb s. snd (idf_invoke i (panel_draw fb) s)),
      tb_log = (\<lambda>l s. put_hw (ch_log ch l (bt_hw s)) s), tb_json = ch_json ch\<rparr>"

section \<open>The panel\<close>

text \<open>A part of the start that acts on the board only; an abort leaves nothing else of interest.\<close>

definition on_board :: "('x boot \<Rightarrow> 'x boot outcome option) \<Rightarrow> 'x boot td_sys \<Rightarrow> ((i32 \<times> 'x boot) + 'x boot td_sys) option" where
  "on_board f w = map_option (map_sum id (\<lambda>s. w\<lparr>td_hw := s\<rparr>)) (f (td_hw w))"

definition run_on_board :: "'x idf \<Rightarrow> boot_step list \<Rightarrow> 'x boot td_sys \<Rightarrow> ((i32 \<times> 'x boot) + 'x boot td_sys) option" where
  "run_on_board i cs = on_board (\<lambda>s. Some (run_steps i cs s))"

definition display_flush :: "'x idf \<Rightarrow> 'x boot td_sys \<Rightarrow> ((i32 \<times> 'x boot) + 'x boot td_sys) option" where
  "display_flush i w = run_on_board i [Check (panel_draw (td_fb w))] w"

definition PIN_SCLK :: int where "PIN_SCLK = 18"
definition PIN_MOSI :: int where "PIN_MOSI = 19"
definition PIN_CS :: int where "PIN_CS = 5"
definition PIN_DC :: int where "PIN_DC = 16"
definition PIN_RST :: int where "PIN_RST = 23"
definition PIN_BL :: nat where "PIN_BL = 4"

definition display_steps :: "boot_step list" where
  "display_steps =
     [Check (SpiBusInitialize \<lparr>sclk_io_num = PIN_SCLK, mosi_io_num = PIN_MOSI, miso_io_num = -1, quadwp_io_num = -1,
        quadhd_io_num = -1, max_transfer_sz = DISP_W * DISP_H * 2 + 16\<rparr>),
      Check (NewPanelIoSpi \<lparr>dc_gpio_num = PIN_DC, cs_gpio_num = PIN_CS, pclk_hz = 26 * 1000 * 1000, lcd_cmd_bits = 8,
        lcd_param_bits = 8, spi_mode = 0, trans_queue_depth = 10\<rparr>),
      Check (NewPanelSt7789 \<lparr>reset_gpio_num = PIN_RST, rgb_ele_order = LCD_RGB_ELEMENT_ORDER_RGB,
        bits_per_pixel = 16\<rparr>),
      Check PanelReset, Check PanelInit,
      Check (PanelInvertColor True), Check (PanelSwapXy True), Check (PanelMirror False True), Check (PanelSetGap 40 53),
      Check (PanelDispOnOff True),
      Check (GpioConfigOutput (push_bit PIN_BL 1)), Call (GpioSetLevel (int PIN_BL) 1)]"

definition display_init :: "'x idf \<Rightarrow> 'x boot td_sys \<Rightarrow> ((i32 \<times> 'x boot) + 'x boot td_sys) option" where
  "display_init i w =
     and_then (run_on_board i display_steps w) (\<lambda>w. display_flush i (w\<lparr>td_fb := display_clear (td_fb w)\<rparr>))"

section \<open>The client's world\<close>

text \<open>
  The client runs in the world of the display and its board. A callback that went wrong
  would leave \<open>tw_undefined\<close> set.
\<close>

record 'p td_world =
  tw_sys :: "'p td_sys"
  tw_undefined :: bool

definition tw_hw :: "'p td_world \<Rightarrow> 'p" where
  "tw_hw w = td_hw (tw_sys w)"

definition put_tw :: "'p \<Rightarrow> 'p td_world \<Rightarrow> 'p td_world" where
  "put_tw p w = w\<lparr>tw_sys := (tw_sys w)\<lparr>td_hw := p\<rparr>\<rparr>"

definition td_callback :: "('p td_sys \<Rightarrow> 'p td_sys option) \<Rightarrow> 'p td_world esp_sys \<Rightarrow> ('p td_world esp_sys, unit) script" where
  "td_callback f w =
     (let y = elib w in
      Return () (w\<lparr>elib := (case f (tw_sys y) of Some s \<Rightarrow> y\<lparr>tw_sys := s\<rparr> | None \<Rightarrow> y\<lparr>tw_undefined := True\<rparr>)\<rparr>))"

definition td_http :: "'x chip \<Rightarrow> 'x boot td_world http_api" where
  "td_http ch = lift_http tw_hw put_tw (lift_http bt_hw put_hw (ch_http ch))"

definition td_clock :: "'x chip \<Rightarrow> 'x boot td_world esp_sys \<Rightarrow> u32 \<times> 'x boot td_world esp_sys" where
  "td_clock ch w = (let (t, y) = on_part tw_hw put_tw (td_now_ms ch) (elib w) in (t, w\<lparr>elib := y\<rparr>))"

definition td_config_with ::
  "nat \<Rightarrow> nat \<Rightarrow> nat \<Rightarrow> nat \<Rightarrow> 'x idf \<Rightarrow> 'x chip \<Rightarrow> bytes \<Rightarrow> 'x boot td_world esp_sys sse_client_config" where
  "td_config_with d n e r i ch u = (let b = td_board_of i ch in
     \<lparr>url = Some u, extra_headers = None, default_retry_ms = 0, max_retry_ms = 30000, jitter_pct = 10,
      idle_timeout_ms = 60000, read_timeout_ms = 0, skip_content_type_check = False,
      buffers = \<lparr>buf_data = Some (replicate d 0), buf_data_len = d, buf_id = Some (replicate n 0), buf_id_len = n,
                 buf_event = Some (replicate e 0), buf_event_len = e\<rparr>,
      rx_buf = Some (replicate r 0), rx_buf_len = r, transport = Some (sse_transport_esp (td_http ch)),
      now_ms = Some (td_clock ch),
      callbacks =
        \<lparr>on_open = Some (\<lambda>w n. td_callback (\<lambda>s. td_on_open b s n) w),
         on_message = Some (\<lambda>w m. td_callback (\<lambda>s. td_on_message b s m) w),
         on_error = Some (\<lambda>w e. td_callback (\<lambda>s. td_on_error b s e) w),
         on_closed = Some (\<lambda>w _. td_callback (td_on_closed b) w)\<rparr>,
      reconnect_policy = None\<rparr>)"

definition td_config :: "'x idf \<Rightarrow> 'x chip \<Rightarrow> bytes \<Rightarrow> 'x boot td_world esp_sys sse_client_config" where
  "td_config i ch u = td_config_with 8192 (SSE_CLIENT_ID_MAX + 1) 64 1024 i ch u"

section \<open>From power-on to the task\<close>

text \<open>The handler and \<open>wifi_connect_blocking\<close> are those of the other example, without its log line.\<close>

definition td_wifi_connect_blocking :: "'x idf \<Rightarrow> nat \<Rightarrow> nat \<Rightarrow> bytes \<Rightarrow> bytes \<Rightarrow> 'x boot \<Rightarrow> 'x boot outcome option" where
  "td_wifi_connect_blocking i n k ssid password s = wifi_join i n k ssid password s"

text \<open>Setting the status, and drawing it.\<close>

definition show_status ::
  "'x idf \<Rightarrow> 'x chip \<Rightarrow> (td_status \<Rightarrow> td_status option) \<Rightarrow> 'x boot td_sys \<Rightarrow> ((i32 \<times> 'x boot) + 'x boot td_sys) option" where
  "show_status i ch f w = do {
     st \<leftarrow> f (td_st w);
     (fb, p) \<leftarrow> render_frame (td_board_of i ch) (w\<lparr>td_st := st\<rparr>);
     display_flush i (w\<lparr>td_st := st, td_fb := fb, td_hw := p\<rparr>)
   }"

definition tw_alloc :: "'x idf \<Rightarrow> 'x boot td_world \<Rightarrow> (bool \<times> bool) \<times> 'x boot td_world" where
  "tw_alloc i = on_part tw_hw put_tw (boot_alloc i)"

definition tw_create :: "'x idf \<Rightarrow> u32 \<Rightarrow> u32 \<Rightarrow> 'x boot td_world \<Rightarrow> bool \<times> 'x boot td_world" where
  "tw_create i d p = on_part tw_hw put_tw (boot_create i d p)"

definition td_start_client ::
  "'x idf \<Rightarrow> 'x chip \<Rightarrow> bytes \<Rightarrow> 'x boot td_world esp_sys sse_client \<Rightarrow> 'x boot td_sys \<Rightarrow>
   ((i32 \<times> 'x boot) + 'x boot td_world esp_sys sys) option" where
  "td_start_client i ch u c0 w =
     map_option (map_sum (map_prod id tw_hw) id)
       (start_client (tw_alloc i) (tw_create i) (idf_word i) (td_http ch) (td_config i ch u) c0
          \<lparr>tw_sys = w, tw_undefined = False\<rparr>)"

definition td_app_main ::
  "'x idf \<Rightarrow> 'x chip \<Rightarrow> nat \<Rightarrow> nat \<Rightarrow> bytes \<Rightarrow> bytes \<Rightarrow> bytes \<Rightarrow> 'x boot td_world esp_sys sse_client \<Rightarrow> 'x boot td_sys \<Rightarrow>
   ((i32 \<times> 'x boot) + 'x boot td_world esp_sys sys) option" where
  "td_app_main i ch n k ssid password u c0 w =
     and_then (run_on_board i [Check NvsFlashInit] w) (\<lambda>w.
     and_then (display_init i w) (\<lambda>w.
     and_then (show_status i ch (joining_status ssid) w) (\<lambda>w.
     and_then (on_board (td_wifi_connect_blocking i n k ssid password) w) (\<lambda>w.
     and_then (show_status i ch (joined_status ssid) w) (td_start_client i ch u c0)))))"

end
