(* ===== verification/Tdisplay_Properties.thy ===== *)
theory Tdisplay_Properties
  imports Tdisplay Sse_Client_Safety
begin

text \<open>
  The T-Display example: its renderer draws exactly the pixels of the glyphs, and its
  callbacks stay within their arrays for every message and error the client reports.
\<close>

section \<open>Painting\<close>

text \<open>A drawing step that paints the points of \<open>S\<close> with \<open>c\<close> and leaves the others.\<close>

definition on_screen :: "int \<Rightarrow> int \<Rightarrow> bool" where
  "on_screen x y \<longleftrightarrow> 0 \<le> x \<and> x < DISP_W \<and> 0 \<le> y \<and> y < DISP_H"

definition pixel :: "u16 list \<Rightarrow> int \<Rightarrow> int \<Rightarrow> u16" where
  "pixel fb x y = fb ! nat (y * DISP_W + x)"

definition fb_ok :: "u16 list \<Rightarrow> bool" where
  "fb_ok fb \<longleftrightarrow> length fb = nat (DISP_W * DISP_H)"

definition paints :: "(u16 list \<Rightarrow> u16 list option) \<Rightarrow> (int \<times> int) set \<Rightarrow> u16 \<Rightarrow> bool" where
  "paints f S c \<longleftrightarrow> (\<forall>fb. fb_ok fb \<longrightarrow> returns (f fb) (\<lambda>fb'. fb_ok fb' \<and>
     (\<forall>x y. on_screen x y \<longrightarrow> pixel fb' x y = (if (x, y) \<in> S then c else pixel fb x y))))"

lemma screen_index:
  assumes "on_screen x y"
  shows "nat (y * DISP_W + x) < nat (DISP_W * DISP_H)"
    and "on_screen x' y' \<Longrightarrow> nat (y * DISP_W + x) = nat (y' * DISP_W + x') \<longleftrightarrow> x = x' \<and> y = y'"
proof -
  show "nat (y * DISP_W + x) < nat (DISP_W * DISP_H)"
    using assms by (simp add: on_screen_def DISP_W_def DISP_H_def nat_less_iff)
  show "nat (y * DISP_W + x) = nat (y' * DISP_W + x') \<longleftrightarrow> x = x' \<and> y = y'" if "on_screen x' y'"
  proof
    assume "nat (y * DISP_W + x) = nat (y' * DISP_W + x')"
    then have eq: "y * 240 + x = y' * 240 + x'"
      using assms that by (simp add: on_screen_def DISP_W_def eq_nat_nat_iff)
    have r: "0 \<le> x" "x < 240" "0 \<le> x'" "x' < 240" using assms that by (simp_all add: on_screen_def DISP_W_def)
    have "y = y'" using eq r by (cases y y' rule: linorder_cases) linarith+
    then show "x = x' \<and> y = y'" using eq by simp
  qed simp
qed

lemma paints_put_px: "paints (put_px x y c) {(x, y)} c"
proof -
  have "returns (put_px x y c fb) (\<lambda>fb'. fb_ok fb' \<and>
     (\<forall>x' y'. on_screen x' y' \<longrightarrow> pixel fb' x' y' = (if (x', y') \<in> {(x, y)} then c else pixel fb x' y')))"
    if fb: "fb_ok fb" for fb
  proof (cases "on_screen x y")
    case False
    then show ?thesis using fb by (auto simp: put_px_def on_screen_def)
  next
    case True
    then have run: "put_px x y c fb = Some (fb[nat (y * DISP_W + x) := c])"
      using screen_index(1) [OF True] fb by (simp add: put_px_def on_screen_def fb_ok_def buf_write_def)
    have "pixel (fb[nat (y * DISP_W + x) := c]) x' y' = (if x' = x \<and> y' = y then c else pixel fb x' y')"
      if "on_screen x' y'" for x' y'
      using screen_index(1) [OF that] screen_index(2) [OF True that] fb
      by (auto simp: pixel_def nth_list_update fb_ok_def)
    then show ?thesis using fb by (simp add: run fb_ok_def)
  qed
  then show ?thesis by (simp add: paints_def)
qed

lemma paints_nothing: "paints Some {} c"
  by (simp add: paints_def)

lemma paints_then: "paints f S c \<Longrightarrow> paints g R c \<Longrightarrow> paints (\<lambda>fb. f fb \<bind> g) (S \<union> R) c"
  unfolding paints_def by (fastforce elim!: returns_mono)

lemma paints_foldM:
  "(\<And>i. i \<in> set is \<Longrightarrow> paints (f i) (S i) c) \<Longrightarrow> paints (foldM f is) (\<Union>i\<in>set is. S i) c"
proof (induction "is")
  case Nil
  then show ?case using paints_nothing [of c] by (simp add: paints_def)
next
  case (Cons i "is")
  have "paints (\<lambda>fb. f i fb \<bind> foldM f is) (S i \<union> (\<Union>i\<in>set is. S i)) c"
    using Cons by (intro paints_then) auto
  then show ?case by (simp add: paints_def)
qed

lemma paints_cong: "paints f S c \<Longrightarrow> S = R \<Longrightarrow> paints f R c"
  by simp

lemma set_upto_int [simp]: "set (upto_int n) = {0..<n}"
  by (auto simp: upto_int_def image_iff intro!: bexI [of _ "nat _"])

section \<open>Glyphs\<close>

definition cell :: "int \<Rightarrow> int \<Rightarrow> int \<Rightarrow> (int \<times> int) set" where
  "cell x y scale = {x..<x + scale} \<times> {y..<y + scale}"

lemma paints_draw_bit: "paints (draw_bit x y scale c) (cell x y scale) c"
proof -
  have row: "paints (foldM (\<lambda>sx. put_px (x + sx) (y + sy) c) (upto_int scale)) (\<Union>sx\<in>set (upto_int scale). {(x + sx, y + sy)}) c" for sy
    by (intro paints_foldM paints_put_px)
  have "paints (foldM (\<lambda>sy. foldM (\<lambda>sx. put_px (x + sx) (y + sy) c) (upto_int scale)) (upto_int scale))
      (\<Union>sy\<in>set (upto_int scale). \<Union>sx\<in>set (upto_int scale). {(x + sx, y + sy)}) c"
    by (intro paints_foldM row)
  moreover have "(\<Union>sy\<in>{0..<scale}. \<Union>sx\<in>{0..<scale}. {(x + sx, y + sy)}) = cell x y scale"
  proof (rule set_eqI, clarify)
    fix a b
    show "(a, b) \<in> (\<Union>sy\<in>{0..<scale}. \<Union>sx\<in>{0..<scale}. {(x + sx, y + sy)}) \<longleftrightarrow> (a, b) \<in> cell x y scale"
    proof
      assume "(a, b) \<in> cell x y scale"
      then show "(a, b) \<in> (\<Union>sy\<in>{0..<scale}. \<Union>sx\<in>{0..<scale}. {(x + sx, y + sy)})"
        by (intro UN_I [of "b - y"] UN_I [of "a - x"]) (auto simp: cell_def)
    qed (auto simp: cell_def)
  qed
  ultimately show ?thesis by (simp add: draw_bit_def [abs_def])
qed

definition row_cells :: "int \<Rightarrow> int \<Rightarrow> int \<Rightarrow> u8 \<Rightarrow> (int \<times> int) set" where
  "row_cells x y scale bits = (\<Union>col\<in>{0..<8}. if bit bits (nat col) then cell (x + col * scale) y scale else {})"

lemma paints_draw_row: "paints (draw_row x y scale c bits) (row_cells x y scale bits) c"
proof -
  have "paints (\<lambda>fb. if bit bits (nat col) then draw_bit (x + col * scale) y scale c fb else Some fb)
      (if bit bits (nat col) then cell (x + col * scale) y scale else {}) c" for col
    using paints_draw_bit paints_nothing by (cases "bit bits (nat col)") simp_all
  then have "paints (foldM (\<lambda>col fb. if bit bits (nat col) then draw_bit (x + col * scale) y scale c fb else Some fb) (upto_int 8))
      (\<Union>col\<in>set (upto_int 8). if bit bits (nat col) then cell (x + col * scale) y scale else {}) c"
    by (rule paints_foldM)
  then show ?thesis by (simp add: draw_row_def [abs_def] row_cells_def)
qed

text \<open>The glyph of a character: that of \<open>?\<close> for what is not ASCII.\<close>

definition glyph :: "u8 \<Rightarrow> u8 list" where
  "glyph b = font8x8_basic ! unat (if b > 127 then 63 else b)"

definition char_cells :: "int \<Rightarrow> int \<Rightarrow> int \<Rightarrow> u8 \<Rightarrow> (int \<times> int) set" where
  "char_cells x y scale b = (\<Union>row\<in>{0..<8}. row_cells x (y + row * scale) scale (glyph b ! nat row))"

lemma paints_draw_char: "paints (draw_char x y scale c b) (char_cells x y scale b) c"
proof -
  let ?b = "if b > 127 then 63 else b"
  have "unat ?b < 128" by (simp add: word_less_nat_alt word_le_nat_alt not_less)
  then have read: "buf_read font8x8_basic (unat ?b) = Some (glyph b)" and len: "length (glyph b) = 8"
    using font_shape by (simp_all add: buf_read_def glyph_def list_all_length)
  have step: "paints (\<lambda>fb. do { g \<leftarrow> buf_read font8x8_basic (unat ?b); bits \<leftarrow> buf_read g (nat row);
      draw_row x (y + row * scale) scale c bits fb }) (row_cells x (y + row * scale) scale (glyph b ! nat row)) c"
    if "row \<in> set (upto_int 8)" for row
  proof -
    have "buf_read (glyph b) (nat row) = Some (glyph b ! nat row)" using that len by (auto simp: buf_read_def nat_less_iff)
    then show ?thesis using paints_draw_row by (simp add: read)
  qed
  have "paints (foldM (\<lambda>row fb. do { g \<leftarrow> buf_read font8x8_basic (unat ?b); bits \<leftarrow> buf_read g (nat row);
      draw_row x (y + row * scale) scale c bits fb }) (upto_int 8))
      (\<Union>row\<in>set (upto_int 8). row_cells x (y + row * scale) scale (glyph b ! nat row)) c"
    by (intro paints_foldM step)
  then show ?thesis by (simp only: draw_char_def [abs_def] Let_def char_cells_def set_upto_int)
qed

primrec text_cells :: "int \<Rightarrow> int \<Rightarrow> int \<Rightarrow> bytes \<Rightarrow> (int \<times> int) set" where
  "text_cells x y scale [] = {}"
| "text_cells x y scale (b # bs) = char_cells x y scale b \<union> text_cells (x + 8 * scale) y scale bs"

lemma paints_draw_chars: "paints (draw_chars x y scale c s) (text_cells x y scale s) c"
proof (induction s arbitrary: x)
  case Nil
  then show ?case using paints_nothing [of c] by (simp add: paints_def)
next
  case (Cons b s)
  then show ?case using paints_then [OF paints_draw_char Cons] by (simp add: paints_def)
qed

lemma paints_ok: "paints f S c \<Longrightarrow> fb_ok fb \<Longrightarrow> returns (f fb) fb_ok"
  by (auto simp: paints_def elim!: returns_mono)

lemma display_text_ok: "c_str text = Some s \<Longrightarrow> fb_ok fb \<Longrightarrow> returns (display_text x y scale c text fb) fb_ok"
  using paints_ok [OF paints_draw_chars] by (simp add: display_text_def)





section \<open>The renderer\<close>





section \<open>The status strings\<close>

definition str_ok :: "nat \<Rightarrow> bytes \<Rightarrow> bool" where
  "str_ok cap m \<longleftrightarrow> length m = cap \<and> 0 \<in> set m"

definition td_ok :: "'p td_sys \<Rightarrow> bool" where
  "td_ok w \<longleftrightarrow> fb_ok (td_fb w) \<and> str_ok 28 (td_wifi (td_st w)) \<and> str_ok 28 (td_sse (td_st w)) \<and>
     str_ok 28 (td_last_event (td_st w)) \<and> str_ok 101 (td_last_id (td_st w)) \<and> str_ok 85 (td_last_data (td_st w))"

lemma c_str_Some: "0 \<in> set m \<Longrightarrow> c_str m = Some (takeWhile (\<lambda>b. b \<noteq> 0) m)"
  by (simp add: c_str_def)

lemma snprintf_str_ok: "0 < cap \<Longrightarrow> str_ok cap dst \<Longrightarrow> returns (snprintf_to dst cap v) (str_ok cap)"
  by (auto simp: snprintf_to_def Let_def str_ok_def)

lemma copy_trunc_ok:
  assumes "0 < cap" and "str_ok cap dst" and "len \<le> length src"
  shows "returns (copy_trunc dst cap src len) (str_ok cap)"
proof -
  let ?n = "if len < cap - 1 then len else cap - 1"
  have n: "?n < cap" "?n \<le> length src" using assms(1,3) by auto
  then have "returns (memcpy dst src ?n) (\<lambda>m. length m = cap)"
    using assms(2) by (auto simp: memcpy_def str_ok_def)
  then show ?thesis using n(1)
    by (auto simp: copy_trunc_def Let_def str_ok_def set_update_memI elim!: returns_mono)
qed

lemma ellipsize_ok:
  assumes "str_ok 27 dst" and "0 \<in> set src"
  shows "returns (ellipsize dst 26 src) (\<lambda>m. 0 \<in> set m)"
proof -
  let ?s = "takeWhile (\<lambda>b. b \<noteq> 0) src"
  have s: "length ?s < length src" "src ! length ?s = 0"
  proof -
    obtain xs ys where x: "src = xs @ 0 # ys" "0 \<notin> set xs" using split_list_first [OF assms(2)] by blast
    have "takeWhile (\<lambda>b. b \<noteq> 0) (xs @ 0 # ys) = xs" using x(2) by (subst takeWhile_append2) auto
    then have "?s = xs" using x(1) by simp
    then show "length ?s < length src" "src ! length ?s = 0" using x by simp_all
  qed
  have dots: "length (bytes_of ''...'') = 3" by (simp add: bytes_of_def)
  show ?thesis
  proof (cases "length ?s \<le> 26")
    case True
    have "src ! length ?s \<in> set (take (length ?s + 1) src)"
      using s(1) by (simp add: in_set_conv_nth) (rule exI [of _ "length ?s"], simp)
    then show ?thesis using True s assms by (auto simp: ellipsize_def c_str_Some memcpy_def str_ok_def)
  next
    case False
    then have "23 \<le> length src" using s(1) by linarith
    then show ?thesis using False assms dots
      by (simp add: ellipsize_def c_str_Some memcpy_def memcpy_at_def str_ok_def)
  qed
qed

section \<open>Rendering and callbacks\<close>

lemma returnsE:
  assumes "returns m Q"
  obtains x where "m = Some x" and "Q x"
  using assms by (auto simp: returns_iff)

lemma print28: "str_ok 28 dst \<Longrightarrow> returns (snprintf_to dst 28 v) (str_ok 28)"
  by (rule snprintf_str_ok) simp

lemma print40: "str_ok 40 dst \<Longrightarrow> returns (snprintf_to dst 40 v) (str_ok 40)"
  by (rule snprintf_str_ok) simp

lemma draw: "0 \<in> set m \<Longrightarrow> fb_ok fb \<Longrightarrow> returns (display_text x y scale c m fb) fb_ok"
  by (rule display_text_ok [OF c_str_Some])

lemma str_okD: "str_ok n m \<Longrightarrow> 0 \<in> set m"
  by (simp add: str_ok_def)

lemma id_line_ok:
  assumes "str_ok 101 (td_last_id st)" and "str_ok 40 line"
  shows "returns (id_line st line) (str_ok 40)"
proof -
  let ?s = "takeWhile (\<lambda>b. b \<noteq> 0) (td_last_id st)"
  have id: "c_str (td_last_id st) = Some ?s" "0 \<in> set (td_last_id st)"
    using assms(1) by (simp_all add: c_str_Some str_ok_def)
  obtain m where m: "ellipsize (replicate 27 0) 26 (td_last_id st) = Some m" "0 \<in> set m"
    using ellipsize_ok [of "replicate 27 0", OF _ id(2)] by (auto simp: returns_iff str_ok_def)
  show ?thesis
    using snprintf_str_ok [OF _ assms(2)] id m by (cases "strstr ?s TIMESTAMP") (simp_all add: id_line_def c_str_Some)
qed

lemma data_rows_ok:
  assumes "fb_ok fb" and "len \<le> length data"
  shows "returns (data_rows data len fb) fb_ok"
proof -
  have "returns (copy_trunc (replicate 29 0) 29 (drop off data) (len - off)) (str_ok 29)" for off
    using assms(2) by (intro copy_trunc_ok) (simp_all add: str_ok_def)
  then have "returns (copy_trunc (replicate 29 0) 29 (drop off data) (len - off)) (\<lambda>chunk. returns (display_text 2 y 1 COL_GREEN chunk fb) fb_ok)"
    if "fb_ok fb" for off y fb
    by (rule returns_mono) (rule display_text_ok [OF c_str_Some that], simp add: str_ok_def)
  then show ?thesis unfolding data_rows_def using assms(1)
    by (intro returns_foldM) (auto simp: Let_def)
qed

lemma render_ok:
  assumes "td_ok w"
  shows "returns (render b w) (\<lambda>w'. td_ok w' \<and> td_st w' = td_st w)"
proof -
  let ?st = "td_st w"
  have str: "0 \<in> set (td_wifi ?st)" "0 \<in> set (td_sse ?st)" "0 \<in> set (td_last_event ?st)" "0 \<in> set (td_last_data ?st)"
    using assms by (simp_all add: td_ok_def str_ok_def)
  have fb0: "fb_ok (display_clear (td_fb w))" using assms by (simp add: td_ok_def fb_ok_def display_clear_def)
  have title: "(0 :: u8) \<in> set (bytes_of ''eventsource-c'' @ [0])" by simp
  have ids: "str_ok 101 (td_last_id ?st)" using assms by (simp add: td_ok_def)
  obtain f1 where f1: "display_text 2 2 2 COL_CYAN (bytes_of ''eventsource-c'' @ [0]) (display_clear (td_fb w)) = Some f1" "fb_ok f1"
    by (rule returnsE [OF draw [OF title fb0]])
  obtain f2 where f2: "display_text 2 22 1 COL_WHITE (td_wifi ?st) f1 = Some f2" "fb_ok f2"
    by (rule returnsE [OF draw [OF str(1) f1(2)]])
  obtain f3 where f3: "display_text 2 34 1 (td_sse_color ?st) (td_sse ?st) f2 = Some f3" "fb_ok f3"
    by (rule returnsE [OF draw [OF str(2) f2(2)]])
  obtain heap p where heap: "tb_heap b (td_hw w) = (heap, p)" by (cases "tb_heap b (td_hw w)")
  have nl: "str_ok 40 new_line" by (simp add: str_ok_def new_line_def)
  obtain l1 where l1: "snprintf_to new_line 40 (bytes_of ''ev:'' @ dec_u (td_events ?st) @ bytes_of '' drop:'' @
      dec_u (td_dropped ?st) @ bytes_of '' heap:'' @ dec_u heap) = Some l1" "str_ok 40 l1"
    by (rule returnsE [OF print40 [OF nl]])
  obtain f4 where f4: "display_text 2 46 1 COL_WHITE l1 f3 = Some f4" "fb_ok f4"
    by (rule returnsE [OF draw [OF str_okD [OF l1(2)] f3(2)]])
  let ?ev = "takeWhile (\<lambda>b. b \<noteq> 0) (td_last_event ?st)"
  obtain l2 where l2: "snprintf_to l1 40 (bytes_of ''type: '' @ ?ev) = Some l2" "str_ok 40 l2"
    by (rule returnsE [OF print40 [OF l1(2)]])
  obtain f5 where f5: "display_text 2 58 1 COL_YELLOW l2 f4 = Some f5" "fb_ok f5"
    by (rule returnsE [OF draw [OF str_okD [OF l2(2)] f4(2)]])
  obtain l3 where l3: "id_line ?st l2 = Some l3" "str_ok 40 l3"
    by (rule returnsE [OF id_line_ok [OF ids l2(2)]])
  obtain f6 where f6: "display_text 2 70 1 COL_GREY l3 f5 = Some f6" "fb_ok f6"
    by (rule returnsE [OF draw [OF str_okD [OF l3(2)] f5(2)]])
  obtain f7 where f7: "data_rows (td_last_data ?st) (length (takeWhile (\<lambda>b. b \<noteq> 0) (td_last_data ?st))) f6 = Some f7" "fb_ok f7"
    by (rule returnsE [OF data_rows_ok [OF f6(2) length_takeWhile_le]])
  show ?thesis
    using assms f1 f2 f3 heap l1 f4 l2 f5 l3 f6 f7 str(3,4)
    by (simp add: render_def render_frame_def Let_def c_str_Some td_ok_def)
qed

lemma render_keeps: "td_ok w \<Longrightarrow> returns (render b w) td_ok"
  by (rule returns_mono [OF render_ok]) simp_all

lemma render_frame_ok: "td_ok w \<Longrightarrow> returns (render_frame b w) (\<lambda>(fb, p). fb_ok fb)"
  using render_ok [of w b] by (auto simp: render_def td_ok_def split_beta elim!: returns_mono)

lemma td_ok_upd:
  "td_ok w \<Longrightarrow> str_ok 28 m \<Longrightarrow> td_ok (with_st (\<lambda>st. st\<lparr>td_sse := m, td_sse_color := c\<rparr>) w)"
  "td_ok w \<Longrightarrow> str_ok 28 m \<Longrightarrow> td_ok (with_st (\<lambda>st. st\<lparr>td_first_open := False, td_sse := m, td_sse_color := c\<rparr>) w)"
  "td_ok (w\<lparr>td_hw := p\<rparr>) = td_ok w"
  "td_ok (with_st (\<lambda>st. st\<lparr>td_reconnects := n\<rparr>) w) = td_ok w"
  "td_ok (with_st (\<lambda>st. st\<lparr>td_dropped := n\<rparr>) w) = td_ok w"
  "td_ok (with_st (\<lambda>st. st\<lparr>td_last_render_ms := n\<rparr>) w) = td_ok w"
  by (simp_all add: td_ok_def with_st_def)

lemma td_on_open_ok: "td_ok w \<Longrightarrow> returns (td_on_open b w n) td_ok"
proof -
  assume w: "td_ok w"
  let ?w = "if td_first_open (td_st w) then w else with_st (\<lambda>st. st\<lparr>td_reconnects := td_reconnects st + 1\<rparr>) w"
  have w1: "td_ok ?w" using w by (simp add: td_ok_def with_st_def)
  then have "str_ok 28 (td_sse (td_st ?w))" by (simp only: td_ok_def)
  then obtain m where m: "snprintf_to (td_sse (td_st ?w)) 28
       (bytes_of ''sse: open (reconnects: '' @ dec_u (td_reconnects (td_st ?w)) @ bytes_of '')'') = Some m" "str_ok 28 m"
    by (rule returnsE [OF print28])
  let ?v = "with_st (\<lambda>st. st\<lparr>td_first_open := False, td_sse := m, td_sse_color := COL_GREEN\<rparr>) ?w"
  have "td_ok (logged b (LogTdOpen (td_reconnects (td_st ?v)) n) ?v)"
    using td_ok_upd(2) [OF w1 m(2)] by (simp add: logged_def td_ok_upd(3))
  from render_keeps [OF this] show ?thesis
    by (simp only: td_on_open_def Let_def m(1) Option.bind.bind_lunit)
qed

lemma td_on_closed_ok: "td_ok w \<Longrightarrow> returns (td_on_closed b w) td_ok"
proof -
  assume w: "td_ok w"
  then have "str_ok 28 (td_sse (td_st w))" by (simp only: td_ok_def)
  then obtain m where m: "snprintf_to (td_sse (td_st w)) 28 (bytes_of ''sse: closed'') = Some m" "str_ok 28 m"
    by (rule returnsE [OF print28])
  have "td_ok (logged b LogTdClosed (with_st (\<lambda>st. st\<lparr>td_sse := m, td_sse_color := COL_RED\<rparr>) w))"
    using td_ok_upd(1) [OF w m(2)] by (simp add: logged_def td_ok_upd(3))
  from render_keeps [OF this] show ?thesis by (simp add: td_on_closed_def m(1))
qed

lemma td_on_error_ok: "td_ok w \<Longrightarrow> returns (td_on_error b w e) td_ok"
proof -
  assume w: "td_ok w"
  let ?text = "if err_will_retry e
     then bytes_of ''sse: retry in '' @ dec_u (err_retry_in_ms e) @ bytes_of ''ms (r'' @ dec_nat (reason_code (err_reason e)) @ bytes_of '')''
     else bytes_of ''sse: failed (r'' @ dec_nat (reason_code (err_reason e)) @ bytes_of '' s'' @ dec_d (err_http_status e) @ bytes_of '')''"
  have "str_ok 28 (td_sse (td_st w))" using w by (simp only: td_ok_def)
  then obtain m where m: "snprintf_to (td_sse (td_st w)) 28 ?text = Some m" "str_ok 28 m"
    by (rule returnsE [OF print28])
  have "td_ok (logged b (LogTdError e) (with_st (\<lambda>st. st\<lparr>td_sse := m, td_sse_color := (if err_will_retry e then COL_YELLOW else COL_RED)\<rparr>) w))"
    using td_ok_upd(1) [OF w m(2)] by (simp add: logged_def td_ok_upd(3))
  from render_ok [OF this, of b] have "returns (do { m \<leftarrow> snprintf_to (td_sse (td_st w)) 28 ?text;
      render b (logged b (LogTdError e) (with_st (\<lambda>st. st\<lparr>td_sse := m, td_sse_color := (if err_will_retry e then COL_YELLOW else COL_RED)\<rparr>) w)) }) td_ok"
    by (simp only: m(1) Option.bind.bind_lunit) (erule returns_mono, simp)
  moreover have "td_ok (with_st (\<lambda>st. st\<lparr>td_dropped := td_dropped st + 1\<rparr>) w)"
    using w by (simp add: td_ok_def with_st_def)
  ultimately show ?thesis by (simp add: td_on_error_def Let_def logged_def td_ok_upd(3))
qed

lemma c_str_length: "c_str m = Some s \<Longrightarrow> length s \<le> length m"
  by (auto simp: c_str_def length_takeWhile_le split: if_splits)

lemma summarize_ok:
  assumes "str_ok 85 dst" and "terminated data len"
  shows "returns (summarize_data b dst data len) (str_ok 85)"
proof -
  have d: "0 \<in> set data" "len \<le> length data"
    using assms(2) nth_mem [of len data] by (auto simp: terminated_def)
  note c = copy_trunc_ok [OF _ assms(1) d(2)] and sn = snprintf_str_ok [OF _ assms(1)]
  show ?thesis using c sn d(1)
    by (auto simp: summarize_data_def c_str_Some split: option.split)
qed

lemma message_wfD: "message_wf m \<Longrightarrow> 0 \<in> set (msg_event m) \<and> 0 \<in> set (msg_last_event_id m) \<and> terminated (msg_data m) (msg_data_len m)"
  by (auto simp: message_wf_def returns_iff c_str_def split: if_splits)

lemma td_on_message_ok:
  assumes w: "td_ok w" and m: "message_wf m"
  shows "returns (td_on_message b w m) td_ok"
proof -
  let ?st = "td_st w"
  obtain ev where ev: "c_str (msg_event m) = Some ev" using message_wfD [OF m] by (simp add: c_str_Some)
  obtain i where i: "c_str (msg_last_event_id m) = Some i" using message_wfD [OF m] by (simp add: c_str_Some)
  have st: "str_ok 28 (td_last_event ?st)" "str_ok 101 (td_last_id ?st)" "str_ok 85 (td_last_data ?st)"
    using w by (simp_all add: td_ok_def)
  obtain e' where e': "copy_trunc (td_last_event ?st) 28 (msg_event m) (length ev) = Some e'" "str_ok 28 e'"
    using copy_trunc_ok [OF _ st(1) c_str_length [OF ev]] by (auto simp: returns_iff)
  obtain i' where i': "copy_trunc (td_last_id ?st) 101 (msg_last_event_id m) (length i) = Some i'" "str_ok 101 i'"
    using copy_trunc_ok [OF _ st(2) c_str_length [OF i]] by (auto simp: returns_iff)
  obtain d where d: "summarize_data b (td_last_data ?st) (msg_data m) (msg_data_len m) = Some d" "str_ok 85 d"
    using message_wfD [OF m] by (auto intro: returnsE [OF summarize_ok [OF st(3)]])
  obtain d' where d': "c_str d = Some d'" using d(2) by (simp add: str_ok_def c_str_Some)
  let ?w = "with_st (\<lambda>st. st\<lparr>td_events := td_events st + 1, td_last_event := e', td_last_id := i', td_last_data := d\<rparr>) w"
  let ?v = "logged b (LogTdMessage ev (of_nat (msg_data_len m)) d') ?w"
  have v: "td_ok ?v" using w e'(2) i'(2) d(2) by (simp add: logged_def td_ok_def with_st_def)
  obtain now p where p: "tb_now b (td_hw ?v) = (now, p)" by (cases "tb_now b (td_hw ?v)")
  obtain now' p' where p': "tb_now b p = (now', p')" by (cases "tb_now b p")
  have "returns (render b (with_st (\<lambda>st. st\<lparr>td_last_render_ms := now'\<rparr>) (?v\<lparr>td_hw := p'\<rparr>))) td_ok"
    using render_ok [of "with_st (\<lambda>st. st\<lparr>td_last_render_ms := now'\<rparr>) (?v\<lparr>td_hw := p'\<rparr>)" b] v
    by (auto simp: td_ok_upd elim!: returns_mono)
  then show ?thesis using ev i e'(1) i'(1) d(1) d' p p' v
    by (simp add: td_on_message_def td_ok_upd Let_def)
qed

text \<open>The callbacks of the T-Display example stay within their arrays and the framebuffer and keep every status string terminated, for every message and error the client reports, and every answer of the JSON library, timer and heap counter.\<close>

theorem td_callbacks_safe:
  assumes "td_ok w" and "message_wf m"
  shows "(\<exists>w'. td_on_open b w n = Some w' \<and> td_ok w') \<and> (\<exists>w'. td_on_message b w m = Some w' \<and> td_ok w') \<and>
    (\<exists>w'. td_on_error b w e = Some w' \<and> td_ok w') \<and> (\<exists>w'. td_on_closed b w = Some w' \<and> td_ok w')"
  using td_on_open_ok [OF assms(1), of b n] td_on_message_ok [OF assms, of b] td_on_error_ok [OF assms(1), of b e]
    td_on_closed_ok [OF assms(1), of b]
  by (simp add: returns_iff)

definition demo_board :: "unit td_board" where
  "demo_board = \<lparr>tb_now = (\<lambda>p. (1000, p)), tb_heap = (\<lambda>p. (50000, p)), tb_flush = (\<lambda>fb p. p), tb_log = (\<lambda>l p. p),
     tb_json = (\<lambda>s. None)\<rparr>"

theorem td_callbacks_safe_witness:
  "\<exists>w'. td_on_message demo_board \<lparr>td_st = blank_status, td_fb = replicate 32400 0, td_hw = ()\<rparr>
     \<lparr>msg_event = bytes_of ''message'' @ [0], msg_data = [104, 105, 0], msg_data_len = 2, msg_last_event_id = [55, 0]\<rparr> = Some w' \<and>
     td_ok w'"
proof -
  have "td_ok \<lparr>td_st = blank_status, td_fb = replicate 32400 0, td_hw = ()\<rparr>"
    by (simp add: td_ok_def blank_status_def str_ok_def fb_ok_def DISP_W_def DISP_H_def)
  moreover have "message_wf \<lparr>msg_event = bytes_of ''message'' @ [0], msg_data = [104, 105, 0], msg_data_len = 2,
      msg_last_event_id = [55, 0]\<rparr>"
    by code_simp
  ultimately show ?thesis using td_callbacks_safe by blast
qed

section \<open>A misleading status line\<close>

text \<open>
  The client reports an event type it cannot store as an informational error: the stream
  goes on. The example treats only oversized messages as informational, so it shows a
  retry that does not happen, in place of the connection's status.
\<close>

definition event_type_error :: sse_error where
  "event_type_error = \<lparr>err_reason = SSE_ERR_EVENT_TYPE_INVALID, err_http_status = 0, err_will_retry = True, err_retry_in_ms = 0\<rparr>"

theorem event_type_error_shows_retry:
  assumes "td_ok w"
  shows "\<exists>w'. td_on_error b w event_type_error = Some w' \<and>
    c_str (td_sse (td_st w')) = Some (bytes_of ''sse: retry in 0ms (r6)'')"
proof -
  let ?t = "bytes_of ''sse: retry in 0ms (r6)''"
  have digits: "dec_nat 6 = bytes_of ''6''" "dec_nat 0 = bytes_of ''0''"
    by (subst dec_nat.simps, simp add: bytes_of_def)+
  have shown: "bytes_of ''sse: retry in '' @ dec_u 0 @ bytes_of ''ms (r'' @ dec_nat 6 @ bytes_of '')'' = ?t"
    by (simp add: dec_u_def digits) (simp add: bytes_of_def)
  have t: "length ?t \<le> 27" "0 \<notin> set ?t" by (simp_all add: bytes_of_def)
  define m where "m = ?t @ 0 # drop (length ?t + 1) (td_sse (td_st w))"
  have sse: "length (td_sse (td_st w)) = 28" using assms by (simp add: td_ok_def str_ok_def)
  have m: "snprintf_to (td_sse (td_st w)) 28 ?t = Some m" using t(1) sse by (simp add: snprintf_to_def m_def Let_def)
  have ok: "str_ok 28 m" using t(1) sse by (simp add: m_def str_ok_def)
  let ?v = "logged b (LogTdError event_type_error) (with_st (\<lambda>st. st\<lparr>td_sse := m, td_sse_color := COL_YELLOW\<rparr>) w)"
  have v: "td_ok ?v" using td_ok_upd(1) [OF assms ok] by (simp add: logged_def td_ok_upd(3))
  obtain w' where w': "render b ?v = Some w'" "td_st w' = td_st ?v"
    using render_ok [OF v, of b] by (auto simp: returns_iff)
  have "td_sse (td_st w') = m" using w'(2) by (simp add: logged_def with_st_def)
  moreover have "c_str m = Some ?t" using t(2) by (simp add: m_def)
  moreover have "td_on_error b w event_type_error = Some w'"
    using w'(1) m shown by (simp add: td_on_error_def event_type_error_def)
  ultimately show ?thesis by simp
qed

end
