(* ===== verification/Esp_Transport_World.thy ===== *)
theory Esp_Transport_World
  imports Esp_Transport_Safety
begin

text \<open>
  The transport touches the world only through the HTTP client library: what every call of
  the library keeps, every operation of the transport keeps. A program whose world is more
  than the library's own state gets the contract of its transport from this.
\<close>

locale http_library =
  fixes api :: "'x http_api" and J :: "'x \<Rightarrow> bool"
  assumes init_keeps: "J x \<Longrightarrow> J (snd (http_init api x u))"
    and header_keeps: "J x \<Longrightarrow> J (http_set_header api x n v)"
    and open_keeps: "J x \<Longrightarrow> J (snd (snd (http_open api x)))"
    and fetch_keeps: "J x \<Longrightarrow> J (snd (snd (http_fetch_headers api x)))"
    and redirection_keeps: "J x \<Longrightarrow> J (snd (http_set_redirection api x))"
    and close_keeps: "J x \<Longrightarrow> J (http_close api x)"
    and cleanup_keeps: "J x \<Longrightarrow> J (http_cleanup api x)"
    and timeout_keeps: "J x \<Longrightarrow> J (http_set_timeout api x ms)"
    and read_keeps: "J x \<Longrightarrow> J (snd (snd (snd (snd (snd (http_read api x len))))))"
begin

lemma teardown_keeps: "J (elib w) \<Longrightarrow> J (elib (esp_teardown api w))"
  by (simp add: esp_teardown_def close_keeps cleanup_keeps)

lemma set_timeout_keeps: "J (elib w) \<Longrightarrow> J (elib (esp_set_timeout api ms w))"
  by (simp add: esp_set_timeout_def timeout_keeps)

lemma events_keep: "on_events evs w = Some w' \<Longrightarrow> elib w' = elib w"
  by (auto simp: on_events_def split: bind_splits)

lemma send_header_keeps: "J x \<Longrightarrow> J (send_header api h x)"
  by (simp add: send_header_def header_keeps split: option.split)

lemma send_headers_keeps: "send_headers api hs x = Some x' \<Longrightarrow> J x \<Longrightarrow> J x'"
proof (induction hs arbitrary: x)
  case (Cons h hs)
  then show ?case using send_header_keeps by (cases h) auto
qed simp

lemma request_keeps:
  assumes "esp_request api w = Some (st, w')" and "J (elib w)"
  shows "J (elib w')"
proof -
  obtain r evs x where o: "http_open api (elib w) = (r, evs, x)" by (metis prod_cases3)
  obtain u where u: "on_events evs (w\<lparr>elib := x\<rparr>) = Some u" "elib u = x"
    using assms(1) events_keep [of evs "w\<lparr>elib := x\<rparr>"] by (auto simp: esp_request_def o split: bind_splits)
  have x: "J x" using open_keeps [OF assms(2)] o by simp
  obtain q es y where f: "http_fetch_headers api x = (q, es, y)" by (metis prod_cases3)
  have y: "J y" using fetch_keeps [OF x] f by simp
  have "J (elib (esp_teardown api v))" "J (elib v)" if "on_events es (u\<lparr>elib := y\<rparr>) = Some v" for v
    using events_keep [OF that] y teardown_keeps [of v] by simp_all
  then show ?thesis using assms(1) u x f teardown_keeps [of u]
    by (auto simp: esp_request_def o split: bind_splits if_splits)
qed

lemma follow_keeps:
  assumes "esp_follow api w = Some (go, w')" and "J (elib w)"
  shows "J (elib w')"
proof -
  have "J (snd (http_set_redirection api (elib w)))" by (rule redirection_keeps [OF assms(2)])
  then show ?thesis using assms
    by (auto simp: esp_follow_def close_keeps Let_def split_beta split: bind_splits option.splits if_splits)
qed

lemma hops_keep: "esp_hops a hop w = Some (st, w') \<Longrightarrow> a = api \<Longrightarrow> J (elib w) \<Longrightarrow> J (elib w')"
proof (induction a hop w rule: esp_hops.induct)
  case (1 a hop w)
  obtain s u where req: "esp_request api w = Some (s, u)"
    using 1(2,3) by (subst (asm) esp_hops.simps) (auto split: bind_splits)
  have u: "J (elib u)" by (rule request_keeps [OF req 1(4)])
  show ?case
  proof (cases "\<exists>q. s = Some q \<and> is_redirect q \<and> hop < ESP_MAX_REDIRECT_HOPS")
    case False
    then show ?thesis using 1(2,3) req u by (subst (asm) esp_hops.simps) (auto split: option.splits if_splits)
  next
    case True
    then obtain q where q: "s = Some q" "is_redirect q" "hop < ESP_MAX_REDIRECT_HOPS" by blast
    obtain go v where f: "esp_follow api u = Some (go, v)"
      using 1(2,3) req q by (subst (asm) esp_hops.simps) (auto split: bind_splits)
    note v = follow_keeps [OF f u]
    show ?thesis
    proof (cases go)
      case False
      then show ?thesis using 1(2,3) req q f v by (subst (asm) esp_hops.simps) simp
    next
      case True
      have "esp_hops api (hop + 1) v = Some (st, w')"
        using 1(2,3) req q f True by (subst (asm) esp_hops.simps) simp
      with 1(3) req q f True v show ?thesis by (intro 1(1) [of "(s, u)" s u q "(go, v)" go v]) auto
    qed
  qed
qed

lemma open_fn_keeps:
  assumes "esp_open_fn api w req i = Some (r, i', w')" and "J (elib w)"
  shows "J (elib w')"
proof -
  let ?w = "esp_teardown api w"
  obtain ok x where o: "http_init api (elib ?w) (req_url req) = (ok, x)" by (cases "http_init api (elib ?w) (req_url req)")
  have x: "J x" using init_keeps [OF teardown_keeps [OF assms(2)]] o by (metis snd_conv)
  show ?thesis
    using assms(1) x o send_headers_keeps [OF _ x] hops_keep [OF _ refl]
    by (auto simp: esp_open_fn_def Let_def split: bind_splits option.splits if_splits)
qed

lemma read_fn_keeps:
  assumes "esp_read_fn api w m len ms = Some (r, m', st, w')" and "J (elib w)"
  shows "J (elib w')"
proof -
  let ?w = "esp_set_timeout api ms w"
  obtain q d e evs b x where rd: "http_read api (elib ?w) (min len INT_MAX) = (q, d, e, evs, b, x)" by (metis prod_cases6)
  have "J x" using read_keeps [OF set_timeout_keeps [OF assms(2)], of ms "min len INT_MAX"] rd by simp
  then show ?thesis using assms rd
    by (auto simp: esp_read_fn_def Let_def split: bind_splits if_splits dest!: events_keep)
qed

lemma close_fn_keeps: "esp_close_fn api w = Some w' \<Longrightarrow> J (elib w) \<Longrightarrow> J (elib w')"
  by (auto simp: esp_close_fn_def teardown_keeps)

lemma transport_contract: "sse_transport_contract (sse_transport_esp api) (\<lambda>b w. esp_T b w \<and> J (elib w))"
proof
  fix f w i and req :: sse_request and xs :: "bytes list"
  assume "tr_open (sse_transport_esp api) = Some f" "esp_T False w \<and> J (elib w)" "info_wf i" "null_terminated (req_headers req) xs"
  then show "returns (f w req i) (\<lambda>(r, i', w'). (esp_T (r = 0) w' \<and> J (elib w')) \<and> info_wf i')"
    using open_fn_keeps [of w req i]
    by (auto simp: sse_transport_esp_def split: prod.splits intro: returns_strengthen [OF esp_open_ok])
next
  fix g w len tmo and m :: bytes
  assume "tr_read (sse_transport_esp api) = Some g" "esp_T True w \<and> J (elib w)" "len \<le> length m"
  then show "returns (g w m len tmo) (\<lambda>(r, m', stopped, w'). (esp_T True w' \<and> J (elib w')) \<and> length m' = length m)"
    using read_fn_keeps [of w m len tmo]
    by (auto simp: sse_transport_esp_def intro: returns_strengthen [OF esp_read_ok])
next
  fix h w
  assume "tr_close (sse_transport_esp api) = Some h" "esp_T True w \<and> J (elib w)"
  then show "returns (h w) (\<lambda>w'. esp_T False w' \<and> J (elib w'))"
    using close_fn_keeps [of w] by (auto simp: sse_transport_esp_def intro: returns_strengthen [OF esp_close_ok])
qed

end

end
