(* ===== verification/Tdisplay_App_Properties.thy ===== *)
theory Tdisplay_App_Properties
  imports Tdisplay_App Tdisplay_Properties Esp_Boot_Properties Esp_Transport_World
begin

text \<open>
  The T-Display program from power-on: the client and the display share one world, the
  transport leaves the display alone and the callbacks leave the transport alone, so the
  program keeps running and its display stays sound.
\<close>

section \<open>The contract of the transport\<close>

definition tw_ok :: "'p td_world \<Rightarrow> bool" where
  "tw_ok y \<longleftrightarrow> td_ok (tw_sys y) \<and> \<not> tw_undefined y"

definition td_T :: "bool \<Rightarrow> 'p td_world esp_sys \<Rightarrow> bool" where
  "td_T b w \<longleftrightarrow> esp_T b w \<and> tw_ok (elib w)"

lemma tw_ok_put [simp]: "tw_ok (put_tw p y) = tw_ok y"
  by (simp add: tw_ok_def put_tw_def td_ok_def)

lemma tw_ok_on_part [simp]: "tw_ok (snd (on_part tw_hw put_tw f y)) = tw_ok y"
  by (simp add: on_part_def split_beta)

interpretation td_library: http_library "td_http ch" tw_ok for ch
  by unfold_locales (simp_all add: td_http_def lift_http_def [of tw_hw put_tw] split_beta)

interpretation td_transport: sse_transport_contract "sse_transport_esp (td_http ch)" td_T for ch
  using td_library.transport_contract [of ch] by (simp add: td_T_def [abs_def])

section \<open>The contract of the callbacks\<close>

lemma td_callback_ok:
  assumes "\<And>s. td_ok s \<Longrightarrow> returns (f x s) td_ok"
  shows "callback_at td_T (Some (\<lambda>w x. td_callback (f x) w)) x"
proof -
  have "script_ok td_T b (td_callback (f x) w)" if w: "td_T b w" for b w
  proof -
    obtain s where "f x (tw_sys (elib w)) = Some s" "td_ok s"
      using assms [of "tw_sys (elib w)"] w by (auto simp: returns_iff td_T_def tw_ok_def)
    then show ?thesis using w by (simp add: td_callback_def td_T_def tw_ok_def esp_T_def)
  qed
  then show ?thesis by (simp add: callback_at_def)
qed

lemma td_config_env:
  assumes "2 \<le> d" "2 \<le> n" "n \<le> SSE_CLIENT_ID_MAX + 1" "2 \<le> e" "0 < r"
  shows "client_env (sse_transport_esp (td_http ch)) td_T (td_config_with d n e r i ch u)"
proof
  let ?g = "td_config_with d n e r i ch u"
  have cb: "callbacks_ok td_T ?g"
    unfolding callbacks_ok_def callback_ok_def
  proof (intro conjI allI impI)
    show "callback_at td_T (on_open (callbacks ?g)) x" for x
      by (simp add: td_config_with_def Let_def) (rule td_callback_ok, rule td_on_open_ok)
    show "callback_at td_T (on_message (callbacks ?g)) m" if "message_wf m" for m
      using that by (simp add: td_config_with_def Let_def) (rule td_callback_ok, rule td_on_message_ok, assumption+)
    show "callback_at td_T (on_error (callbacks ?g)) x" for x
      by (simp add: td_config_with_def Let_def) (rule td_callback_ok, rule td_on_error_ok)
    show "callback_at td_T (on_closed (callbacks ?g)) x" for x
      by (simp add: td_config_with_def Let_def) (rule td_callback_ok, rule td_on_closed_ok)
    show "callback_at td_T (reconnect_policy ?g) x" for x
      by (simp add: td_config_with_def Let_def callback_at_def)
  qed
  show "callbacks_ok td_T ?g" by (rule cb)
  show "td_T b (snd (f w))" if "now_ms ?g = Some f" "td_T b w" for f b w
    using that by (auto simp: td_config_with_def Let_def td_clock_def td_T_def esp_T_def split_beta)
qed (use assms in \<open>auto simp: td_config_with_def Let_def client_config_valid_def sse_transport_esp_def
      SSE_CLIENT_MAX_HEADERS_def memory_ok_def buffers_ok_def\<close>)

interpretation td_program: client_env "sse_transport_esp (td_http ch)" td_T "td_config i ch u" for i ch u
  unfolding td_config_def by (rule td_config_env) (simp_all add: SSE_CLIENT_ID_MAX_def)

section \<open>The start\<close>

text \<open>\<open>goes_on b P out\<close>: a real error code, which is possible only without \<open>b\<close>, or a state with \<open>P\<close>.\<close>

definition goes_on :: "bool \<Rightarrow> ('a \<Rightarrow> bool) \<Rightarrow> (i32 \<times> 's) + 'a \<Rightarrow> bool" where
  "goes_on b P out = (case out of Inl (r, _) \<Rightarrow> r \<noteq> ESP_OK \<and> \<not> b | Inr x \<Rightarrow> P x)"

lemma goes_on_simps [simp]: "goes_on b P (Inl (r, s)) = (r \<noteq> ESP_OK \<and> \<not> b)" "goes_on b P (Inr x) = P x"
  by (simp_all add: goes_on_def)

lemma returns_and_then:
  assumes "returns m (goes_on b P)" and "\<And>x. P x \<Longrightarrow> returns (f x) (goes_on b Q)"
  shows "returns (and_then m f) (goes_on b Q)"
proof -
  obtain out where "m = Some out" "goes_on b P out" using assms(1) by (auto simp: returns_iff)
  then show ?thesis using assms(2) by (cases out) auto
qed

lemma run_on_board_ok:
  assumes "td_ok w"
  shows "returns (run_on_board i cs w) (goes_on (reliable i) (\<lambda>w'. td_ok w' \<and> connected (td_hw w') = connected (td_hw w)))"
proof (cases "run_steps i cs (td_hw w)")
  case (Inl e)
  obtain r s where e: "e = (r, s)" by (cases e)
  show ?thesis using abort_calls(3) [OF Inl [unfolded e]] reliable_runs [OF Inl] Inl e by (simp add: run_on_board_def on_board_def)
next
  case (Inr s)
  show ?thesis using run_steps_done [OF Inr] Inr assms
    by (simp add: run_on_board_def on_board_def connected_def td_ok_def)
qed

lemma display_init_ok:
  assumes "td_ok w"
  shows "returns (display_init i w) (goes_on (reliable i) td_ok)"
  unfolding display_init_def
proof (rule returns_and_then [OF run_on_board_ok [OF assms]])
  fix x :: "'a boot td_sys"
  assume "td_ok x \<and> connected (td_hw x) = connected (td_hw w)"
  then have "td_ok (x\<lparr>td_fb := display_clear (td_fb x)\<rparr>)" by (simp add: td_ok_def fb_ok_def display_clear_def)
  from run_on_board_ok [OF this] show "returns (display_flush i (x\<lparr>td_fb := display_clear (td_fb x)\<rparr>)) (goes_on (reliable i) td_ok)"
    unfolding display_flush_def by (rule returns_mono) (auto simp: goes_on_def split: sum.splits)
qed

lemma joining_status_ok: "td_ok w \<Longrightarrow> returns (joining_status ssid (td_st w)) (\<lambda>st. td_ok (w\<lparr>td_st := st\<rparr>))"
  by (auto simp: joining_status_def td_ok_def str_ok_def)

lemma joined_status_ok: "td_ok w \<Longrightarrow> returns (joined_status ssid (td_st w)) (\<lambda>st. td_ok (w\<lparr>td_st := st\<rparr>))"
  by (auto simp: joined_status_def td_ok_def str_ok_def)

lemma connected_on_part: "connected (snd (on_part bt_hw put_hw f s)) = connected s"
  by (rule boot_hw_simps)

lemma render_frame_hw: "render_frame b w = Some (fb, p) \<Longrightarrow> p = snd (tb_heap b (td_hw w))"
  by (auto simp: render_frame_def Let_def split_beta split: bind_splits)

lemma show_status_ok:
  assumes "td_ok w" and "returns (f (td_st w)) (\<lambda>st. td_ok (w\<lparr>td_st := st\<rparr>))"
  shows "returns (show_status i ch f w) (goes_on (reliable i) (\<lambda>w'. td_ok w' \<and> connected (td_hw w') = connected (td_hw w)))"
proof -
  obtain st where st: "f (td_st w) = Some st" "td_ok (w\<lparr>td_st := st\<rparr>)" using assms(2) by (auto simp: returns_iff)
  let ?w = "w\<lparr>td_st := st\<rparr>"
  obtain fb p where fb: "render_frame (td_board_of i ch) ?w = Some (fb, p)" "fb_ok fb"
    using render_frame_ok [OF st(2), of "td_board_of i ch"] by (auto simp: returns_iff)
  let ?v = "w\<lparr>td_st := st, td_fb := fb, td_hw := p\<rparr>"
  have "connected p = connected (td_hw w)"
    using render_frame_hw [OF fb(1)] by (simp add: td_board_of_def connected_on_part)
  moreover have "td_ok ?v" using st(2) fb(2) by (simp add: td_ok_def)
  ultimately show ?thesis using run_on_board_ok [of ?v i "[Check (panel_draw (td_fb ?v))]"] st(1) fb(1)
    by (simp add: show_status_def display_flush_def)
qed

lemma join_ok:
  assumes "td_wifi_connect_blocking i n k ssid password (td_hw w) = Some out" and "td_ok w" and "0 < n" "0 < k"
  shows "returns (on_board (td_wifi_connect_blocking i n k ssid password) w) (goes_on (reliable i) (\<lambda>w'. td_ok w' \<and> connected (td_hw w')))"
  using wifi_join_cases [OF assms(3,4) assms(1) [unfolded td_wifi_connect_blocking_def]] assms(1,2)
  by (auto simp: on_board_def td_ok_def split: sum.splits)

definition td_started :: "'x idf \<Rightarrow> 'x chip \<Rightarrow> bytes \<Rightarrow> 'x boot td_world esp_sys sys \<Rightarrow> bool" where
  "td_started i ch u st \<longleftrightarrow> settled td_T (td_config i ch u) st \<and> state (cl st) = SSE_STATE_IDLE \<and> connected (tw_hw (elib (env st)))"

lemma td_start_client_ok:
  assumes "td_ok w \<and> connected (td_hw w)"
  shows "returns (td_start_client i ch u c0 w) (goes_on (reliable i) (td_started i ch u))"
proof -
  let ?g = "td_config i ch u"
  have g: "transport ?g = Some (sse_transport_esp (td_http ch))" "now_ms ?g = Some (td_clock ch)"
    by (simp_all add: td_config_def td_config_with_def Let_def)
  obtain out where run: "start_client (tw_alloc i) (tw_create i) (idf_word i) (td_http ch) ?g c0
      \<lparr>tw_sys = w, tw_undefined = False\<rparr> = Some out"
    using start_client_total [OF g(2)] by blast
  have hw [simp]: "connected (tw_hw (snd (on_part tw_hw put_tw f y))) = connected (snd (f (tw_hw y)))" for f and y :: "'a boot td_world"
    by (simp add: on_part_def split_beta tw_hw_def put_tw_def)
  have "case out of Inl (r, y') \<Rightarrow> r = ESP_FAIL \<and> connected (tw_hw y') \<and>
        (fst (tw_alloc i \<lparr>tw_sys = w, tw_undefined = False\<rparr>) \<noteq> (True, True) \<or> (\<exists>d p z. \<not> fst (tw_create i d p z)))
    | Inr st \<Rightarrow> settled td_T ?g st \<and> state (cl st) = SSE_STATE_IDLE \<and> trace st = [] \<and> connected (tw_hw (elib (env st)))"
  proof (rule start_client_cases [OF run g(1) td_program.client_env_axioms g(2)])
    show "connected (tw_hw (elib (snd (td_clock ch w))))" if "connected (tw_hw (elib w))" for w
      using that by (simp add: td_clock_def td_now_ms_def split_beta)
  qed (use assms in \<open>auto simp: tw_alloc_def tw_create_def td_T_def tw_ok_def tw_hw_def esp_T_def
      on_part_def put_tw_def td_ok_def split_beta\<close>)
  moreover have "fst (tw_alloc i y) = (True, True)" "fst (tw_create i d p y)" if "reliable i" for d p and y :: "'a boot td_world"
    using that by (simp_all add: tw_alloc_def tw_create_def boot_alloc_def boot_create_def on_part_def reliable_def split_beta)
  ultimately show ?thesis using run
    by (auto simp: td_start_client_def goes_on_def td_started_def ESP_FAIL_def ESP_OK_def split: sum.splits)
qed

lemma td_app_main_ok:
  assumes w: "td_ok w" and sizes: "0 < n" "0 < k"
    and joins: "\<And>v. \<exists>out. td_wifi_connect_blocking i n k ssid password v = Some out"
  shows "returns (td_app_main i ch n k ssid password u c0 w) (goes_on (reliable i) (td_started i ch u))"
proof -
  have joined: "returns (and_then (show_status i ch (joined_status ssid) x) (td_start_client i ch u c0)) (goes_on (reliable i) (td_started i ch u))"
    if "td_ok x \<and> connected (td_hw x)" for x
    using that
    by (intro returns_and_then [OF show_status_ok [where f = "joined_status ssid"]] td_start_client_ok joined_status_ok) auto
  have joining: "returns (and_then (on_board (td_wifi_connect_blocking i n k ssid password) x) (\<lambda>w.
      and_then (show_status i ch (joined_status ssid) w) (td_start_client i ch u c0))) (goes_on (reliable i) (td_started i ch u))"
    if x: "td_ok x" for x
  proof -
    obtain out where "td_wifi_connect_blocking i n k ssid password (td_hw x) = Some out" using joins by blast
    from join_ok [OF this x sizes] joined show ?thesis by (rule returns_and_then)
  qed
  have shown: "returns (and_then (show_status i ch (joining_status ssid) x) (\<lambda>w.
      and_then (on_board (td_wifi_connect_blocking i n k ssid password) w) (\<lambda>w.
      and_then (show_status i ch (joined_status ssid) w) (td_start_client i ch u c0)))) (goes_on (reliable i) (td_started i ch u))"
    if x: "td_ok x" for x
    by (rule returns_and_then [OF show_status_ok [where f = "joining_status ssid", OF x joining_status_ok [OF x]]])
      (use joining in blast)
  show ?thesis unfolding td_app_main_def
    by (rule returns_and_then [OF run_on_board_ok [OF w]], rule returns_and_then [OF display_init_ok])
      (use shown in blast)+
qed

text \<open>The T-Display program starts up safely: from zeroed statics, and provided joining the network ends, \<open>app_main\<close> runs without undefined behaviour and either aborts with a real error code, which it does not on a board where nothing fails, or hands its task an IDLE client, with an address and with a display whose strings and framebuffer are sound.\<close>

theorem tdisplay_boots:
  assumes "td_ok w" and "0 < n" "0 < k" and "\<And>v. \<exists>out. td_wifi_connect_blocking i n k ssid password v = Some out"
  shows "\<exists>out. td_app_main i ch n k ssid password u c0 w = Some out \<and> (case out of
      Inl (r, _) \<Rightarrow> r \<noteq> ESP_OK \<and> \<not> reliable i
    | Inr st \<Rightarrow> settled td_T (td_config i ch u) st \<and> state (cl st) = SSE_STATE_IDLE \<and> connected (tw_hw (elib (env st))) \<and>
        tw_ok (elib (env st)))"
proof -
  obtain out where out: "td_app_main i ch n k ssid password u c0 w = Some out" "goes_on (reliable i) (td_started i ch u) out"
    using td_app_main_ok [OF assms, of ch u c0] by (auto simp: returns_iff)
  have "tw_ok (elib (env st))" if "td_started i ch u st" for st
    using that by (simp add: td_started_def settled_def client_inv_def td_T_def)
  then show ?thesis using out by (cases out) (auto simp: td_started_def)
qed

text \<open>A board in range of its network, and its statics.\<close>

definition near_idf :: "nat idf" where
  "near_idf = demo_idf\<lparr>idf_event := (\<lambda>x. (IP_EVENT_STA_GOT_IP, x))\<rparr>"

lemma near_reliable: "reliable near_idf"
  by (simp add: reliable_def near_idf_def demo_idf_def)

lemma near_joins:
  assumes "0 < n" "0 < k"
  shows "\<exists>out. td_wifi_connect_blocking near_idf n k ssid password v = Some out"
proof -
  have g: "idf_group near_idf (bt_hw v) = (True, bt_hw v)" by (simp add: near_idf_def demo_idf_def)
  show ?thesis
  proof (cases "run_steps near_idf (joining n k ssid password) (v\<lparr>bt_hw := bt_hw v, wifi_events := Some 0\<rparr>)")
    case (Inl e)
    then show ?thesis using reliable_runs near_reliable by blast
  next
    case (Inr s)
    have "unconnected s" using run_steps_done [OF Inr] by (simp add: unconnected_def)
    moreover have "got_ip_after near_idf s []" by (simp add: got_ip_after_def near_idf_def split: option.split)
    ultimately obtain t where "wait_bits near_idf s = Some t" using wait_returns by blast
    then show ?thesis using Inr wifi_join_run [OF assms g] by (simp add: td_wifi_connect_blocking_def)
  qed
qed

definition near_chip :: "nat chip" where
  "near_chip = \<lparr>ch_http = loop_api, ch_time = \<lambda>x. (5000, x), ch_heap = \<lambda>x. (50000, x), ch_log = \<lambda>l x. x, ch_json = \<lambda>s. None\<rparr>"

definition td_zero :: "nat boot td_sys" where
  "td_zero = \<lparr>td_st = blank_status, td_fb = replicate 32400 0, td_hw = off\<rparr>"

lemma td_zero_ok: "td_ok td_zero"
  by (simp add: td_zero_def td_ok_def blank_status_def str_ok_def fb_ok_def DISP_W_def DISP_H_def)

theorem tdisplay_boots_witness:
  "\<forall>c0. \<exists>st. td_app_main near_idf near_chip 32 64 (bytes_of ''net'') (bytes_of ''pw'') (bytes_of ''http://h/'') c0 td_zero = Some (Inr st) \<and>
     state (cl st) = SSE_STATE_IDLE"
proof
  fix c0
  have joins: "\<exists>out. td_wifi_connect_blocking near_idf 32 64 (bytes_of ''net'') (bytes_of ''pw'') v = Some out" for v
    by (rule near_joins) simp_all
  from tdisplay_boots [OF td_zero_ok _ _ joins, of near_chip "bytes_of ''http://h/''" c0] obtain out where out:
    "td_app_main near_idf near_chip 32 64 (bytes_of ''net'') (bytes_of ''pw'') (bytes_of ''http://h/'') c0 td_zero = Some out"
    "case out of Inl (r, _) \<Rightarrow> \<not> reliable near_idf | Inr st \<Rightarrow> state (cl st) = SSE_STATE_IDLE"
    by (fastforce split: sum.splits)
  then show "\<exists>st. td_app_main near_idf near_chip 32 64 (bytes_of ''net'') (bytes_of ''pw'') (bytes_of ''http://h/'') c0 td_zero = Some (Inr st) \<and>
      state (cl st) = SSE_STATE_IDLE"
    using near_reliable by (cases out) auto
qed

section \<open>The program afterwards\<close>




end
