(* ===== verification/Tdisplay_Status.thy ===== *)
theory Tdisplay_Status
  imports Tdisplay_App_Properties Sse_Client_History
begin

text \<open>
  What the T-Display shows, in terms of the bytes the client received: the counters count the
  events, the oversized events and the reconnects, and the last event's type and id are on
  display, shortened to their fields.
\<close>

section \<open>The status a history calls for\<close>

text \<open>The events among the notices, with type and id.\<close>

fun events_of :: "notice list \<Rightarrow> (bytes \<times> bytes) list" where
  "events_of [] = []"
| "events_of (NMessage ty d i # ns) = (ty, i) # events_of ns"
| "events_of (NError r # ns) = events_of ns"

lemma events_of_append: "events_of (xs @ ys) = events_of xs @ events_of ys"
  by (induction xs rule: events_of.induct) simp_all

definition dropped_of :: "notice list \<Rightarrow> nat" where
  "dropped_of ns = length (filter (\<lambda>n. n = NError SSE_ERR_MESSAGE_TOO_LARGE) ns)"

definition opens_of :: "obs list \<Rightarrow> nat" where
  "opens_of tr = length (filter (\<lambda>ob. case ob of CbOpen n \<Rightarrow> True | _ \<Rightarrow> False) tr)"

definition counts :: "notice list \<Rightarrow> td_status \<Rightarrow> bool" where
  "counts ns st \<longleftrightarrow> td_events st = of_nat (length (events_of ns)) \<and> td_dropped st = of_nat (dropped_of ns) \<and>
     (events_of ns \<noteq> [] \<longrightarrow> c_str (td_last_event st) = Some (take 27 (fst (last (events_of ns)))) \<and>
        c_str (td_last_id st) = Some (take 100 (snd (last (events_of ns)))))"

definition reconnects :: "nat \<Rightarrow> td_status \<Rightarrow> bool" where
  "reconnects n st \<longleftrightarrow> td_first_open st = (n = 0) \<and> td_reconnects st = of_nat (n - 1)"

definition status_for :: "obs list \<Rightarrow> td_status \<Rightarrow> bool" where
  "status_for tr st \<longleftrightarrow> counts (delivered tr) st \<and> reconnects (opens_of tr) st"

lemma of_snoc [simp]:
  "dropped_of (xs @ [n]) = dropped_of xs + (if n = NError SSE_ERR_MESSAGE_TOO_LARGE then 1 else 0)"
  "dropped_of [] = 0" "opens_of [] = 0" "opens_of (tr @ [CbOpen k]) = opens_of tr + 1"
  by (simp_all add: dropped_of_def opens_of_def)

section \<open>The callbacks\<close>

lemma render_status: "render b w = Some w' \<Longrightarrow> td_st w' = td_st w"
  by (auto simp: render_def split_beta split: bind_splits)

lemma logged_status [simp]: "td_st (logged b l w) = td_st w" "td_st (with_st f w) = f (td_st w)"
  by (simp_all add: logged_def with_st_def)

lemma copy_trunc_str:
  assumes "c_str src = Some s" and "copy_trunc dst cap src (length s) = Some m" and "0 < cap"
  shows "c_str m = Some (take (cap - 1) s)"
proof -
  let ?n = "if length s < cap - 1 then length s else cap - 1"
  have s: "s = takeWhile (\<lambda>b. b \<noteq> 0) src" using assms(1) by (auto simp: c_str_def split: if_splits)
  obtain m0 where m0: "memcpy dst src ?n = Some m0" "buf_write m0 ?n 0 = Some m"
    using assms(2) by (auto simp: copy_trunc_def Let_def split: bind_splits)
  then have n: "?n \<le> length dst" "m0 = take ?n src @ drop ?n dst" "?n < length m0" "m = m0[?n := 0]"
    by (auto simp: memcpy_def buf_write_def split: if_splits)
  have len: "length s \<le> length src" by (simp add: s length_takeWhile_le)
  have "s = take (length s) src" unfolding s by (rule takeWhile_eq_take)
  from arg_cong [OF this, of "take ?n"] have "take ?n src = take ?n s" by (simp add: min_absorb1)
  moreover have "?n \<le> length s" by simp
  ultimately have "m = take ?n s @ 0 # drop (?n + 1) dst"
    using n len by (simp add: list_update_append upd_conv_take_nth_drop)
  moreover have "\<forall>b \<in> set (take ?n s). b \<noteq> 0" by (auto simp: s dest!: in_set_takeD set_takeWhileD)
  ultimately have "c_str m = Some (take ?n s)" by (simp add: c_str_def takeWhile_append2)
  then show ?thesis by (auto simp: min_def take_all)
qed

lemma open_shows:
  assumes "td_on_open b w k = Some w'" and "status_for tr (td_st w)"
  shows "status_for (tr @ [CbOpen k]) (td_st w')"
proof -
  let ?w = "if td_first_open (td_st w) then w else with_st (\<lambda>st. st\<lparr>td_reconnects := td_reconnects st + 1\<rparr>) w"
  obtain m v where m: "render b v = Some w'" "td_st v = (td_st ?w)\<lparr>td_first_open := False, td_sse := m, td_sse_color := COL_GREEN\<rparr>"
    using assms(1) by (auto simp: td_on_open_def Let_def split: bind_splits)
  have r: "reconnects (opens_of tr + 1) (td_st w')"
    using assms(2) render_status [OF m(1)] m(2)
    by (cases "opens_of tr") (auto simp: status_for_def reconnects_def)
  moreover have "counts (delivered tr) (td_st w')"
    using assms(2) render_status [OF m(1)] m(2) by (auto simp: status_for_def counts_def)
  ultimately show ?thesis by (simp add: status_for_def)
qed

lemma message_shows:
  assumes "td_on_message b w m = Some w'" and "status_for tr (td_st w)"
  shows "status_for (tr @ [CbMessage m]) (td_st w')"
proof -
  let ?st = "td_st w"
  obtain ev e i' i where run: "c_str (msg_event m) = Some ev" "copy_trunc (td_last_event ?st) 28 (msg_event m) (length ev) = Some e"
      "c_str (msg_last_event_id m) = Some i'" "copy_trunc (td_last_id ?st) 101 (msg_last_event_id m) (length i') = Some i"
    and st: "td_events (td_st w') = td_events ?st + 1" "td_last_event (td_st w') = e" "td_last_id (td_st w') = i"
      "td_dropped (td_st w') = td_dropped ?st" "td_first_open (td_st w') = td_first_open ?st"
      "td_reconnects (td_st w') = td_reconnects ?st"
    using assms(1) by (auto simp: td_on_message_def Let_def split_beta split: bind_splits if_splits dest!: render_status)
  have "c_string (msg_event m) = ev" "c_string (msg_last_event_id m) = i'"
    using run(1,3) by (simp_all add: c_string_c_str)
  moreover have "c_str e = Some (take 27 ev)" "c_str i = Some (take 100 i')"
    using copy_trunc_str [OF run(1,2)] copy_trunc_str [OF run(3,4)] by simp_all
  moreover have "opens_of (tr @ [CbMessage m]) = opens_of tr" by (simp add: opens_of_def)
  ultimately show ?thesis using st assms(2)
    by (auto simp: status_for_def counts_def reconnects_def events_of_append)
qed

lemma error_shows:
  assumes "td_on_error b w e = Some w'" and "status_for tr (td_st w)"
  shows "status_for (tr @ [CbError e]) (td_st w')"
proof (cases "err_reason e = SSE_ERR_MESSAGE_TOO_LARGE")
  case True
  then have "td_st w' = (td_st w)\<lparr>td_dropped := td_dropped (td_st w) + 1\<rparr>"
    using assms(1) by (auto simp: td_on_error_def Let_def)
  then show ?thesis using True assms(2)
    by (simp add: status_for_def counts_def reconnects_def events_of_append opens_of_def)
next
  case False
  then obtain m v c where "render b v = Some w'" "td_st v = (td_st w)\<lparr>td_sse := m, td_sse_color := c\<rparr>"
    using assms(1) by (auto simp: td_on_error_def Let_def split: bind_splits)
  then have "\<exists>m c. td_st w' = (td_st w)\<lparr>td_sse := m, td_sse_color := c\<rparr>" using render_status by metis
  then show ?thesis using False assms(2)
    by (auto simp: status_for_def counts_def reconnects_def events_of_append opens_of_def)
qed

lemma closed_shows:
  assumes "td_on_closed b w = Some w'" and "status_for tr (td_st w)"
  shows "status_for (tr @ [CbClosed]) (td_st w')"
proof -
  obtain m v where "render b v = Some w'" "td_st v = (td_st w)\<lparr>td_sse := m, td_sse_color := COL_RED\<rparr>"
    using assms(1) by (auto simp: td_on_closed_def split: bind_splits)
  then have "\<exists>m. td_st w' = (td_st w)\<lparr>td_sse := m, td_sse_color := COL_RED\<rparr>" using render_status by metis
  then show ?thesis using assms(2)
    by (auto simp: status_for_def counts_def reconnects_def opens_of_def)
qed

text \<open>Each callback returns, with the status of the longer history.\<close>

lemma td_shown:
  "td_ok s \<Longrightarrow> status_for tr (td_st s) \<Longrightarrow> \<exists>s'. td_on_open b s k = Some s' \<and> td_ok s' \<and> status_for (tr @ [CbOpen k]) (td_st s')"
  "td_ok s \<Longrightarrow> message_wf m \<Longrightarrow> status_for tr (td_st s) \<Longrightarrow>
     \<exists>s'. td_on_message b s m = Some s' \<and> td_ok s' \<and> status_for (tr @ [CbMessage m]) (td_st s')"
  "td_ok s \<Longrightarrow> status_for tr (td_st s) \<Longrightarrow> \<exists>s'. td_on_error b s e = Some s' \<and> td_ok s' \<and> status_for (tr @ [CbError e]) (td_st s')"
  "td_ok s \<Longrightarrow> status_for tr (td_st s) \<Longrightarrow> \<exists>s'. td_on_closed b s = Some s' \<and> td_ok s' \<and> status_for (tr @ [CbClosed]) (td_st s')"
  using td_on_open_ok [of s b k] td_on_message_ok [of s m b] td_on_error_ok [of s b e] td_on_closed_ok [of s b]
    open_shows message_shows error_shows closed_shows by (fastforce simp: returns_iff)+

section \<open>The client's history\<close>

text \<open>The face of the display is sound and shows the history, as long as that is a real one.\<close>

definition faces :: "obs list \<Rightarrow> 'p td_world esp_sys \<Rightarrow> bool" where
  "faces tr w \<longleftrightarrow> (foldM obs_step tr (False, False) \<noteq> None \<longrightarrow> tw_ok (elib w) \<and> status_for tr (td_st (tw_sys (elib w))))"

lemma history_before: "foldM obs_step (tr @ [ob]) (False, False) \<noteq> None \<Longrightarrow> foldM obs_step tr (False, False) \<noteq> None"
  by (cases "foldM obs_step tr (False, False)") (simp_all add: foldM_append)

lemma message_before: "foldM obs_step (tr @ [CbMessage m]) (False, False) \<noteq> None \<Longrightarrow> message_wf m"
  by (auto simp: foldM_append split: if_splits bind_splits)

lemma status_transport:
  "status_for tr st \<Longrightarrow> delivered [ob] = [] \<Longrightarrow> opens_of [ob] = 0 \<Longrightarrow> status_for (tr @ [ob]) st"
  by (simp add: status_for_def opens_of_def)

lemma faces_callback:
  assumes "\<And>s tr. td_ok s \<Longrightarrow> foldM obs_step (tr @ [ob x]) (False, False) \<noteq> None \<Longrightarrow> status_for tr (td_st s) \<Longrightarrow>
      \<exists>s'. f x s = Some s' \<and> td_ok s' \<and> status_for (tr @ [ob x]) (td_st s')"
  shows "script_joins faces (ob x) (td_callback (f x) w) w"
proof -
  let ?y = "elib w"
  have "faces (tr @ [ob x]) (w\<lparr>elib := (case f x (tw_sys ?y) of Some s \<Rightarrow> ?y\<lparr>tw_sys := s\<rparr> | None \<Rightarrow> ?y\<lparr>tw_undefined := True\<rparr>)\<rparr>)"
    if w: "faces tr w" for tr
    unfolding faces_def
  proof
    assume real: "foldM obs_step (tr @ [ob x]) (False, False) \<noteq> None"
    from history_before [OF this] have "tw_ok ?y" "status_for tr (td_st (tw_sys ?y))" using w by (simp_all add: faces_def)
    with assms [of "tw_sys ?y" tr] real obtain s' where "f x (tw_sys ?y) = Some s'" "td_ok s'" "status_for (tr @ [ob x]) (td_st s')"
      by (auto simp: tw_ok_def)
    then show "tw_ok (elib (w\<lparr>elib := (case f x (tw_sys ?y) of Some s \<Rightarrow> ?y\<lparr>tw_sys := s\<rparr> | None \<Rightarrow> ?y\<lparr>tw_undefined := True\<rparr>)\<rparr>)) \<and>
      status_for (tr @ [ob x]) (td_st (tw_sys (elib (w\<lparr>elib := (case f x (tw_sys ?y) of Some s \<Rightarrow> ?y\<lparr>tw_sys := s\<rparr> | None \<Rightarrow> ?y\<lparr>tw_undefined := True\<rparr>)\<rparr>))))"
      using \<open>tw_ok ?y\<close> by (simp add: tw_ok_def)
  qed
  then show ?thesis by (simp add: td_callback_def Let_def)
qed

text \<open>The transport and the clock leave the face alone.\<close>

definition face :: "'p td_world \<Rightarrow> td_status \<times> u16 list \<times> bool" where
  "face y = (td_st (tw_sys y), td_fb (tw_sys y), tw_undefined y)"

interpretation td_face: http_library "td_http ch" "\<lambda>y. face y = x" for ch x
  by unfold_locales (simp_all add: td_http_def lift_http_def [of tw_hw put_tw] on_part_def split_beta face_def put_tw_def)

lemma faces_same: "face (elib w') = face (elib w) \<Longrightarrow> faces tr w \<Longrightarrow> faces tr w'"
  by (simp add: faces_def face_def tw_ok_def td_ok_def)

lemma faces_transport:
  assumes "faces tr w" and "face (elib w') = face (elib w)" and "delivered [ob] = []" "opens_of [ob] = 0"
  shows "faces (tr @ [ob]) w'"
  using faces_same [OF assms(2,1)] history_before [of tr ob] status_transport [OF _ assms(3,4)] by (auto simp: faces_def)

interpretation td_history: world_history "td_config i ch u" "sse_transport_esp (td_http ch)" faces for i ch u
proof
  let ?g = "td_config i ch u"
  show "transport ?g = Some (sse_transport_esp (td_http ch))"
    by (simp add: td_config_def td_config_with_def Let_def)
  show "faces (tr @ [TOpen q (r = 0)]) w'"
    if "tr_open (sse_transport_esp (td_http ch)) = Some f" "faces tr w" "f w req fresh_info = Some (r, j, w')" for f tr w req r j w' q
    using that td_face.open_fn_keeps [of ch w req fresh_info r j w' "face (elib w)"]
    by (intro faces_transport [OF that(2)]) (simp_all add: sse_transport_esp_def opens_of_def)
  show "faces (tr @ [TRead r (rx_bytes len r m')]) w'"
    if "tr_read (sse_transport_esp (td_http ch)) = Some f" "faces tr w" "f w m len tmo = Some (r, m', stopped, w')" for f tr w m len tmo r m' stopped w'
    using that td_face.read_fn_keeps [of ch w m len tmo r m' stopped w' "face (elib w)"]
    by (intro faces_transport [OF that(2)]) (simp_all add: sse_transport_esp_def opens_of_def)
  show "faces (tr @ [TClose]) w'" if "tr_close (sse_transport_esp (td_http ch)) = Some f" "faces tr w" "f w = Some w'" for f tr w w'
    using that td_face.close_fn_keeps [of ch w w' "face (elib w)"]
    by (intro faces_transport [OF that(2)]) (simp_all add: sse_transport_esp_def opens_of_def)
  show "faces tr (snd (clk w))" if "now_ms ?g = Some clk" "faces tr w" for clk tr w
    using that by (intro faces_same [OF _ that(2)])
      (auto simp: td_config_def td_config_with_def Let_def td_clock_def on_part_def split_beta face_def put_tw_def)
  show "callback_joins faces (on_open (callbacks ?g)) CbOpen"
    unfolding callback_joins_def td_config_def td_config_with_def Let_def
    by (auto intro!: faces_callback td_shown(1))
  show "callback_joins faces (on_message (callbacks ?g)) CbMessage"
    unfolding callback_joins_def td_config_def td_config_with_def Let_def
    by (auto intro!: faces_callback td_shown(2) message_before)
  show "callback_joins faces (on_error (callbacks ?g)) CbError"
    unfolding callback_joins_def td_config_def td_config_with_def Let_def
    by (auto intro!: faces_callback td_shown(3))
  show "callback_joins faces (on_closed (callbacks ?g)) (\<lambda>x. CbClosed)"
    unfolding callback_joins_def td_config_def td_config_with_def Let_def
    by (auto intro!: faces_callback [where ob = "\<lambda>x. CbClosed"] td_shown(4))
  show "callback_joins faces (reconnect_policy ?g) CbPolicy"
    by (simp add: callback_joins_def td_config_def td_config_with_def Let_def)
qed

section \<open>What is on display\<close>

text \<open>The world in which \<open>app_main\<close> sets its client up: the display sound, its counters at zero.\<close>

definition fresh_board :: "'p td_world esp_sys \<Rightarrow> bool" where
  "fresh_board w \<longleftrightarrow> td_T False w \<and> status_for [] (td_st (tw_sys (elib w)))"

lemma status_zero: "status_for [] st \<longleftrightarrow> td_events st = 0 \<and> td_dropped st = 0 \<and> td_first_open st \<and> td_reconnects st = 0"
  by (auto simp: status_for_def counts_def reconnects_def)

lemma boot_status:
  "status_for [] blank_status"
  "joining_status ssid st = Some st' \<Longrightarrow> status_for [] st \<Longrightarrow> status_for [] st'"
  "joined_status ssid st = Some st' \<Longrightarrow> status_for [] st \<Longrightarrow> status_for [] st'"
  by (auto simp: status_zero blank_status_def joining_status_def joined_status_def split: bind_splits)

text \<open>C38: The T-Display shows the stream: whatever the server sends, its counters are the numbers of events, of oversized events and of reconnects, modulo 2^32, and the type and the id of the last event stand in their fields, cut to 27 and 100 bytes; and until the client is CLOSED these are the events the stream specification assigns to the bytes received. Strings and framebuffer are sound throughout.\<close>

theorem tdisplay_shows_the_stream:
  assumes "reachable (td_config i ch u) fresh_board s"
  shows "tw_ok (elib (env s)) \<and> counts (delivered (trace s)) (td_st (tw_sys (elib (env s)))) \<and>
    reconnects (opens_of (trace s)) (td_st (tw_sys (elib (env s)))) \<and>
    (state (cl s) \<noteq> SSE_STATE_CLOSED \<longrightarrow>
      delivered (trace s) = fst (resume (buffer_limits (buffers (td_config i ch u))) [] (conn_bytes (trace s))))"
proof -
  let ?g = "td_config i ch u"
  note env = td_program.client_env_axioms [where ch = ch and i = i and u = u]
  have reach: "reachable ?g (td_T False) s"
    using assms by (induction rule: reachable.induct) (auto simp: fresh_board_def intro: reachable.intros)
  have "foldM obs_step (trace s) (False, False) \<noteq> None"
    using reach_settled [OF env reach] by (auto simp: settled_def client_inv_def obs_ok_def)
  moreover have "faces (trace s) (env s)"
    by (rule td_history.reachable_history_fits [OF assms]) (simp add: fresh_board_def faces_def td_T_def)
  moreover have "wanted ?g = (\<lambda>n. True)"
    by (simp add: fun_eq_iff wanted_def td_config_def td_config_with_def Let_def split: notice.split)
  ultimately show ?thesis
    using reach_history [OF env reach]
    by (auto simp: faces_def status_for_def history_inv_def caught_up_def split: prod.splits)
qed

theorem tdisplay_shows_the_stream_witness:
  "\<exists>s. reachable (td_config near_idf near_chip (bytes_of ''http://h/'')) fresh_board s \<and> state (cl s) = SSE_STATE_CLOSED \<and>
     trace s = [CbClosed] \<and> td_events (td_st (tw_sys (elib (env s)))) = 0 \<and> tw_ok (elib (env s))"
proof -
  fix c0 :: "nat boot td_world esp_sys sse_client"
  let ?g = "td_config near_idf near_chip (bytes_of ''http://h/'')"
  note env = td_program.client_env_axioms [where ch = near_chip and i = near_idf and u = "bytes_of ''http://h/''"]
  let ?w = "\<lparr>ectx = new_esp_ctx, elib = \<lparr>tw_sys = td_zero, tw_undefined = False\<rparr>\<rparr>"
  have "esp_T False ?w" by (rule esp_new_ok [of True True loop_api]) (simp add: sse_transport_esp_http_client_def)
  then have fresh: "fresh_board ?w"
    using td_zero_ok boot_status(1) by (simp add: fresh_board_def td_T_def tw_ok_def td_zero_def)
  have clk: "now_ms ?g = Some (td_clock near_chip)" by (simp add: td_config_def td_config_with_def Let_def)
  have "client_config_valid ?g" by (rule client_env.config_valid [OF env])
  then have init: "sse_client_init (Some c0) (Some ?g) ?w =
      Some (0, Some (init_client ?g (fst (td_clock near_chip ?w))), snd (td_clock near_chip ?w))"
    using clk by (simp add: sse_client_init_def split_beta)
  let ?s = "started (init_client ?g (fst (td_clock near_chip ?w))) (snd (td_clock near_chip ?w))"
  have r0: "reachable ?g fresh_board ?s" by (rule reachable.init [where W = fresh_board, OF fresh init])
  have "td_T False w" if "fresh_board w" for w using that by (simp add: fresh_board_def)
  then have set0: "settled td_T ?g ?s" using client_env.init_settled [OF env _ init] fresh by blast
  have idle: "state (cl ?s) = SSE_STATE_IDLE" "\<not> transport_open (cl ?s)" "trace ?s = []"
      "on_closed (callbacks (cfg (cl ?s))) \<noteq> None"
    by (simp_all add: started_def init_client_def with_defaults_def td_config_def td_config_with_def Let_def)
  obtain s' where s': "sse_client_close ?s = Some s'" "shut ?s s'"
    using client_env.close_call_ok [OF env set0] idle(1) by (auto simp: returns_iff)
  have r1: "reachable ?g fresh_board s'" by (rule reachable.step [OF r0 client_step.close [OF s'(1)]])
  have "state (cl s') = SSE_STATE_CLOSED" "trace s' = [CbClosed]"
    using s'(2) idle by (auto simp: shut_def ended_def closing_obs_def)
  then show ?thesis using tdisplay_shows_the_stream [OF r1] r1
    by (intro exI [of _ s']) (simp add: counts_def)
qed

end
