(* ===== verification/Fuzz.thy ===== *)
theory Fuzz
  imports Sse_Parser_Safety
begin

text \<open>
  The fuzzing harness of \<open>fuzz/\<close>: the entry point that feeds one input to a parser with
  small buffers, once in chunks and once whole, with callbacks that read every byte they
  are handed, and the standalone driver, which replays files or generates inputs.
\<close>

section \<open>Callbacks\<close>

text \<open>The sums that keep the reads alive; only whether a read is out of bounds matters.\<close>

definition sink_bytes :: "bytes \<Rightarrow> nat \<Rightarrow> u32 option" where
  "sink_bytes m n = foldM (\<lambda>i s. do { b \<leftarrow> buf_read m i; Some (s + ucast b) }) [0..<n] 0"

definition sink_str :: "bytes \<Rightarrow> u32 option" where
  "sink_str m = do { s \<leftarrow> c_str m; sink_bytes m (length s) }"

definition fz_on_event :: "unit \<Rightarrow> sse_parser_event \<Rightarrow> unit option" where
  "fz_on_event u ev = do {
     _ \<leftarrow> sink_bytes (ev_data ev) (ev_data_len ev);
     _ \<leftarrow> (case ev_event ev of None \<Rightarrow> Some 0 | Some m \<Rightarrow> sink_str m);
     _ \<leftarrow> (case ev_id ev of None \<Rightarrow> Some 0 | Some m \<Rightarrow> sink_str m);
     Some u
   }"

definition fz_on_id :: "unit \<Rightarrow> bytes \<times> nat \<Rightarrow> unit option" where
  "fz_on_id u x = do { _ \<leftarrow> sink_bytes (fst x) (snd x); Some u }"

definition fuzz_callbacks :: "unit sse_parser_callbacks" where
  "fuzz_callbacks = \<lparr>pcb_on_event = Some fz_on_event, pcb_on_id = Some fz_on_id,
     pcb_on_retry = Some (\<lambda>u ms. Some u), pcb_on_error = Some (\<lambda>u e. Some u)\<rparr>"

section \<open>The entry point\<close>

text \<open>The loop over chunks from index \<open>i\<close>; \<open>step\<close> is at least 1.\<close>

function fuzz_chunks :: "bytes \<Rightarrow> nat \<Rightarrow> nat \<Rightarrow> sse_parser \<times> unit \<Rightarrow> (sse_parser \<times> unit) option" where
  "fuzz_chunks data step i s =
     (if i \<ge> length data \<or> step = 0 then Some s
      else do {
        let k = (if length data - i < step then length data - i else step);
        s \<leftarrow> sse_parser_feed fuzz_callbacks (drop i data) k s;
        fuzz_chunks data step (i + step) s
      })"
  by pat_completeness auto
termination by (relation "measure (\<lambda>(data, step, i, s). length data - i)") auto

declare fuzz_chunks.simps [simp del]

text \<open>\<open>db\<close>, \<open>ib\<close> and \<open>eb\<close> are the uninitialised arrays on the stack.\<close>

definition LLVMFuzzerTestOneInput :: "bytes \<Rightarrow> bytes \<Rightarrow> bytes \<Rightarrow> bytes \<Rightarrow> i32 option" where
  "LLVMFuzzerTestOneInput db ib eb data = do {
     let bufs = \<lparr>buf_data = Some db, buf_data_len = 300, buf_id = Some ib, buf_id_len = 33,
                 buf_event = Some eb, buf_event_len = 17\<rparr>;
     let p = sse_parser_init bufs;
     if data = [] then Some 0
     else do {
       let step = unat (hd data) mod 7 + 1;
       (p, u) \<leftarrow> fuzz_chunks data step 1 (p, ());
       _ \<leftarrow> sse_parser_feed fuzz_callbacks (drop 1 data) (length data - 1) (sse_parser_reset p, u);
       Some 0
     }
   }"

section \<open>The standalone driver\<close>

definition xs_next :: "u32 \<Rightarrow> u32" where
  "xs_next s =
     (let x = s; x = x XOR push_bit 13 x; x = x XOR drop_bit 17 x; x = x XOR push_bit 5 x
      in if x \<noteq> 0 then x else 0x9e3779b9)"

definition alphabet :: bytes where
  "alphabet = bytes_of ''dateviyr: '' @ [10, 13, 0, 0xEF, 0xBB, 0xBF] @ bytes_of ''comnk0129;x''"

text \<open>The loop that fills the buffer: \<open>n\<close> bytes from the generator.\<close>

fun smoke_fill :: "nat \<Rightarrow> u32 \<Rightarrow> bytes \<times> u32" where
  "smoke_fill 0 s = ([], s)"
| "smoke_fill (Suc n) s =
     (let s = xs_next s; b = alphabet ! (unat s mod (length alphabet - 1)); (bs, s) = smoke_fill n s in (b # bs, s))"

definition smoke_input :: "u32 \<Rightarrow> bytes \<times> u32" where
  "smoke_input s = (let s = xs_next s in smoke_fill (unat s mod 512) s)"

text \<open>The loop of \<open>main\<close> without arguments, \<open>iters\<close> iterations.\<close>

fun smoke_main :: "bytes \<Rightarrow> bytes \<Rightarrow> bytes \<Rightarrow> nat \<Rightarrow> u32 \<Rightarrow> i32 option" where
  "smoke_main db ib eb 0 s = Some 0"
| "smoke_main db ib eb (Suc iters) s = do {
     let (buf, s) = smoke_input s;
     _ \<leftarrow> LLVMFuzzerTestOneInput db ib eb buf;
     smoke_main db ib eb iters s
   }"

text \<open>
  The loop over the arguments: each file is read up to the size of the buffer and replayed.
  \<open>file\<close> is the content \<open>fopen\<close> and \<open>fread\<close> find under a name, \<open>None\<close> if it cannot be opened.
\<close>

fun replay_files :: "(bytes \<Rightarrow> bytes option) \<Rightarrow> bytes \<Rightarrow> bytes \<Rightarrow> bytes \<Rightarrow> bytes list \<Rightarrow> i32 option" where
  "replay_files file db ib eb [] = Some 0"
| "replay_files file db ib eb (name # names) = (case file name of
      None \<Rightarrow> Some 1
    | Some content \<Rightarrow> do {
        _ \<leftarrow> LLVMFuzzerTestOneInput db ib eb (take (2 ^ 20) content);
        replay_files file db ib eb names
      })"

text \<open>\<open>main\<close>, with the seed of the static \<open>xs_state\<close>.\<close>

definition standalone_main :: "(bytes \<Rightarrow> bytes option) \<Rightarrow> bytes \<Rightarrow> bytes \<Rightarrow> bytes \<Rightarrow> bytes list \<Rightarrow> i32 option" where
  "standalone_main file db ib eb argv =
     (if length argv > 1 then replay_files file db ib eb (tl argv) else smoke_main db ib eb 200000 0x12345)"

section \<open>The harness finds nothing\<close>

lemma sink_bytes_ok: "n \<le> length m \<Longrightarrow> returns (sink_bytes m n) (\<lambda>_. True)"
  unfolding sink_bytes_def by (rule returns_foldM) auto

lemma sink_str_ok: "c_str m = Some s \<Longrightarrow> returns (sink_str m) (\<lambda>_. True)"
proof -
  assume s: "c_str m = Some s"
  then have "length s \<le> length m" by (auto simp: c_str_def length_takeWhile_le split: if_splits)
  then show ?thesis using sink_bytes_ok s by (simp add: sink_str_def)
qed

lemma fz_on_event_ok: "event_wf ev \<Longrightarrow> returns (fz_on_event u ev) (\<lambda>_. True)"
proof -
  assume ev: "event_wf ev"
  have "returns (sink_bytes (ev_data ev) (ev_data_len ev)) (\<lambda>_. True)"
    using ev by (intro sink_bytes_ok) (simp add: event_wf_def terminated_def)
  moreover have "returns (case ev_event ev of None \<Rightarrow> Some 0 | Some m \<Rightarrow> sink_str m) (\<lambda>_. True)"
    using ev sink_str_ok by (auto simp: event_wf_def split: option.split)
  moreover have "returns (case ev_id ev of None \<Rightarrow> Some 0 | Some m \<Rightarrow> sink_str m) (\<lambda>_. True)"
    using ev sink_str_ok by (auto simp: event_wf_def split: option.split)
  ultimately show ?thesis by (auto simp: fz_on_event_def returns_iff)
qed

lemma fz_on_id_ok: "id_wf n x \<Longrightarrow> returns (fz_on_id u x) (\<lambda>_. True)"
  using sink_bytes_ok [of "snd x" "fst x"] by (auto simp: fz_on_id_def id_wf_def terminated_def)

interpretation fuzz: parser_callbacks fuzz_callbacks "\<lambda>_. True" 33
  by unfold_locales (auto simp: fuzz_callbacks_def intro: fz_on_event_ok fz_on_id_ok)

lemma fuzz_chunks_ok:
  "fuzz.sys_ok C s \<Longrightarrow> fst (snd C) \<le> 33 \<Longrightarrow> returns (fuzz_chunks data step i s) (fuzz.sys_ok C)"
proof (induction data step i s rule: fuzz_chunks.induct)
  case (1 data step i s)
  show ?case
  proof (cases "i \<ge> length data \<or> step = 0")
    case True
    then show ?thesis using 1 by (subst fuzz_chunks.simps) auto
  next
    case False
    let ?k = "if length data - i < step then length data - i else step"
    have "?k \<le> length (drop i data)" by simp
    from fuzz.feed_ok [OF 1(2) this] obtain s' where s': "sse_parser_feed fuzz_callbacks (drop i data) ?k s = Some s'" "fuzz.sys_ok C s'"
      using 1(3) by (auto simp: returns_iff)
    then show ?thesis using False 1(1) [OF False refl s'(1) s'(2) 1(3)]
      by (subst fuzz_chunks.simps) (simp add: Let_def)
  qed
qed

text \<open>
  For every input, whatever the stack held, the harness returns 0: no read or write of the
  parser or of its callbacks is out of bounds.
\<close>

theorem fuzz_harness_safe:
  assumes "length db = 300" and "length ib = 33" and "length eb = 17"
  shows "LLVMFuzzerTestOneInput db ib eb data = Some 0"
proof (cases "data = []")
  case True
  then show ?thesis by (simp add: LLVMFuzzerTestOneInput_def)
next
  case False
  let ?B = "\<lparr>buf_data = Some db, buf_data_len = 300, buf_id = Some ib, buf_id_len = 33, buf_event = Some eb, buf_event_len = 17\<rparr>"
  let ?C = "(300, 33, 17)"
  have "fuzz.sys_ok ?C (sse_parser_init ?B, ())"
    using assms by (auto simp: fuzz.sys_ok_def buffers_ok_def intro!: parser_inv_init)
  then have "returns (fuzz_chunks data (unat (hd data) mod 7 + 1) 1 (sse_parser_init ?B, ())) (fuzz.sys_ok ?C)"
    by (rule fuzz_chunks_ok) simp
  then obtain p u where p: "fuzz_chunks data (unat (hd data) mod 7 + 1) 1 (sse_parser_init ?B, ()) = Some (p, u)" "fuzz.sys_ok ?C (p, u)"
    by (simp only: returns_iff) (metis surj_pair)
  from p(2) have "fuzz.sys_ok ?C (sse_parser_reset p, u)"
    by (simp add: fuzz.sys_ok_def parser_inv_reset)
  from fuzz.feed_ok [OF this, of "length data - 1" "drop 1 data"]
  obtain q where "sse_parser_feed fuzz_callbacks (drop 1 data) (length data - 1) (sse_parser_reset p, u) = Some q"
    by (auto simp: returns_iff)
  then show ?thesis using False p(1) by (simp add: LLVMFuzzerTestOneInput_def)
qed

lemma smoke_main_returns:
  "length db = 300 \<Longrightarrow> length ib = 33 \<Longrightarrow> length eb = 17 \<Longrightarrow> smoke_main db ib eb n s = Some 0"
  by (induction n arbitrary: s) (simp_all add: fuzz_harness_safe split_beta)

lemma replay_files_exit:
  "length db = 300 \<Longrightarrow> length ib = 33 \<Longrightarrow> length eb = 17 \<Longrightarrow>
   replay_files file db ib eb names = Some (if \<forall>n \<in> set names. file n \<noteq> None then 0 else 1)"
  by (induction names) (auto simp: fuzz_harness_safe split: option.split)

text \<open>C39: The standalone fuzz driver finds nothing: whatever the files contain and whatever the stack held, it exits with 1 exactly when a file it was given cannot be opened, and with 0 otherwise; no input, replayed or generated, makes the parser or the callbacks read or write out of bounds.\<close>

theorem standalone_main_exit:
  assumes "length db = 300" and "length ib = 33" and "length eb = 17"
  shows "standalone_main file db ib eb argv = Some (if \<forall>n \<in> set (tl argv). file n \<noteq> None then 0 else 1)"
proof (cases "length argv > 1")
  case True
  then show ?thesis using assms by (simp add: standalone_main_def replay_files_exit)
next
  case False
  then have "tl argv = []" by (cases argv) auto
  then show ?thesis using False assms by (simp add: standalone_main_def smoke_main_returns)
qed

theorem standalone_main_exit_witness:
  "standalone_main (\<lambda>n. if n = bytes_of ''crash'' then Some (bytes_of ''xid'' @ [LF, LF]) else None)
     (replicate 300 0) (replicate 33 0) (replicate 17 0) [bytes_of ''smoke'', bytes_of ''crash''] = Some 0 \<and>
   standalone_main (\<lambda>n. None) (replicate 300 0) (replicate 33 0) (replicate 17 0) [bytes_of ''smoke'', bytes_of ''crash''] = Some 1"
  by (simp_all add: standalone_main_exit)

text \<open>The last byte of the alphabet is never used: its length is reduced by one as if it ended in a NUL.\<close>

lemma smoke_fill_bytes: "set (fst (smoke_fill n s)) \<subseteq> set (butlast alphabet)"
proof (induction n arbitrary: s)
  case (Suc n)
  have "alphabet ! (unat x mod (length alphabet - 1)) \<in> set (butlast alphabet)" for x :: u32
  proof -
    let ?i = "unat x mod (length alphabet - 1)"
    have "0 < length alphabet - 1" by (simp add: alphabet_def)
    then have i: "?i < length (butlast alphabet)" by simp
    then have "butlast alphabet ! ?i = alphabet ! ?i" by (rule nth_butlast)
    then show ?thesis using nth_mem [OF i] by simp
  qed
  then show ?case using Suc [of "xs_next s"] by (simp add: Let_def split_beta)
qed simp

theorem smoke_never_uses_last: "120 \<notin> set (fst (smoke_input s))" "last alphabet = 120"
proof -
  have "120 \<notin> set (butlast alphabet)" by (simp add: alphabet_def bytes_of_def)
  then show "120 \<notin> set (fst (smoke_input s))" using smoke_fill_bytes by (auto simp: smoke_input_def Let_def)
  show "last alphabet = 120" by (simp add: alphabet_def bytes_of_def)
qed

end
