(* ===== verification/Spec2Isabelle.thy ===== *)
theory Spec2Isabelle
  imports Sse_Client_Properties Sse_Parser_Properties Sse_Policy_Properties Esp_Boot_Properties Posix_Properties
    Tdisplay_Status Fuzz
begin

text \<open>
  \<^bold>\<open>eventsource-c, verified.\<close> The repository is a client for server-sent events in C, with
  no allocation in its core. It has four layers, and so has this development.

  \<^bold>\<open>1. The parser\<close> (\<open>src/sse_parser.c\<close>, \<open>include/eventsource/sse_parser.h\<close>) takes the bytes of a
  stream in any chunks and calls back for events, ids, retry times and errors, writing
  only to buffers of its caller.
  \<^item> \<open>Sse_Parser\<close>: \<open>sse_parser\<close> is the struct, \<open>process_byte\<close>, \<open>line_byte\<close>, \<open>name_byte\<close>,
    \<open>value_byte\<close>, \<open>commit_value\<close>, \<open>line_end\<close>, \<open>dispatch_block\<close> the functions of that name or
    the branches of \<open>process_byte\<close>; \<open>sse_parser_feed\<close> is the loop over a chunk.
  \<^item> \<open>Sse_Parser_Safety\<close>: the invariant \<open>parser_inv\<close> and the locale \<open>parser_callbacks\<close>, inside
    which every operation stays in its buffers and hands out well-formed arguments.
  \<^item> \<open>Sse_Parser_Trace\<close>: recording callbacks, and that any others see the same calls.
  \<^item> \<open>Sse_Spec\<close>: the event-stream format as a specification on lines and blocks, with the
    limits of the buffers. \<open>Sse_Parser_Refine\<close> proves that the byte machine implements it
    and that it satisfies the recursive equation of the source.
  \<^item> \<open>Sse_Encode\<close>: an encoder of events, for the round trip.
  \<^item> \<open>Sse_Parser_Properties\<close>: the parser's properties.

  \<^bold>\<open>2. The client\<close> (\<open>src/sse_client.c\<close>, \<open>include/eventsource/sse_client.h\<close>,
  \<open>include/eventsource/sse_transport.h\<close>) connects through a transport, feeds the parser,
  passes on messages and errors, and reconnects with a delay. It is polled.
  \<^item> \<open>Sse_Client\<close>: \<open>sse_client\<close> is the struct, \<open>sys\<close> the client with its environment and a
    history of calls (\<open>obs\<close>, used by the theorems only); every function of the file has its
    definition, with the branches of the long ones (\<open>fail_conn\<close>, \<open>sse_client_poll\<close>) as
    definitions of their own. Transport, clock and user callbacks are fields of the
    configuration; a callback is a \<open>script\<close> that may call \<open>sse_client_close\<close> and
    \<open>sse_client_request_stop\<close> back.
  \<^item> \<open>Sse_Client_Safety\<close>: the locales \<open>sse_transport_contract\<close> and \<open>client_env\<close>, the invariant
    \<open>client_inv\<close>, and each operation inside \<open>client_env\<close>; \<open>Sse_Client_Conn\<close> for connecting,
    failing and reading, \<open>Sse_Client_Reach\<close> for \<open>poll\<close> and the reachable states,
    \<open>Sse_Client_Stream\<close> for what messages and ids mean in terms of the bytes received,
    \<open>Sse_Client_Delay\<close> for the arithmetic of the delay. \<open>Sse_Client_History\<close> has the locale
    \<open>world_history\<close>: a relation between the history and the world that each call respects
    holds in every reachable state.
  \<^item> \<open>Demo\<close>: a small environment for the examples. \<open>Sse_Client_Properties\<close> and
    \<open>Sse_Policy_Properties\<close>: the client's properties.

  \<^bold>\<open>3. The ports.\<close>
  \<^item> \<open>Esp_Transport\<close> (\<open>ports/esp-idf/sse_transport_esp.c\<close>): open with its redirect loop, read,
    close, header capture and the comparison of origins, with \<open>esp_http_client\<close> as the
    parameter \<open>http_api\<close>. \<open>Esp_Transport_Safety\<close> proves the transport contract and
    interprets the locale, \<open>Esp_Origin\<close> the meaning of the origin comparison;
    \<open>Esp_Transport_World\<close> proves the contract for a library whose state has an invariant.
  \<^item> \<open>Curl_Transport\<close> (\<open>ports/posix/sse_transport_curl.c\<close>, \<open>sse_clock_posix.c\<close>): the ring
    buffer, the two libcurl callbacks, the pump, open with its timed waits and redirects,
    read, close. libcurl and \<open>clock_gettime\<close> are the parameter \<open>curl_api\<close>; a libcurl call that
    runs callbacks is a \<open>curl_run\<close>. \<open>Curl_Safety\<close> proves the contract and that the waits end,
    \<open>Curl_Stream\<close> that the ring is a bounded queue and what a header block leaves,
    \<open>Curl_Origin\<close> where redirects lead. \<open>Curl_Invariant\<close> has what these proofs share, the
    locales \<open>curl_invariant\<close>, \<open>curl_hop_invariant\<close> and \<open>curl_library_invariant\<close>: what every
    libcurl call keeps, the waits, the hops and the operations keep. \<open>Curl_Delivery\<close> watches what libcurl hands over and
    shows that the bytes in the client's history are those, less what waits in the ring,
    and that the lines printed are those of the calls to the user.

  \<^bold>\<open>4. The programs.\<close>
  \<^item> \<open>Esp_Example\<close>: the callbacks and the configuration of \<open>examples/esp32/main/main.c\<close> and the
    polling task of \<open>ports/esp-idf/sse_client_task.c\<close>, with \<open>Esp_Properties\<close> and
    \<open>Esp_Task_Properties\<close>. \<open>Esp_Boot\<close>: its Wi-Fi code and \<open>app_main\<close>, on ESP-IDF as the
    parameter \<open>idf\<close>, with \<open>Esp_Boot_Properties\<close>.
  \<^item> \<open>Posix_Example\<close>: \<open>examples/posix/main.c\<close>, with \<open>Curl_Properties\<close> and \<open>Posix_Properties\<close>.
  \<^item> \<open>Td_Font\<close>, \<open>Tdisplay\<close>: the text renderer, status and callbacks of
    \<open>examples/esp32-tdisplay\<close>, with \<open>Tdisplay_Properties\<close>. \<open>Tdisplay_App\<close>: the panel's set-up
    and \<open>app_main\<close>, with the callbacks on the ESP-IDF transport in one world;
    \<open>Tdisplay_App_Properties\<close> shows that the program starts up and runs, \<open>Tdisplay_Status\<close>
    that it shows the stream.
  \<^item> \<open>Fuzz\<close>: the harness and the standalone driver of \<open>fuzz/\<close>.

  \<^bold>\<open>How code becomes definitions.\<close> A struct is a record, an enum a datatype, a 32-bit integer a
  32-bit word that wraps, \<open>int\<close> a word read with \<open>sint\<close>, \<open>size_t\<close> a \<open>nat\<close> where the code keeps it
  in range (proved by the invariants). An array is the list of its bytes; a read or write
  past its end is \<open>None\<close>, as is every other undefined behaviour, so that a function which
  returns \<open>Some\<close> has run without any (\<open>Prelude\<close>, with the weakest-precondition rules \<open>wp\<close> for
  \<open>returns\<close>). A NULL pointer is \<open>None\<close> of an option inside the data.

  \<^bold>\<open>Interfaces.\<close> \<open>parser_callbacks\<close> is what the parser asks of its client; it is interpreted on
  the client's bridge functions, the recording callbacks and the fuzzer's.
  \<open>sse_transport_contract\<close> is what the client asks of a transport; it is interpreted on both
  transports. \<open>client_env\<close> adds the clock and the callbacks, and is interpreted on the
  three example programs. \<open>http_library\<close> is a HTTP client with an invariant on its state,
  interpreted on the T-Display's, which shares its world with the display. \<open>world_history\<close> is
  interpreted on the POSIX example with a watched libcurl and on the T-Display program.

  \<^bold>\<open>Hypotheses on code outside the repository.\<close> The HTTP library of the ESP port is arbitrary, and
  so are the drivers: any call of \<open>ESP_ERROR_CHECK\<close> may fail, and then the program aborts. Only
  the statement that joining the network ends assumes that the calls before the wait work
  (\<open>reliable\<close>) and that the event loop delivers an address some time.
  For libcurl: header lines are passed whole and end in LF, a status has at most three
  digits, chunks are at most 16 KiB, only \<open>CURLOPT_URL\<close> changes the effective URL, time does
  not go back and single calls end (\<open>curl_laws\<close>, \<open>chunk_laws\<close>, \<open>url_laws\<close>; each holds of the
  \<open>demo_curl\<close> of \<open>Curl_Properties\<close>).

  \<^bold>\<open>Bounds, loops and fuel.\<close> No definition uses fuel. Redirect loops end by their hop
  counters. The timed waits of the libcurl transport are partial functions, proved to end
  because every reading of the clock takes time; the task's loop and the main loop of the
  POSIX example run as long as their client lives, so they are partial functions, and
  every turn of them is proved to return. Clock arithmetic wraps at 2^32 milliseconds as in
  the code. \<open>long\<close> has 64 bits in the POSIX port and 32 in the ESP port.

  \<^bold>\<open>Not modelled\<close>, and why: logging beyond its arguments; \<open>signal\<close>, \<open>setvbuf\<close> and
  \<open>curl_global_init\<close>; \<open>display_flush\<close> refusing a frame inside a callback, which ends the program
  (at start-up it is modelled); the tests, build files and scripts.
\<close>

end
